(* ===== verification/Coap_Prelude.thy ===== *)
theory Coap_Prelude
  imports Main "HOL-Library.Word" "HOL-Library.Monad_Syntax"
begin

text \<open>
  What every component shares: the machine types, the fixed-size slot tables that the
  library uses instead of a heap (transactions, observers, deferred requests, block-wise
  sessions, pending requests, discover slots, DTLS sessions), big-endian words, and the
  collections of rewrite rules the component proofs use.
\<close>

unbundle bit_operations_syntax

type_synonym u8 = "8 word"
type_synonym u16 = "16 word"
type_synonym u32 = "32 word"
type_synonym bytes = "8 word list"

named_theorems frame_simps \<open>fields an operation leaves alone\<close>
named_theorems len_simps \<open>sizes of tables and buffers after an operation\<close>

section \<open>C strings\<close>

text \<open>
  A C string is the list of its bytes without the terminating NUL. A buffer that may hold
  an embedded NUL is read as a C string up to the first one.
\<close>

definition cstr :: "bytes \<Rightarrow> bytes" where
  "cstr b = takeWhile (\<lambda>x. x \<noteq> 0) b"

definition str :: "string \<Rightarrow> bytes" where
  "str s = map of_char s"

lemma cstr_no_nul: "0 \<notin> set b \<Longrightarrow> cstr b = b"
  by (auto simp: cstr_def takeWhile_eq_all_conv)

lemma length_cstr: "length (cstr b) \<le> length b"
  by (simp add: cstr_def length_takeWhile_le)

lemma nul_notin_cstr: "0 \<notin> set (cstr b)"
  by (auto simp: cstr_def dest: set_takeWhileD)

section \<open>Big-endian 16-bit values\<close>

definition hi_byte :: "u16 \<Rightarrow> u8" where
  "hi_byte v = ucast (drop_bit 8 v)"

definition lo_byte :: "u16 \<Rightarrow> u8" where
  "lo_byte v = ucast (v AND 0xFF)"

definition be16 :: "u8 \<Rightarrow> u8 \<Rightarrow> u16" where
  "be16 a b = push_bit 8 (ucast a) OR ucast b"

lemma below_8: "n < 8 \<Longrightarrow> n \<in> {0, 1, 2, 3, 4, 5, 6, 7 :: nat}"
  by auto

lemma from_8_below_16: "8 \<le> n \<Longrightarrow> n < 16 \<Longrightarrow> n \<in> {8, 9, 10, 11, 12, 13, 14, 15 :: nat}"
  by auto

lemma be16_hi_lo: "be16 (hi_byte v) (lo_byte v) = v"
proof (rule bit_word_eqI)
  fix n assume "n < LENGTH(16)"
  then consider "n < 8" | "8 \<le> n" "n < 16" by fastforce
  then show "bit (be16 (hi_byte v) (lo_byte v)) n \<longleftrightarrow> bit v n"
  proof cases
    case 1
    from below_8 [OF this] show ?thesis
      by (elim insertE emptyE) (simp_all add: be16_def hi_byte_def lo_byte_def bit_simps)
  next
    case 2
    from from_8_below_16 [OF this] show ?thesis
      by (elim insertE emptyE) (simp_all add: be16_def hi_byte_def lo_byte_def bit_simps)
  qed
qed

lemma hi_byte_be16: "hi_byte (be16 a b) = a"
  by (rule bit_word_eqI) (auto simp: be16_def hi_byte_def bit_simps dest: bit_imp_le_length)

lemma lo_byte_be16: "lo_byte (be16 a b) = b"
proof (rule bit_word_eqI)
  fix n assume "n < LENGTH(8)"
  then have "n < 8" by simp
  from below_8 [OF this] show "bit (lo_byte (be16 a b)) n \<longleftrightarrow> bit b n"
    by (elim insertE emptyE) (simp_all add: be16_def lo_byte_def bit_simps)
qed

lemma bit_lt_size:
  fixes w :: "'a::len word"
  assumes "unat w < 2 ^ k" "bit w n"
  shows "n < k"
proof -
  have "take_bit k w = w"
    using assms(1) by (simp add: word_unat_eq_iff unsigned_take_bit_eq take_bit_nat_eq_self_iff)
  with assms(2) show ?thesis by (metis bit_take_bit_iff)
qed

lemma and_mask3: "w AND 7 = take_bit 3 (w :: u32)"
proof -
  have "(7 :: u32) = mask 3" by (simp add: mask_eq_exp_minus_1)
  then show ?thesis by (simp add: take_bit_eq_mask)
qed

section \<open>Searching a slot table\<close>

text \<open>
  Every table of the library is searched by the same loop: the slots in index order, the
  first that satisfies a test is the result, -1 if there is none.
\<close>

primrec first_slot :: "('a \<Rightarrow> bool) \<Rightarrow> 'a list \<Rightarrow> nat option" where
  "first_slot P [] = None"
| "first_slot P (x # xs) = (if P x then Some 0 else map_option Suc (first_slot P xs))"

lemma first_slot_SomeD:
  "first_slot P xs = Some i \<Longrightarrow> i < length xs \<and> P (xs ! i) \<and> (\<forall>j < i. \<not> P (xs ! j))"
proof (induction xs arbitrary: i)
  case Nil
  then show ?case by simp
next
  case (Cons x xs)
  show ?case
  proof (cases "P x")
    case True
    with Cons.prems show ?thesis by simp
  next
    case False
    with Cons.prems obtain k where "first_slot P xs = Some k" "i = Suc k" by auto
    with Cons.IH [of k] False show ?thesis by (auto simp: less_Suc_eq_0_disj)
  qed
qed

lemma first_slot_lt: "first_slot P xs = Some i \<Longrightarrow> i < length xs"
  by (simp add: first_slot_SomeD)

lemma first_slot_sat: "first_slot P xs = Some i \<Longrightarrow> P (xs ! i)"
  by (simp add: first_slot_SomeD)

lemma first_slot_None_iff: "first_slot P xs = None \<longleftrightarrow> (\<forall>x \<in> set xs. \<not> P x)"
  by (induction xs) auto

lemma first_slot_Some_ex: "(\<exists>i. first_slot P xs = Some i) \<longleftrightarrow> (\<exists>x \<in> set xs. P x)"
  using first_slot_None_iff [of P xs] by (cases "first_slot P xs") auto

lemma first_slot_unique:
  assumes "i < length xs" "P (xs ! i)" "\<And>j. j < i \<Longrightarrow> \<not> P (xs ! j)"
  shows "first_slot P xs = Some i"
proof (cases "first_slot P xs")
  case None
  with assms show ?thesis by (auto simp: first_slot_None_iff)
next
  case (Some k)
  from first_slot_SomeD [OF Some] assms show ?thesis
    by (metis Some linorder_neqE_nat)
qed

lemma first_slot_Some_iff:
  "first_slot P xs = Some i \<longleftrightarrow> i < length xs \<and> P (xs ! i) \<and> (\<forall>j < i. \<not> P (xs ! j))"
  by (metis first_slot_SomeD first_slot_unique)

section \<open>Slot tables as fixed pools\<close>

text \<open>
  A slot is free or active; claiming fills in the first free one in place. The number of
  active slots is what the accessors \<^verbatim>\<open>activeCount()\<close> and \<^verbatim>\<open>observerCount()\<close> return.
\<close>

definition occupancy :: "('a \<Rightarrow> bool) \<Rightarrow> 'a list \<Rightarrow> nat" where
  "occupancy active xs = length (filter active xs)"

definition claim_slot :: "('a \<Rightarrow> bool) \<Rightarrow> ('a \<Rightarrow> 'a) \<Rightarrow> 'a list \<Rightarrow> (nat \<times> 'a list) option" where
  "claim_slot active fill xs =
     (case first_slot (\<lambda>x. \<not> active x) xs of
        None \<Rightarrow> None
      | Some i \<Rightarrow> Some (i, xs[i := fill (xs ! i)]))"

lemma occupancy_le [simp]: "occupancy active xs \<le> length xs"
  by (simp add: occupancy_def)

lemma length_filter_update:
  assumes "i < length xs"
  shows "length (filter P (xs[i := y])) + (if P (xs ! i) then 1 else 0)
       = length (filter P xs) + (if P y then 1 else 0)"
  using assms
proof (induction xs arbitrary: i)
  case Nil
  then show ?case by simp
next
  case (Cons x xs)
  show ?case
  proof (cases i)
    case 0
    then show ?thesis by simp
  next
    case (Suc k)
    with Cons show ?thesis by auto
  qed
qed

lemma occupancy_update:
  "i < length xs \<Longrightarrow>
   occupancy P (xs[i := y]) + (if P (xs ! i) then 1 else 0)
     = occupancy P xs + (if P y then 1 else 0)"
  unfolding occupancy_def by (rule length_filter_update)

lemma claim_slot_SomeD:
  assumes "claim_slot active fill xs = Some (i, ys)"
  shows "i < length xs" "\<not> active (xs ! i)" "ys = xs[i := fill (xs ! i)]"
        "\<And>j. j < i \<Longrightarrow> active (xs ! j)"
  using assms by (auto simp: claim_slot_def split: option.splits dest: first_slot_SomeD)

lemma claim_slot_None_iff: "claim_slot active fill xs = None \<longleftrightarrow> occupancy active xs = length xs"
proof -
  have "claim_slot active fill xs = None \<longleftrightarrow> (\<forall>x \<in> set xs. active x)"
    using first_slot_None_iff [of "\<lambda>x. \<not> active x" xs]
    by (cases "first_slot (\<lambda>x. \<not> active x) xs") (simp_all add: claim_slot_def)
  also have "\<dots> \<longleftrightarrow> length (filter active xs) = length xs"
    by (metis filter_id_conv filter_True length_filter_less less_irrefl)
  finally show ?thesis by (simp add: occupancy_def)
qed

text \<open>
  The contract between a table and the operation that claims its slots: a claimed slot is
  active, a released one is not. The lemmas say that a claim takes exactly one free slot,
  touches no other, and fails only when the table is full.
\<close>

locale slot_table =
  fixes active :: "'a \<Rightarrow> bool"
    and fill :: "'k \<Rightarrow> 'a \<Rightarrow> 'a"
    and release :: "'a \<Rightarrow> 'a"
  assumes fill_active: "active (fill k x)"
    and release_free: "\<not> active (release x)"
begin

lemma claim_occupancy:
  assumes "claim_slot active (fill k) xs = Some (i, ys)"
  shows "occupancy active ys = Suc (occupancy active xs)"
  using claim_slot_SomeD [OF assms] occupancy_update [of i xs active "fill k (xs ! i)"]
  by (simp add: fill_active)

lemma claim_active: "claim_slot active (fill k) xs = Some (i, ys) \<Longrightarrow> active (ys ! i)"
  using claim_slot_SomeD(1,3) by (fastforce simp: fill_active)

lemma claim_frame:
  "claim_slot active (fill k) xs = Some (i, ys) \<Longrightarrow> j \<noteq> i \<Longrightarrow> ys ! j = xs ! j"
  by (auto dest!: claim_slot_SomeD)

lemma claim_fails_iff_full:
  "claim_slot active (fill k) xs = None \<longleftrightarrow> occupancy active xs = length xs"
  by (rule claim_slot_None_iff)

lemma release_occupancy:
  assumes "i < length xs" "active (xs ! i)"
  shows "Suc (occupancy active (xs[i := release (xs ! i)])) = occupancy active xs"
  using occupancy_update [OF assms(1), of active "release (xs ! i)"] assms
  by (simp add: release_free)

lemma claim_then_release:
  assumes "claim_slot active (fill k) xs = Some (i, ys)"
  shows "occupancy active (ys[i := release (ys ! i)]) = occupancy active xs"
proof -
  have "i < length ys" using claim_slot_SomeD [OF assms] by simp
  from release_occupancy [OF this claim_active [OF assms]] claim_occupancy [OF assms]
  show ?thesis by simp
qed

end

section \<open>Lists\<close>

lemma nth_append_shift: "(xs @ ys) ! (length xs + n) = ys ! n"
  by (simp add: nth_append)

lemma drop_append_shift: "drop (length xs + n) (xs @ ys) = drop n ys"
  by simp

lemma list_all_update: "list_all P xs \<Longrightarrow> P x \<Longrightarrow> list_all P (xs[i := x])"
  by (auto simp: list_all_iff dest: set_update_subset_insert [THEN subsetD])

lemma list_all_nth: "list_all P xs \<Longrightarrow> i < length xs \<Longrightarrow> P (xs ! i)"
  by (simp add: list_all_length)

lemma fold_inv:
  assumes "P s" "\<And>x s. x \<in> set xs \<Longrightarrow> P s \<Longrightarrow> P (f x s)"
  shows "P (fold f xs s)"
  using assms by (induction xs arbitrary: s) auto

end
