(* ===== verification/Coap_Config.thy ===== *)
theory Coap_Config
  imports Coap_Prelude
begin

text \<open>
  \<^verbatim>\<open>PulseCoAPConfig.h\<close>: the compile-time knobs, as a record that every sized operation takes,
  with the default values of the header. The application overrides them with
  \<^verbatim>\<open>#define\<close>, so the properties hold for every admissible record. The compile-time switch
  \<^verbatim>\<open>PULSECOAP_ENABLE_BLOCKWISE\<close> is a field too: a model definition branches on it where the
  source has \<^verbatim>\<open>#if\<close>. The role switches only remove one of the two classes; the model has
  both.
\<close>

record config =
  max_msg_size :: nat
  max_options :: nat
  max_token_len :: nat
  max_transactions :: nat
  ack_timeout_ms :: u32
  ack_random_num :: u32
  ack_random_den :: u32
  max_retransmit :: nat
  max_resources :: nat
  max_observers :: nat
  max_uri_path_len :: nat
  max_deferred :: nat
  max_link_format_len :: nat
  enable_blockwise :: bool
  block_szx :: u8
  max_block1_sessions :: nat
  block1_max_body :: nat
  block2_max_body :: nat
  max_path_params :: nat
  max_path_param_len :: nat
  max_discovers :: nat
  discover_timeout_ms :: u32

definition default_config :: config where
  "default_config = \<lparr>
     max_msg_size = 256, max_options = 16, max_token_len = 8, max_transactions = 4,
     ack_timeout_ms = 2000, ack_random_num = 3, ack_random_den = 2, max_retransmit = 4,
     max_resources = 8, max_observers = 8, max_uri_path_len = 64, max_deferred = 2,
     max_link_format_len = 256, enable_blockwise = False, block_szx = 4,
     max_block1_sessions = 2, block1_max_body = 1024, block2_max_body = 1024,
     max_path_params = 4, max_path_param_len = 16, max_discovers = 2,
     discover_timeout_ms = 5000\<rparr>"

text \<open>
  What the code needs of the knobs: the counters over tables are \<^verbatim>\<open>uint8_t\<close>, a defer handle is
  a \<^verbatim>\<open>uint8_t\<close> with 255 reserved, a message can hold a header with a full token and the options
  the server adds itself, the backoff
  arithmetic stays inside 32 bits, a block exponent is 0 to 6.
\<close>

definition valid_config :: "config \<Rightarrow> bool" where
  "valid_config cfg \<longleftrightarrow>
     12 \<le> max_msg_size cfg \<and> max_msg_size cfg < 2 ^ 16 \<and>
     4 \<le> max_options cfg \<and> max_options cfg \<le> 255 \<and> max_token_len cfg = 8 \<and>
     max_transactions cfg \<le> 255 \<and> max_observers cfg \<le> 255 \<and> max_resources cfg \<le> 255 \<and>
     max_deferred cfg < 255 \<and> max_block1_sessions cfg \<le> 255 \<and>
     0 < ack_random_den cfg \<and> max_retransmit cfg \<le> 255 \<and>
     2 \<le> max_uri_path_len cfg \<and> 0 < max_link_format_len cfg \<and>
     0 < max_path_param_len cfg \<and> max_path_params cfg \<le> 255 \<and>
     block_szx cfg \<le> 6 \<and> block1_max_body cfg < 2 ^ 32 \<and> block2_max_body cfg < 2 ^ 32"

lemma default_config_valid: "valid_config default_config"
  by (simp add: valid_config_def default_config_def)

lemmas default_config_simps = default_config_def

end
