(* ===== verification/Coap_Types.thy ===== *)
theory Coap_Types
  imports Coap_Prelude
begin

text \<open>
  \<^verbatim>\<open>PulseCoAPTypes.h\<close>: message types, codes, option numbers and content formats.
  \<^verbatim>\<open>Code\<close>, \<^verbatim>\<open>OptionNumber\<close> and \<^verbatim>\<open>ContentFormat\<close> are enums with a fixed underlying type that the
  code fills from the wire by \<^verbatim>\<open>static_cast\<close>, so every value of that width occurs: they are
  words with named constants. A message type is two bits on the wire, and all four values
  are named: it is a datatype.
\<close>

definition kVersion :: u8 where
  "kVersion = 1"

datatype message_type = Confirmable | NonConfirmable | Acknowledgement | Reset

fun message_type_bits :: "message_type \<Rightarrow> u8" where
  "message_type_bits Confirmable = 0"
| "message_type_bits NonConfirmable = 1"
| "message_type_bits Acknowledgement = 2"
| "message_type_bits Reset = 3"

definition message_type_of :: "u8 \<Rightarrow> message_type" where
  "message_type_of b =
     (if b = 0 then Confirmable else if b = 1 then NonConfirmable
      else if b = 2 then Acknowledgement else Reset)"

lemma message_type_of_bits [simp]: "message_type_of (message_type_bits t) = t"
  by (cases t) (simp_all add: message_type_of_def)

instantiation message_type :: enum
begin

definition enum_message_type :: "message_type list" where
  "enum_message_type = [Confirmable, NonConfirmable, Acknowledgement, Reset]"

definition enum_all_message_type :: "(message_type \<Rightarrow> bool) \<Rightarrow> bool" where
  "enum_all_message_type P \<longleftrightarrow> P Confirmable \<and> P NonConfirmable \<and> P Acknowledgement \<and> P Reset"

definition enum_ex_message_type :: "(message_type \<Rightarrow> bool) \<Rightarrow> bool" where
  "enum_ex_message_type P \<longleftrightarrow> P Confirmable \<or> P NonConfirmable \<or> P Acknowledgement \<or> P Reset"

instance
proof
  show "(UNIV :: message_type set) = set enum_class.enum"
    by (auto simp: enum_message_type_def intro: message_type.exhaust)
next
  show "distinct (enum_class.enum :: message_type list)"
    by (simp add: enum_message_type_def)
next
  fix P :: "message_type \<Rightarrow> bool"
  show "enum_class.enum_all P \<longleftrightarrow> Ball UNIV P"
    by (auto simp: enum_all_message_type_def) (metis message_type.exhaust)
next
  fix P :: "message_type \<Rightarrow> bool"
  show "enum_class.enum_ex P \<longleftrightarrow> Bex UNIV P"
    by (auto simp: enum_ex_message_type_def) (metis message_type.exhaust)
qed

end

section \<open>Codes\<close>

definition makeCode :: "u8 \<Rightarrow> u8 \<Rightarrow> u8" where
  "makeCode cls detail = push_bit 5 (cls AND 0x07) OR (detail AND 0x1F)"

definition codeClass :: "u8 \<Rightarrow> u8" where
  "codeClass code = drop_bit 5 code"

definition codeDetail :: "u8 \<Rightarrow> u8" where
  "codeDetail code = code AND 0x1F"

definition Code_Empty :: u8 where "Code_Empty = makeCode 0 0"
definition Code_Get :: u8 where "Code_Get = makeCode 0 1"
definition Code_Post :: u8 where "Code_Post = makeCode 0 2"
definition Code_Put :: u8 where "Code_Put = makeCode 0 3"
definition Code_Delete :: u8 where "Code_Delete = makeCode 0 4"
definition Code_Changed :: u8 where "Code_Changed = makeCode 2 4"
definition Code_Content :: u8 where "Code_Content = makeCode 2 5"
definition Code_Continue :: u8 where "Code_Continue = makeCode 2 31"
definition Code_BadRequest :: u8 where "Code_BadRequest = makeCode 4 0"
definition Code_BadOption :: u8 where "Code_BadOption = makeCode 4 2"
definition Code_NotFound :: u8 where "Code_NotFound = makeCode 4 4"
definition Code_MethodNotAllowed :: u8 where "Code_MethodNotAllowed = makeCode 4 5"
definition Code_RequestEntityIncomplete :: u8 where "Code_RequestEntityIncomplete = makeCode 4 8"
definition Code_RequestEntityTooLarge :: u8 where "Code_RequestEntityTooLarge = makeCode 4 13"
definition Code_NotImplemented :: u8 where "Code_NotImplemented = makeCode 5 1"
definition Code_ServiceUnavailable :: u8 where "Code_ServiceUnavailable = makeCode 5 3"

lemmas code_defs =
  Code_Empty_def Code_Get_def Code_Post_def Code_Put_def Code_Delete_def Code_Changed_def
  Code_Content_def Code_Continue_def Code_BadRequest_def Code_BadOption_def Code_NotFound_def
  Code_MethodNotAllowed_def Code_RequestEntityIncomplete_def Code_RequestEntityTooLarge_def
  Code_NotImplemented_def Code_ServiceUnavailable_def makeCode_def

text \<open>The codes that only applications name.\<close>

definition Code_Fetch :: u8 where "Code_Fetch = makeCode 0 5"
definition Code_Patch :: u8 where "Code_Patch = makeCode 0 6"
definition Code_IPatch :: u8 where "Code_IPatch = makeCode 0 7"
definition Code_Created :: u8 where "Code_Created = makeCode 2 1"
definition Code_Deleted :: u8 where "Code_Deleted = makeCode 2 2"
definition Code_Valid :: u8 where "Code_Valid = makeCode 2 3"
definition Code_Unauthorized :: u8 where "Code_Unauthorized = makeCode 4 1"
definition Code_Forbidden :: u8 where "Code_Forbidden = makeCode 4 3"
definition Code_NotAcceptable :: u8 where "Code_NotAcceptable = makeCode 4 6"
definition Code_PreconditionFailed :: u8 where "Code_PreconditionFailed = makeCode 4 12"
definition Code_UnsupportedContentFormat :: u8 where "Code_UnsupportedContentFormat = makeCode 4 15"
definition Code_InternalServerError :: u8 where "Code_InternalServerError = makeCode 5 0"
definition Code_BadGateway :: u8 where "Code_BadGateway = makeCode 5 2"
definition Code_GatewayTimeout :: u8 where "Code_GatewayTimeout = makeCode 5 4"
definition Code_ProxyingNotSupported :: u8 where "Code_ProxyingNotSupported = makeCode 5 5"

definition isMethodCode :: "u8 \<Rightarrow> bool" where
  "isMethodCode code \<longleftrightarrow> codeClass code = 0 \<and> code \<noteq> 0"

lemma codeClass_makeCode: "codeClass (makeCode cls detail) = cls AND 7"
proof (rule bit_word_eqI)
  fix n assume "n < LENGTH(8)"
  then have "n < 8" by simp
  from below_8 [OF this] show "bit (codeClass (makeCode cls detail)) n \<longleftrightarrow> bit (cls AND 7) n"
    by (elim insertE emptyE) (simp_all add: codeClass_def makeCode_def bit_simps bit_numeral_rec)
qed

lemma codeDetail_makeCode: "codeDetail (makeCode cls detail) = detail AND 0x1F"
proof (rule bit_word_eqI)
  fix n assume "n < LENGTH(8)"
  then have "n < 8" by simp
  from below_8 [OF this] show "bit (codeDetail (makeCode cls detail)) n \<longleftrightarrow> bit (detail AND 0x1F) n"
    by (elim insertE emptyE) (simp_all add: codeDetail_def makeCode_def bit_simps bit_numeral_rec)
qed

lemma isMethodCode_iff: "isMethodCode c \<longleftrightarrow> 0 < c \<and> c < 32"
proof -
  have "codeClass c = 0 \<longleftrightarrow> c < 32"
    by (simp add: codeClass_def drop_bit_eq_div word_less_nat_alt unat_eq_zero [symmetric]
        unat_div div_eq_0_iff del: unat_eq_zero)
  then show ?thesis by (auto simp: isMethodCode_def word_neq_0_conv)
qed

text \<open>The enumerators of a method are the method codes; every response code has class 2, 4 or 5.\<close>

lemma method_codes:
  "list_all isMethodCode [Code_Get, Code_Post, Code_Put, Code_Delete, Code_Fetch, Code_Patch, Code_IPatch]"
  by code_simp

lemma response_codes:
  "list_all (\<lambda>c. codeClass c \<in> {2, 4, 5} \<and> \<not> isMethodCode c)
     [Code_Created, Code_Deleted, Code_Valid, Code_Changed, Code_Content, Code_Continue,
      Code_BadRequest, Code_Unauthorized, Code_BadOption, Code_Forbidden, Code_NotFound,
      Code_MethodNotAllowed, Code_NotAcceptable, Code_RequestEntityIncomplete,
      Code_PreconditionFailed, Code_RequestEntityTooLarge, Code_UnsupportedContentFormat,
      Code_InternalServerError, Code_NotImplemented, Code_BadGateway, Code_ServiceUnavailable,
      Code_GatewayTimeout, Code_ProxyingNotSupported]"
  by code_simp

section \<open>Option numbers, content formats, Observe values\<close>

definition Opt_Observe :: u16 where "Opt_Observe = 6"
definition Opt_UriPath :: u16 where "Opt_UriPath = 11"
definition Opt_ContentFormat :: u16 where "Opt_ContentFormat = 12"
definition Opt_Block2 :: u16 where "Opt_Block2 = 23"
definition Opt_Block1 :: u16 where "Opt_Block1 = 27"

text \<open>The options that only applications name.\<close>

definition Opt_IfMatch :: u16 where "Opt_IfMatch = 1"
definition Opt_UriHost :: u16 where "Opt_UriHost = 3"
definition Opt_ETag :: u16 where "Opt_ETag = 4"
definition Opt_IfNoneMatch :: u16 where "Opt_IfNoneMatch = 5"
definition Opt_UriPort :: u16 where "Opt_UriPort = 7"
definition Opt_LocationPath :: u16 where "Opt_LocationPath = 8"
definition Opt_MaxAge :: u16 where "Opt_MaxAge = 14"
definition Opt_UriQuery :: u16 where "Opt_UriQuery = 15"
definition Opt_Accept :: u16 where "Opt_Accept = 17"
definition Opt_LocationQuery :: u16 where "Opt_LocationQuery = 20"
definition Opt_Size2 :: u16 where "Opt_Size2 = 28"
definition Opt_ProxyUri :: u16 where "Opt_ProxyUri = 35"
definition Opt_ProxyScheme :: u16 where "Opt_ProxyScheme = 39"
definition Opt_Size1 :: u16 where "Opt_Size1 = 60"

lemmas opt_defs =
  Opt_Observe_def Opt_UriPath_def Opt_ContentFormat_def Opt_Block2_def Opt_Block1_def

definition CF_TextPlain :: u16 where "CF_TextPlain = 0"
definition CF_LinkFormat :: u16 where "CF_LinkFormat = 40"

definition CF_Xml :: u16 where "CF_Xml = 41"
definition CF_OctetStream :: u16 where "CF_OctetStream = 42"
definition CF_Exi :: u16 where "CF_Exi = 47"
definition CF_Json :: u16 where "CF_Json = 50"
definition CF_Cbor :: u16 where "CF_Cbor = 60"

definition kObserveRegister :: u32 where "kObserveRegister = 0"
definition kObserveDeregister :: u32 where "kObserveDeregister = 1"

end
