(* ===== verification/Coap_Transport.thy ===== *)
theory Coap_Transport
  imports Coap_Types
begin

text \<open>
  \<^verbatim>\<open>PulseCoAPTransport.h\<close>: endpoints and the transport seam. The concrete \<^verbatim>\<open>Transport\<close> is a
  virtual interface: here it is the record of what the protocol code can observe of one
  (the datagrams waiting, the results its calls will return) and of what it is handed (the
  datagrams sent, in order). The network is free to choose every inbox and every result, so
  a property that holds for all such records holds for every adapter.
\<close>

section \<open>Endpoints\<close>

record endpoint =
  ep_ip :: bytes
  ep_v6 :: bytes
  ep_isV6 :: bool
  ep_port :: u16

definition empty_endpoint :: endpoint where
  "empty_endpoint = \<lparr>ep_ip = [0, 0, 0, 0], ep_v6 = replicate 16 0, ep_isV6 = False, ep_port = 0\<rparr>"

definition wf_endpoint :: "endpoint \<Rightarrow> bool" where
  "wf_endpoint e \<longleftrightarrow> length (ep_ip e) = 4 \<and> length (ep_v6 e) = 16"

text \<open>\<^verbatim>\<open>operator==\<close>: ports and families agree, and the address of that family agrees.\<close>

definition ep_eq :: "endpoint \<Rightarrow> endpoint \<Rightarrow> bool" where
  "ep_eq a b \<longleftrightarrow>
     (if ep_port a \<noteq> ep_port b \<or> ep_isV6 a \<noteq> ep_isV6 b then False
      else if ep_isV6 a then list_all (\<lambda>i. ep_v6 a ! i = ep_v6 b ! i) [0..<16]
      else ep_ip a ! 0 = ep_ip b ! 0 \<and> ep_ip a ! 1 = ep_ip b ! 1 \<and>
           ep_ip a ! 2 = ep_ip b ! 2 \<and> ep_ip a ! 3 = ep_ip b ! 3)"

text \<open>The part of an endpoint that the comparison reads.\<close>

definition ep_key :: "endpoint \<Rightarrow> bool \<times> bytes \<times> u16" where
  "ep_key e = (ep_isV6 e, map (\<lambda>i. (if ep_isV6 e then ep_v6 e else ep_ip e) ! i)
                              [0..<(if ep_isV6 e then 16 else 4)], ep_port e)"

lemma ep_eq_key: "ep_eq a b \<longleftrightarrow> ep_key a = ep_key b"
proof -
  have upt4: "[0..<4] = [0, 1, 2, 3 :: nat]" by (simp add: upt_rec)
  show ?thesis
    by (cases "ep_isV6 a"; cases "ep_isV6 b")
      (auto simp: ep_eq_def ep_key_def list_all_iff upt4 map_eq_conv simp del: upt_eq_Cons_conv)
qed

lemma ep_eq_refl [simp]: "ep_eq a a"
  by (simp add: ep_eq_key)

lemma ep_eq_sym: "ep_eq a b \<Longrightarrow> ep_eq b a"
  by (simp add: ep_eq_key)

lemma ep_eq_trans: "ep_eq a b \<Longrightarrow> ep_eq b c \<Longrightarrow> ep_eq a c"
  by (simp add: ep_eq_key)

lemma ep_eq_v4_v6: "ep_isV6 a \<noteq> ep_isV6 b \<Longrightarrow> \<not> ep_eq a b"
  by (simp add: ep_eq_def)

section \<open>The transport as the protocol code sees it\<close>

record transport =
  tp_begin_ok :: bool
  tp_send_results :: "bool list"
  tp_sent :: "(endpoint \<times> bytes) list"
  tp_inbox :: "(endpoint \<times> bytes) list"

text \<open>
  \<^verbatim>\<open>send\<close> hands one datagram over; its result is the next one the network has chosen, true
  when it has chosen no more. \<^verbatim>\<open>receive\<close> takes the waiting datagram, cut to the capacity of
  the buffer; a result of length 0 means that nothing is waiting.
\<close>

definition transport_begin :: "u16 \<Rightarrow> transport \<Rightarrow> bool" where
  "transport_begin localPort t = tp_begin_ok t"

definition transport_send :: "endpoint \<Rightarrow> bytes \<Rightarrow> transport \<Rightarrow> bool \<times> transport" where
  "transport_send to data t =
     (let t' = t\<lparr>tp_sent := tp_sent t @ [(to, data)]\<rparr>
      in case tp_send_results t of
           [] \<Rightarrow> (True, t')
         | r # rs \<Rightarrow> (r, t'\<lparr>tp_send_results := rs\<rparr>))"

definition transport_receive :: "nat \<Rightarrow> transport \<Rightarrow> (endpoint \<times> bytes) \<times> transport" where
  "transport_receive capacity t =
     (case tp_inbox t of
        [] \<Rightarrow> ((empty_endpoint, []), t)
      | (from, data) # rest \<Rightarrow> ((from, take capacity data), t\<lparr>tp_inbox := rest\<rparr>))"

lemma transport_send_sent [simp]:
  "tp_sent (snd (transport_send to data t)) = tp_sent t @ [(to, data)]"
  by (simp add: transport_send_def Let_def split: list.split)

lemma transport_send_inbox [simp]:
  "tp_inbox (snd (transport_send to data t)) = tp_inbox t"
  by (simp add: transport_send_def Let_def split: list.split)

lemma transport_receive_sent [simp]:
  "tp_sent (snd (transport_receive n t)) = tp_sent t"
  by (simp add: transport_receive_def split: list.split prod.split)

lemma transport_receive_capacity:
  "transport_receive n t = ((from, data), t') \<Longrightarrow> length data \<le> n"
  by (auto simp: transport_receive_def split: list.splits prod.splits)

end
