(* ===== verification/Coap_Message.thy ===== *)
theory Coap_Message
  imports Coap_Config Coap_Transport
begin

text \<open>
  \<^verbatim>\<open>PulseCoAPMessage.h\<close> and \<^verbatim>\<open>PulseCoAPMessage.cpp\<close>: the message object and the RFC 7252
  codec.

  A pointer into a caller's buffer is \<open>None\<close> when null, and otherwise the bytes it denotes:
  for an option value the \<open>length\<close> bytes from the pointer on, for a payload its
  \<open>payloadLength()\<close> bytes. The arrays \<open>token_\<close> and \<open>options_\<close> are the lists of
  their first \<open>tokenLen_\<close> and \<open>optionCount_\<close> elements, which are the only ones the code
  reads. Sizes (\<^verbatim>\<open>size_t\<close>) are natural numbers: every sum the code forms is bounded by a
  buffer size plus 65535.
\<close>

section \<open>The message object\<close>

record coap_option =
  opt_number :: u16
  opt_length :: u16
  opt_value :: "bytes option"

datatype decode_error =
  TooShort | BadVersion | BadTokenLength | BadOption | TooManyOptions | EmptyPayloadMarker

record message =
  msg_type :: message_type
  msg_code :: u8
  msg_messageId :: u16
  msg_token :: bytes
  msg_options :: "coap_option list"
  msg_lastOptionNumber :: u16
  msg_payload :: "bytes option"

definition msg_tokenLength :: "message \<Rightarrow> u8" where
  "msg_tokenLength m = of_nat (length (msg_token m))"

definition msg_payloadLength :: "message \<Rightarrow> nat" where
  "msg_payloadLength m = (case msg_payload m of None \<Rightarrow> 0 | Some p \<Rightarrow> length p)"

text \<open>The constructor runs \<^verbatim>\<open>reset()\<close>.\<close>

definition reset_message :: message where
  "reset_message = \<lparr>msg_type = Confirmable, msg_code = Code_Empty, msg_messageId = 0,
     msg_token = [], msg_options = [], msg_lastOptionNumber = 0, msg_payload = None\<rparr>"

definition setToken :: "config \<Rightarrow> bytes \<Rightarrow> message \<Rightarrow> bool \<times> message" where
  "setToken cfg token m =
     (if max_token_len cfg < length token then (False, m)
      else (True, m\<lparr>msg_token := token\<rparr>))"

text \<open>The bytes an option denotes; a null pointer denotes none.\<close>

definition opt_bytes :: "coap_option \<Rightarrow> bytes" where
  "opt_bytes opt = (case opt_value opt of None \<Rightarrow> [] | Some v \<Rightarrow> take (unat (opt_length opt)) v)"

definition addOption ::
    "config \<Rightarrow> u16 \<Rightarrow> bytes option \<Rightarrow> u16 \<Rightarrow> message \<Rightarrow> bool \<times> message" where
  "addOption cfg number val len m =
     (if max_options cfg \<le> length (msg_options m) then (False, m)
      else if 0 < length (msg_options m) \<and> number < msg_lastOptionNumber m then (False, m)
      else (True, m\<lparr>msg_options := msg_options m @
               [\<lparr>opt_number = number, opt_length = len,
                 opt_value = (if 0 < len then map_option (take (unat len)) val else None)\<rparr>],
             msg_lastOptionNumber := number\<rparr>))"

definition addOptionString ::
    "config \<Rightarrow> u16 \<Rightarrow> bytes option \<Rightarrow> message \<Rightarrow> bool \<times> message" where
  "addOptionString cfg number val m =
     (let len = (case val of None \<Rightarrow> 0 | Some s \<Rightarrow> length s)
      in addOption cfg number val (of_nat len) m)"

text \<open>
  \<open>uint_little v n\<close> is what the loop of \<^verbatim>\<open>addOptionUint\<close> still writes to \<open>little\<close> when it has
  written \<open>n\<close> bytes.
\<close>

function uint_little :: "u32 \<Rightarrow> nat \<Rightarrow> bytes" where
  "uint_little v n =
     (if v > 0 \<and> n < 4 then ucast (v AND 0xFF) # uint_little (drop_bit 8 v) (Suc n) else [])"
  by pat_completeness auto
termination
  by (relation "measure (\<lambda>(v, n). 4 - n)") auto

declare uint_little.simps [simp del]

definition uint_scratch :: "u32 \<Rightarrow> bytes" where
  "uint_scratch v = rev (uint_little v 0)"

definition addOptionUint :: "config \<Rightarrow> u16 \<Rightarrow> u32 \<Rightarrow> message \<Rightarrow> bool \<times> message" where
  "addOptionUint cfg number v m =
     (if max_options cfg \<le> length (msg_options m) then (False, m)
      else let scratch = uint_scratch v; n = length scratch
           in addOption cfg number (if 0 < n then Some scratch else None) (of_nat n) m)"

definition optionAt :: "nat \<Rightarrow> message \<Rightarrow> coap_option option" where
  "optionAt index m =
     (if length (msg_options m) \<le> index then None else Some (msg_options m ! index))"

definition findOption :: "u16 \<Rightarrow> message \<Rightarrow> coap_option option" where
  "findOption number m =
     (case first_slot (\<lambda>opt. opt_number opt = number) (msg_options m) of
        None \<Rightarrow> None
      | Some i \<Rightarrow> Some (msg_options m ! i))"

definition optionAsUint :: "coap_option \<Rightarrow> u32" where
  "optionAsUint opt =
     (let len = (if 4 < opt_length opt then 4 else opt_length opt)
      in foldl (\<lambda>v b. push_bit 8 v OR ucast b) 0 (take (unat len) (opt_bytes opt)))"

definition setPayload :: "bytes option \<Rightarrow> message \<Rightarrow> message" where
  "setPayload data m = m\<lparr>msg_payload := data\<rparr>"

section \<open>Encoding\<close>

definition encodeOptionField :: "u16 \<Rightarrow> u8 \<times> bytes" where
  "encodeOptionField v =
     (if v < 13 then (ucast v, [])
      else if v < 269 then (13, [ucast (v - 13)])
      else let w = v - 269 in (14, [hi_byte w, lo_byte w]))"

text \<open>The two lambdas of \<^verbatim>\<open>encode\<close>; the state is \<open>out[0..pos)\<close>.\<close>

definition put :: "nat \<Rightarrow> u8 \<Rightarrow> bytes \<Rightarrow> bytes option" where
  "put cap b out = (if cap \<le> length out then None else Some (out @ [b]))"

definition putBytes :: "nat \<Rightarrow> bytes \<Rightarrow> bytes \<Rightarrow> bytes option" where
  "putBytes cap data out =
     (if data = [] then Some out
      else if cap < length out + length data then None
      else Some (out @ data))"

definition encode_option :: "nat \<Rightarrow> u16 \<Rightarrow> coap_option \<Rightarrow> bytes \<Rightarrow> bytes option" where
  "encode_option cap lastNumber opt out =
     (let delta = opt_number opt - lastNumber;
          (deltaNibble, deltaExtra) = encodeOptionField delta;
          (lengthNibble, lengthExtra) = encodeOptionField (opt_length opt)
      in do {
           out1 \<leftarrow> put cap (push_bit 4 deltaNibble OR lengthNibble) out;
           out2 \<leftarrow> putBytes cap deltaExtra out1;
           out3 \<leftarrow> putBytes cap lengthExtra out2;
           if 0 < opt_length opt
           then (if opt_value opt = None then None
                 else putBytes cap (opt_bytes opt) out3)
           else Some out3
         })"

fun encode_options :: "nat \<Rightarrow> u16 \<Rightarrow> coap_option list \<Rightarrow> bytes \<Rightarrow> bytes option" where
  "encode_options cap lastNumber [] out = Some out"
| "encode_options cap lastNumber (opt # opts) out =
     (case encode_option cap lastNumber opt out of
        None \<Rightarrow> None
      | Some out' \<Rightarrow> encode_options cap (opt_number opt) opts out')"

definition header_byte :: "message \<Rightarrow> u8" where
  "header_byte m = push_bit 6 kVersion
     OR push_bit 4 (message_type_bits (msg_type m) AND 0x03) OR (msg_tokenLength m AND 0x0F)"

text \<open>
  \<^verbatim>\<open>encode\<close> returns the number of bytes written, 0 when the message does not fit: here the
  bytes themselves, the empty list when it does not fit.
\<close>

definition encode :: "message \<Rightarrow> nat \<Rightarrow> bytes" where
  "encode m cap =
     (if cap < 4 then []
      else case do {
             o1 \<leftarrow> put cap (header_byte m) [];
             o2 \<leftarrow> put cap (msg_code m) o1;
             o3 \<leftarrow> put cap (hi_byte (msg_messageId m)) o2;
             o4 \<leftarrow> put cap (lo_byte (msg_messageId m)) o3;
             o5 \<leftarrow> putBytes cap (msg_token m) o4;
             o6 \<leftarrow> encode_options cap 0 (msg_options m) o5;
             case msg_payload m of
               None \<Rightarrow> Some o6
             | Some p \<Rightarrow> if p = [] then Some o6
                         else do { o7 \<leftarrow> put cap 0xFF o6; putBytes cap p o7 }
           } of None \<Rightarrow> [] | Some out \<Rightarrow> out)"

section \<open>Decoding\<close>

text \<open>
  \<^verbatim>\<open>decode\<close> reads a datagram by index. A read outside the datagram is the explicit result
  \<open>ReadFault\<close>, so that memory safety is a property of the model and not of the notation.
\<close>

datatype 'a read_result = ReadOk 'a | ReadError decode_error | ReadFault

datatype decode_result = Decoded message | DecodeFailed decode_error message | OutOfBounds

definition rd :: "bytes \<Rightarrow> nat \<Rightarrow> u8 read_result" where
  "rd inp i = (if i < length inp then ReadOk (inp ! i) else ReadFault)"

definition rd_bytes :: "bytes \<Rightarrow> nat \<Rightarrow> nat \<Rightarrow> bytes read_result" where
  "rd_bytes inp i n = (if i + n \<le> length inp then ReadOk (take n (drop i inp)) else ReadFault)"

definition read_bind :: "'a read_result \<Rightarrow> ('a \<Rightarrow> 'b read_result) \<Rightarrow> 'b read_result" where
  "read_bind r f = (case r of ReadOk x \<Rightarrow> f x | ReadError e \<Rightarrow> ReadError e | ReadFault \<Rightarrow> ReadFault)"

text \<open>
  The extended value of a delta or length nibble at position \<open>pos\<close>: the value, as the
  16-bit variable of the code holds it, and the position after it.
\<close>

definition decode_field :: "bytes \<Rightarrow> u8 \<Rightarrow> nat \<Rightarrow> (u16 \<times> nat) read_result" where
  "decode_field inp nibble pos =
     (if nibble < 13 then ReadOk (ucast nibble, pos)
      else if nibble = 13 then
        (if length inp \<le> pos then ReadError TooShort
         else read_bind (rd inp pos) (\<lambda>b. ReadOk (13 + ucast b, pos + 1)))
      else
        (if length inp \<le> pos + 1 then ReadError TooShort
         else read_bind (rd inp pos) (\<lambda>a.
              read_bind (rd inp (pos + 1)) (\<lambda>b. ReadOk (269 + be16 a b, pos + 2)))))"

text \<open>One option at position \<open>pos\<close>, whose first byte is not the payload marker.\<close>

definition decode_option :: "bytes \<Rightarrow> u16 \<Rightarrow> nat \<Rightarrow> (coap_option \<times> nat) read_result" where
  "decode_option inp lastNumber pos =
     read_bind (rd inp pos) (\<lambda>byte.
       let deltaNibble = drop_bit 4 byte; lengthNibble = byte AND 0x0F
       in if deltaNibble = 15 \<or> lengthNibble = 15 then ReadError BadOption
          else read_bind (decode_field inp deltaNibble (pos + 1)) (\<lambda>(delta, pos1).
               read_bind (decode_field inp lengthNibble pos1) (\<lambda>(len, pos2).
                 if length inp < pos2 + unat len then ReadError TooShort
                 else read_bind (rd_bytes inp pos2 (unat len)) (\<lambda>v.
                   ReadOk (\<lparr>opt_number = lastNumber + delta, opt_length = len,
                            opt_value = (if 0 < len then Some v else None)\<rparr>,
                           pos2 + unat len)))))"

lemma decode_field_pos: "decode_field inp nib pos = ReadOk (v, pos') \<Longrightarrow> pos \<le> pos'"
  by (auto simp: decode_field_def read_bind_def rd_def split: if_splits)

lemma decode_option_pos:
  assumes "decode_option inp lastNumber pos = ReadOk (opt, pos')"
  shows "pos < pos' \<and> pos' \<le> length inp"
  using assms
  by (auto simp: decode_option_def read_bind_def rd_def rd_bytes_def Let_def
           split: if_splits read_result.splits dest!: decode_field_pos)

function decode_loop :: "config \<Rightarrow> bytes \<Rightarrow> u16 \<Rightarrow> nat \<Rightarrow> message \<Rightarrow> decode_result" where
  "decode_loop cfg inp lastNumber pos m =
     (if pos < length inp then
        (case rd inp pos of
           ReadOk byte \<Rightarrow>
             if byte = 0xFF then
               (if length inp \<le> pos + 1 then DecodeFailed EmptyPayloadMarker reset_message
                else Decoded (m\<lparr>msg_payload := Some (drop (pos + 1) inp)\<rparr>))
             else
               (case decode_option inp lastNumber pos of
                  ReadOk (opt, pos') \<Rightarrow>
                    if max_options cfg \<le> length (msg_options m) then DecodeFailed TooManyOptions reset_message
                    else decode_loop cfg inp (opt_number opt) pos'
                           (m\<lparr>msg_options := msg_options m @ [opt]\<rparr>)
                | ReadError e \<Rightarrow> DecodeFailed e reset_message
                | ReadFault \<Rightarrow> OutOfBounds)
         | ReadError e \<Rightarrow> DecodeFailed e reset_message
         | ReadFault \<Rightarrow> OutOfBounds)
      else Decoded m)"
  by pat_completeness auto
termination
  by (relation "measure (\<lambda>(cfg, inp, lastNumber, pos, m). length inp - pos)")
    (auto dest!: decode_option_pos)

declare decode_loop.simps [simp del]

text \<open>
  The second component of a failure is what the message object holds afterwards. The token
  length check is the one that returns without a \<^verbatim>\<open>reset()\<close> although the type is already set.
\<close>

definition decode :: "config \<Rightarrow> bytes \<Rightarrow> decode_result" where
  "decode cfg inp =
     (if length inp < 4 then DecodeFailed TooShort reset_message
      else
        let byte0 = inp ! 0; version = drop_bit 6 byte0; tkl = byte0 AND 0x0F
        in if version \<noteq> kVersion then DecodeFailed BadVersion reset_message
           else if max_token_len cfg < unat tkl then
             DecodeFailed BadTokenLength
               (reset_message\<lparr>msg_type := message_type_of (drop_bit 4 byte0 AND 0x03)\<rparr>)
           else if length inp < 4 + unat tkl then DecodeFailed TooShort reset_message
           else case rd_bytes inp 4 (unat tkl) of
                  ReadOk tok \<Rightarrow>
                    decode_loop cfg inp 0 (4 + unat tkl)
                      (reset_message\<lparr>msg_type := message_type_of (drop_bit 4 byte0 AND 0x03),
                         msg_code := inp ! 1, msg_messageId := be16 (inp ! 2) (inp ! 3),
                         msg_token := tok\<rparr>)
                | ReadError e \<Rightarrow> DecodeFailed e reset_message
                | ReadFault \<Rightarrow> OutOfBounds)"

end
