(* ===== verification/Coap_Codec.thy ===== *)
theory Coap_Codec
  imports Coap_Message
begin

text \<open>
  Correctness of the codec: the abstract wire format, the encoder as an implementation of
  it that never overruns its buffer, memory safety of the decoder on every datagram, the
  well-formedness of what it returns, and the round trip.
\<close>

section \<open>The wire format\<close>

definition wire_option :: "u16 \<Rightarrow> coap_option \<Rightarrow> bytes" where
  "wire_option lastNumber opt =
     (let (dn, dx) = encodeOptionField (opt_number opt - lastNumber);
          (ln, lx) = encodeOptionField (opt_length opt)
      in (push_bit 4 dn OR ln) # dx @ lx @ (if 0 < opt_length opt then opt_bytes opt else []))"

fun wire_options :: "u16 \<Rightarrow> coap_option list \<Rightarrow> bytes" where
  "wire_options lastNumber [] = []"
| "wire_options lastNumber (opt # opts) =
     wire_option lastNumber opt @ wire_options (opt_number opt) opts"

definition wire_payload :: "bytes option \<Rightarrow> bytes" where
  "wire_payload p = (case p of None \<Rightarrow> [] | Some d \<Rightarrow> if d = [] then [] else 0xFF # d)"

definition wire_header :: "message \<Rightarrow> bytes" where
  "wire_header m =
     [header_byte m, msg_code m, hi_byte (msg_messageId m), lo_byte (msg_messageId m)]"

definition wire :: "message \<Rightarrow> bytes" where
  "wire m = wire_header m @ msg_token m @ wire_options 0 (msg_options m) @ wire_payload (msg_payload m)"

definition opt_encodable :: "coap_option \<Rightarrow> bool" where
  "opt_encodable opt \<longleftrightarrow> (0 < opt_length opt \<longrightarrow> opt_value opt \<noteq> None)"

section \<open>The encoder implements the wire format\<close>

lemma put_fits: "put cap b out = (if length (out @ [b]) \<le> cap then Some (out @ [b]) else None)"
  by (auto simp: put_def)

lemma putBytes_fits:
  "length out \<le> cap \<Longrightarrow>
   putBytes cap d out = (if length (out @ d) \<le> cap then Some (out @ d) else None)"
  by (auto simp: putBytes_def)

lemma encode_option_wire:
  assumes "length out \<le> cap"
  shows "encode_option cap lastNumber opt out =
    (if opt_encodable opt \<and> length (out @ wire_option lastNumber opt) \<le> cap
     then Some (out @ wire_option lastNumber opt) else None)"
proof -
  obtain dn dx where d: "encodeOptionField (opt_number opt - lastNumber) = (dn, dx)" by fastforce
  obtain ln lx where l: "encodeOptionField (opt_length opt) = (ln, lx)" by fastforce
  show ?thesis
    using assms
    by (cases "opt_value opt")
      (auto simp: encode_option_def wire_option_def Let_def d l put_fits putBytes_fits
        opt_encodable_def opt_bytes_def word_neq_0_conv)
qed

lemma encode_options_wire:
  assumes "length out \<le> cap"
  shows "encode_options cap lastNumber opts out =
    (if list_all opt_encodable opts \<and> length (out @ wire_options lastNumber opts) \<le> cap
     then Some (out @ wire_options lastNumber opts) else None)"
  using assms
proof (induction opts arbitrary: lastNumber out)
  case Nil
  then show ?case by simp
next
  case (Cons opt opts)
  show ?case
  proof (cases "opt_encodable opt \<and> length (out @ wire_option lastNumber opt) \<le> cap")
    case True
    then have "encode_options cap lastNumber (opt # opts) out =
        encode_options cap (opt_number opt) opts (out @ wire_option lastNumber opt)"
      by (simp add: encode_option_wire [OF Cons.prems])
    then show ?thesis using Cons.IH [of "out @ wire_option lastNumber opt"] True by simp
  next
    case False
    then show ?thesis by (auto simp: encode_option_wire [OF Cons.prems])
  qed
qed

lemma encode_wire_gen:
  "encode m cap =
     (if list_all opt_encodable (msg_options m) \<and> length (wire m) \<le> cap then wire m else [])"
proof (cases "cap < 4")
  case True
  then show ?thesis by (auto simp: encode_def wire_def wire_header_def)
next
  case False
  let ?h = "wire_header m"
  have head: "do {
      o1 \<leftarrow> put cap (header_byte m) [];
      o2 \<leftarrow> put cap (msg_code m) o1;
      o3 \<leftarrow> put cap (hi_byte (msg_messageId m)) o2;
      put cap (lo_byte (msg_messageId m)) o3 } = Some ?h"
    using False by (simp add: put_fits wire_header_def)
  have "length ?h \<le> cap" using False by (simp add: wire_header_def)
  with False head show ?thesis
    by (auto simp: encode_def wire_def wire_payload_def wire_header_def put_fits putBytes_fits
        encode_options_wire split: option.splits)
qed

lemma encode_length: "length (encode m cap) \<le> cap"
  by (simp add: encode_wire_gen)

lemma encode_nonempty_iff:
  "encode m cap \<noteq> [] \<longleftrightarrow> list_all opt_encodable (msg_options m) \<and> length (wire m) \<le> cap"
  by (simp add: encode_wire_gen wire_def wire_header_def)

lemma encode_eq_wire: "encode m cap \<noteq> [] \<Longrightarrow> encode m cap = wire m"
  by (auto simp: encode_wire_gen split: if_splits)

section \<open>Well-formed messages\<close>

text \<open>
  What the setters and the decoder establish: the token and the option table fit their
  arrays, an option value is present exactly when its length is not zero and has that
  length, and a payload that is present is not empty.
\<close>

definition wf_option :: "coap_option \<Rightarrow> bool" where
  "wf_option opt \<longleftrightarrow>
     (case opt_value opt of None \<Rightarrow> opt_length opt = 0
      | Some v \<Rightarrow> 0 < opt_length opt \<and> length v = unat (opt_length opt))"

definition wf_message :: "config \<Rightarrow> message \<Rightarrow> bool" where
  "wf_message cfg m \<longleftrightarrow>
     length (msg_token m) \<le> max_token_len cfg \<and>
     length (msg_options m) \<le> max_options cfg \<and>
     list_all wf_option (msg_options m) \<and>
     msg_payload m \<noteq> Some []"

lemma wf_option_encodable: "wf_option opt \<Longrightarrow> opt_encodable opt"
  by (auto simp: wf_option_def opt_encodable_def split: option.splits)

lemma wf_options_encodable: "list_all wf_option opts \<Longrightarrow> list_all opt_encodable opts"
  by (auto simp: list_all_iff wf_option_encodable)

lemma wf_option_bytes:
  "wf_option opt \<Longrightarrow> opt_value opt = (if 0 < opt_length opt then Some (opt_bytes opt) else None)"
  "wf_option opt \<Longrightarrow> length (opt_bytes opt) = unat (opt_length opt)"
  by (auto simp: wf_option_def opt_bytes_def split: option.splits)

lemma wf_reset [simp]: "wf_message cfg reset_message"
  by (simp add: wf_message_def reset_message_def)

lemma wf_setToken: "wf_message cfg m \<Longrightarrow> wf_message cfg (snd (setToken cfg tok m))"
  by (auto simp: setToken_def wf_message_def)

lemma wf_addOption:
  assumes "wf_message cfg m"
    and "0 < len \<Longrightarrow> \<exists>v. val = Some v \<and> unat len \<le> length v"
  shows "wf_message cfg (snd (addOption cfg number val len m))"
  using assms
  by (auto simp: addOption_def wf_message_def wf_option_def list_all_iff min_def
      word_neq_0_conv not_less)

lemma wf_addOptionString:
  assumes "wf_message cfg m" "\<And>s. val = Some s \<Longrightarrow> length s < 2 ^ 16"
  shows "wf_message cfg (snd (addOptionString cfg number val m))"
  unfolding addOptionString_def Let_def
  by (rule wf_addOption [OF assms(1)])
    (use assms(2) in \<open>cases val; auto simp: unat_of_nat\<close>)

lemma uint_little_length: "n \<le> 4 \<Longrightarrow> length (uint_little v n) \<le> 4 - n"
proof (induction v n rule: uint_little.induct)
  case (1 v n)
  show ?case
  proof (cases "v > 0 \<and> n < 4")
    case True
    with 1 have "length (uint_little (drop_bit 8 v) (Suc n)) \<le> 4 - Suc n" by simp
    with True show ?thesis by (subst uint_little.simps) auto
  next
    case False
    then show ?thesis by (subst uint_little.simps) auto
  qed
qed

lemma uint_scratch_length: "length (uint_scratch v) \<le> 4"
  using uint_little_length [of 0 v] by (simp add: uint_scratch_def)

lemma wf_addOptionUint: "wf_message cfg m \<Longrightarrow> wf_message cfg (snd (addOptionUint cfg number v m))"
  using uint_scratch_length [of v]
  by (auto simp: addOptionUint_def Let_def intro!: wf_addOption)
    (auto simp: unat_of_nat)

lemma wf_setPayload: "wf_message cfg m \<Longrightarrow> p \<noteq> Some [] \<Longrightarrow> wf_message cfg (setPayload p m)"
  by (auto simp: setPayload_def wf_message_def)

section \<open>Unsigned option values\<close>

lemma byte_split: "push_bit 8 (drop_bit 8 v) OR ucast (ucast (v AND 0xFF) :: u8) = (v :: u32)"
proof -
  have "(0xFF :: u32) = mask 8" by (simp add: mask_eq_exp_minus_1)
  then have "v AND 0xFF = take_bit 8 v" by (simp add: take_bit_eq_mask)
  then show ?thesis by (auto intro!: bit_word_eqI simp: bit_simps)
qed

lemma uint_little_fold:
  assumes "n \<le> 4" "unat v < 2 ^ (8 * (4 - n))"
  shows "foldr (\<lambda>b acc. push_bit 8 acc OR ucast b) (uint_little v n) 0 = v"
  using assms
proof (induction v n rule: uint_little.induct)
  case (1 v n)
  show ?case
  proof (cases "v > 0 \<and> n < 4")
    case True
    then have e: "8 * (4 - n) = 8 * (4 - Suc n) + 8" by auto
    have "unat (drop_bit 8 v) = unat v div 2 ^ 8"
      by (simp add: drop_bit_eq_div unat_div)
    also have "\<dots> < 2 ^ (8 * (4 - Suc n))"
      using "1.prems"(2) by (simp only: e power_add) (simp add: div_less_iff_less_mult)
    finally have
      "foldr (\<lambda>b acc. push_bit 8 acc OR ucast b) (uint_little (drop_bit 8 v) (Suc n)) 0 = drop_bit 8 v"
      using 1 True by simp
    with True show ?thesis by (subst uint_little.simps) (simp add: byte_split)
  next
    case False
    with "1.prems" have "v = 0" by (auto simp: word_neq_0_conv [symmetric] unat_eq_zero)
    then show ?thesis by (subst uint_little.simps) simp
  qed
qed

lemma uint_scratch_value: "foldl (\<lambda>v b. push_bit 8 v OR ucast b) 0 (uint_scratch v) = v"
  using uint_little_fold [of 0 v] unsigned_less [of v]
  by (simp add: uint_scratch_def foldl_conv_foldr)

lemma addOptionUint_value:
  assumes "addOptionUint cfg number v m = (True, m')"
  shows "\<exists>opt. msg_options m' = msg_options m @ [opt] \<and> opt_number opt = number \<and>
               optionAsUint opt = v \<and> unat (opt_length opt) \<le> 4"
proof -
  let ?s = "uint_scratch v"
  have l: "length ?s \<le> 4" by (rule uint_scratch_length)
  then have u: "unat (of_nat (length ?s) :: u16) = length ?s" by (simp add: unat_of_nat)
  have le: "\<not> 4 < (of_nat (length ?s) :: u16)" using l by (simp add: word_less_nat_alt u)
  have "(0 :: u16) < of_nat (length ?s) \<longleftrightarrow> 0 < length ?s"
    by (simp add: word_less_nat_alt u)
  then show ?thesis
    using assms uint_scratch_value [of v] l u le
    by (auto simp: addOptionUint_def addOption_def Let_def optionAsUint_def opt_bytes_def
        split: if_splits)
qed

section \<open>The decoder never reads outside the datagram\<close>

lemma read_bind_simps [simp]:
  "read_bind (ReadOk x) f = f x"
  "read_bind (ReadError e) f = ReadError e"
  "read_bind ReadFault f = ReadFault"
  by (simp_all add: read_bind_def)

lemma read_bind_ReadOk: "read_bind r f = ReadOk y \<longleftrightarrow> (\<exists>x. r = ReadOk x \<and> f x = ReadOk y)"
  by (cases r) auto

lemma read_bind_no_fault:
  "r \<noteq> ReadFault \<Longrightarrow> (\<And>x. r = ReadOk x \<Longrightarrow> f x \<noteq> ReadFault) \<Longrightarrow> read_bind r f \<noteq> ReadFault"
  by (cases r) auto

lemma rd_in [simp]: "i < length inp \<Longrightarrow> rd inp i = ReadOk (inp ! i)"
  by (simp add: rd_def)

lemma decode_field_no_fault: "decode_field inp nib pos \<noteq> ReadFault"
  by (auto simp: decode_field_def)

lemma decode_option_no_fault:
  assumes "pos < length inp"
  shows "decode_option inp lastNumber pos \<noteq> ReadFault"
proof -
  have "read_bind (decode_field inp dn p) (\<lambda>x.
          read_bind (decode_field inp ln (snd x)) (\<lambda>y.
            if length inp < snd y + unat (fst y) then ReadError TooShort
            else read_bind (rd_bytes inp (snd y) (unat (fst y))) (\<lambda>v. ReadOk (g x y v))))
        \<noteq> ReadFault" for dn ln p and g :: "u16 \<times> nat \<Rightarrow> u16 \<times> nat \<Rightarrow> bytes \<Rightarrow> coap_option \<times> nat"
    by (intro read_bind_no_fault decode_field_no_fault) (auto simp: rd_bytes_def)
  then show ?thesis
    using assms by (simp add: decode_option_def Let_def split_def)
qed

lemma decode_loop_no_fault: "decode_loop cfg inp lastNumber pos m \<noteq> OutOfBounds"
proof (induction cfg inp lastNumber pos m rule: decode_loop.induct)
  case (1 cfg inp lastNumber pos m)
  then show ?case
    using decode_option_no_fault [of pos inp lastNumber]
    by (subst decode_loop.simps) (auto split: read_result.split)
qed

lemma decode_no_fault: "decode cfg inp \<noteq> OutOfBounds"
  by (auto simp: decode_def Let_def rd_bytes_def decode_loop_no_fault)

section \<open>What the decoder returns is well formed\<close>

lemma decode_option_wf:
  assumes "decode_option inp lastNumber pos = ReadOk (opt, pos')"
  shows "wf_option opt"
  using assms
  by (auto simp: decode_option_def Let_def read_bind_ReadOk rd_bytes_def wf_option_def
      word_greater_zero_iff split: if_splits)

text \<open>
  A successful run of the loop ends in one of two ways, and otherwise continues after one
  more option: the induction rule for facts about decoded messages.
\<close>

lemma decode_loop_step:
  assumes "decode_loop cfg inp ln p m = Decoded m'"
  shows "(length inp \<le> p \<and> m' = m) \<or>
         (p + 1 < length inp \<and> m' = m\<lparr>msg_payload := Some (drop (p + 1) inp)\<rparr>) \<or>
         (\<exists>opt p'. decode_option inp ln p = ReadOk (opt, p') \<and>
            length (msg_options m) < max_options cfg \<and>
            decode_loop cfg inp (opt_number opt) p'
              (m\<lparr>msg_options := msg_options m @ [opt]\<rparr>) = Decoded m')"
  using assms
  by (subst (asm) decode_loop.simps) (auto split: read_result.splits if_splits)

lemma decode_loop_induct [consumes 1, case_names stop payload option]:
  assumes run: "decode_loop cfg inp lastNumber pos m = Decoded m'"
    and stop: "\<And>ln p. length inp \<le> p \<Longrightarrow> P ln p m'"
    and payload: "\<And>ln p m. p + 1 < length inp \<Longrightarrow>
        m' = m\<lparr>msg_payload := Some (drop (p + 1) inp)\<rparr> \<Longrightarrow> P ln p m"
    and option: "\<And>ln p m opt p'. decode_option inp ln p = ReadOk (opt, p') \<Longrightarrow>
        length (msg_options m) < max_options cfg \<Longrightarrow>
        P (opt_number opt) p' (m\<lparr>msg_options := msg_options m @ [opt]\<rparr>) \<Longrightarrow> P ln p m"
  shows "P lastNumber pos m"
  using run
proof (induction "length inp - pos" arbitrary: lastNumber pos m rule: less_induct)
  case less
  from decode_loop_step [OF less.prems] show ?case
  proof (elim disjE conjE exE)
    fix opt p'
    assume opt: "decode_option inp lastNumber pos = ReadOk (opt, p')"
      and room: "length (msg_options m) < max_options cfg"
      and rest: "decode_loop cfg inp (opt_number opt) p'
                   (m\<lparr>msg_options := msg_options m @ [opt]\<rparr>) = Decoded m'"
    from decode_option_pos [OF opt] have "length inp - p' < length inp - pos" by auto
    from less.hyps [OF this rest] show ?thesis by (rule option [OF opt room])
  qed (use stop payload in auto)
qed

lemma decode_loop_wf:
  assumes "decode_loop cfg inp lastNumber pos m = Decoded m'" "wf_message cfg m"
  shows "wf_message cfg m'"
  using assms
proof (induction rule: decode_loop_induct)
  case (payload ln p m)
  then show ?case by (auto simp: wf_message_def)
next
  case (option ln p m opt p')
  with decode_option_wf [OF option(1)] show ?case by (simp add: wf_message_def)
qed simp

lemma decode_wf: "decode cfg inp = Decoded m \<Longrightarrow> wf_message cfg m"
  by (auto simp: decode_def Let_def rd_bytes_def split: if_splits)
    (erule decode_loop_wf, simp add: wf_message_def reset_message_def)

section \<open>Round trip\<close>

lemma nibbles:
  fixes d l :: u8
  assumes "d < 16" "l < 16"
  shows "drop_bit 4 (push_bit 4 d OR l) = d" "(push_bit 4 d OR l) AND 0x0F = l"
proof -
  have "take_bit 4 d = d" "take_bit 4 l = l"
    using assms by (simp_all add: take_bit_eq_mod word_unat_eq_iff unat_mod word_less_nat_alt)
  then have d: "\<And>n. bit d n \<Longrightarrow> n < 4" and l: "\<And>n. bit l n \<Longrightarrow> n < 4"
    by (metis bit_take_bit_iff)+
  have "(0x0F :: u8) = mask 4" by (simp add: mask_eq_exp_minus_1)
  then have "(push_bit 4 d OR l) AND 0x0F = take_bit 4 (push_bit 4 d OR l)"
    by (simp add: take_bit_eq_mask)
  also have "\<dots> = l"
    by (rule bit_word_eqI) (auto simp: bit_simps dest: l)
  finally show "(push_bit 4 d OR l) AND 0x0F = l" .
  show "drop_bit 4 (push_bit 4 d OR l) = d"
    by (rule bit_word_eqI) (auto simp: bit_simps dest: l d)
qed

lemma encodeOptionField_nibble: "encodeOptionField v = (n, x) \<Longrightarrow> n < 15"
proof -
  assume a: "encodeOptionField v = (n, x)"
  have "v < 13 \<Longrightarrow> (ucast v :: u8) < 15"
    by (simp add: word_less_nat_alt unsigned_ucast_eq take_bit_eq_mod)
  with a show ?thesis by (auto simp: encodeOptionField_def Let_def split: if_splits)
qed

lemma decode_field_encode:
  assumes "encodeOptionField v = (n, x)"
  shows "decode_field (pre @ x @ rest) n (length pre) = ReadOk (v, length pre + length x)"
proof -
  consider (short) "v < 13" | (one) "\<not> v < 13" "v < 269" | (two) "\<not> v < 269" by blast
  then show ?thesis
  proof cases
    case short
    then have u: "unat v < 13" by (simp add: word_less_nat_alt)
    then have "(ucast v :: u8) < 13"
      by (simp add: word_less_nat_alt unsigned_ucast_eq take_bit_eq_mod)
    moreover have "(ucast (ucast v :: u8) :: u16) = v"
      using u by (simp add: word_unat_eq_iff unsigned_ucast_eq take_bit_eq_mod unat_mod)
    ultimately show ?thesis using assms short by (simp add: encodeOptionField_def decode_field_def)
  next
    case one
    then have u: "13 \<le> unat v" "unat v < 269" by (simp_all add: word_less_nat_alt not_less)
    then have s: "unat (v - 13) = unat v - 13" by (simp add: unat_sub word_le_nat_alt)
    have "(13 :: u16) + ucast (ucast (v - 13) :: u8) = v"
      using u by (simp add: word_unat_eq_iff unat_word_ariths unsigned_ucast_eq take_bit_eq_mod s)
    with assms one show ?thesis
      by (auto simp: encodeOptionField_def decode_field_def nth_append_shift)
  next
    case two
    then have "\<not> v < 13" by (simp add: word_less_nat_alt)
    with assms two show ?thesis
      by (auto simp: encodeOptionField_def decode_field_def Let_def nth_append be16_hi_lo)
  qed
qed

lemma nibble_pair_not_marker:
  fixes d l :: u8
  assumes "d < 15" "l < 15"
  shows "push_bit 4 d OR l \<noteq> 0xFF"
proof
  assume "push_bit 4 d OR l = 0xFF"
  moreover have "d < 16" "l < 16" using assms by (simp_all add: word_less_nat_alt)
  ultimately have "drop_bit 4 0xFF = d" using nibbles(1) [of d l] by simp
  then have "d = 15" by (simp add: drop_bit_eq_div)
  with assms show False by simp
qed

lemma decode_option_wire:
  assumes wf: "wf_option opt"
  shows "decode_option (pre @ wire_option lastNumber opt @ rest) lastNumber (length pre) =
         ReadOk (opt, length pre + length (wire_option lastNumber opt))"
proof -
  obtain dn dx where d: "encodeOptionField (opt_number opt - lastNumber) = (dn, dx)" by fastforce
  obtain ln lx where l: "encodeOptionField (opt_length opt) = (ln, lx)" by fastforce
  let ?b = "push_bit 4 dn OR ln" and ?v = "if 0 < opt_length opt then opt_bytes opt else []"
  let ?inp = "pre @ (?b # dx @ lx @ ?v) @ rest"
  have n: "dn < 15" "ln < 15" using d l by (auto dest: encodeOptionField_nibble)
  then have "dn < 16" "ln < 16" "dn \<noteq> 15" "ln \<noteq> 15" by (auto simp: word_less_nat_alt)
  note nib = nibbles [OF \<open>dn < 16\<close> \<open>ln < 16\<close>]
  have f1: "decode_field ?inp dn (Suc (length pre)) =
      ReadOk (opt_number opt - lastNumber, Suc (length pre) + length dx)"
    using decode_field_encode [OF d, of "pre @ [?b]" "lx @ ?v @ rest"] by simp
  have f2: "decode_field ?inp ln (Suc (length pre + length dx)) =
      ReadOk (opt_length opt, Suc (length pre + length dx) + length lx)"
    using decode_field_encode [OF l, of "pre @ [?b] @ dx" "?v @ rest"] by simp
  have lv: "length ?v = unat (opt_length opt)"
    using wf wf_option_bytes(2) by (auto simp: word_greater_zero_iff)
  have "drop (Suc (length pre + length dx + length lx)) ?inp = ?v @ rest"
    by (simp add: Suc_diff_le)
  then have v: "rd_bytes ?inp (Suc (length pre + length dx + length lx)) (unat (opt_length opt)) = ReadOk ?v"
    using lv by (simp add: rd_bytes_def)
  have "opt = \<lparr>opt_number = opt_number opt, opt_length = opt_length opt,
               opt_value = (if 0 < opt_length opt then Some ?v else None)\<rparr>"
    by (rule coap_option.equality) (simp_all add: wf_option_bytes(1) [OF wf])
  then show ?thesis
    using f1 f2 v lv nib \<open>dn \<noteq> 15\<close> \<open>ln \<noteq> 15\<close>
    by (simp add: wire_option_def d l Let_def decode_option_def nth_append)
qed

lemma wire_option_hd: "wire_option lastNumber opt = b # r \<Longrightarrow> b \<noteq> 0xFF"
proof -
  assume a: "wire_option lastNumber opt = b # r"
  obtain dn dx where d: "encodeOptionField (opt_number opt - lastNumber) = (dn, dx)" by fastforce
  obtain ln lx where l: "encodeOptionField (opt_length opt) = (ln, lx)" by fastforce
  from a have "b = push_bit 4 dn OR ln" by (simp add: wire_option_def d l)
  then show ?thesis
    using nibble_pair_not_marker d l by (auto dest!: encodeOptionField_nibble)
qed

lemma wire_option_ne: "wire_option lastNumber opt \<noteq> []"
  by (simp add: wire_option_def split_def Let_def)

lemma decode_loop_wire:
  assumes "list_all wf_option opts" "length (msg_options m) + length opts \<le> max_options cfg"
    and "msg_payload m = None" "p \<noteq> Some []"
  shows "decode_loop cfg (pre @ wire_options lastNumber opts @ wire_payload p) lastNumber (length pre) m =
         Decoded (m\<lparr>msg_options := msg_options m @ opts, msg_payload := p\<rparr>)"
  using assms
proof (induction opts arbitrary: pre lastNumber m)
  case Nil
  then show ?case
    by (cases p; subst decode_loop.simps)
      (auto simp: wire_payload_def nth_append rd_def)
next
  case (Cons opt opts)
  let ?w = "wire_option lastNumber opt"
  let ?rest = "wire_options (opt_number opt) opts @ wire_payload p"
  let ?inp = "pre @ ?w @ ?rest"
  let ?m = "m\<lparr>msg_options := msg_options m @ [opt]\<rparr>"
  obtain b r where w: "?w = b # r" using wire_option_ne by (meson neq_Nil_conv)
  have opt: "decode_option ?inp lastNumber (length pre) = ReadOk (opt, length pre + length ?w)"
    using Cons.prems by (intro decode_option_wire) simp
  have byte: "rd ?inp (length pre) = ReadOk b" "length pre < length ?inp" "b \<noteq> 0xFF"
    using w wire_option_hd [OF w] by (auto simp: nth_append rd_def)
  have "decode_loop cfg ?inp lastNumber (length pre) m =
        decode_loop cfg ((pre @ ?w) @ ?rest) (opt_number opt) (length (pre @ ?w)) ?m"
    using Cons.prems opt byte by (subst decode_loop.simps) simp
  also have "\<dots> = Decoded (?m\<lparr>msg_options := msg_options ?m @ opts, msg_payload := p\<rparr>)"
    using Cons.prems by (intro Cons.IH) auto
  finally show ?case by simp
qed

lemma header_byte_fields:
  assumes "length (msg_token m) \<le> 8"
  shows "drop_bit 6 (header_byte m) = kVersion"
    and "message_type_of (drop_bit 4 (header_byte m) AND 0x03) = msg_type m"
    and "unat (header_byte m AND 0x0F) = length (msg_token m)"
proof -
  have "length (msg_token m) \<in> {0, 1, 2, 3, 4, 5, 6, 7, 8}"
    using below_8 [of "length (msg_token m)"] assms by (cases "length (msg_token m) = 8") simp_all
  then show "drop_bit 6 (header_byte m) = kVersion"
    and "message_type_of (drop_bit 4 (header_byte m) AND 0x03) = msg_type m"
    and "unat (header_byte m AND 0x0F) = length (msg_token m)"
    by (elim insertE emptyE; cases "msg_type m";
        simp add: header_byte_def kVersion_def msg_tokenLength_def message_type_of_def
          drop_bit_eq_div)+
qed

text \<open>
  The decoder does not set \<^verbatim>\<open>lastOptionNumber_\<close>, the encoder's ordering check; everything
  else of the message comes back.
\<close>

lemma decode_wire:
  assumes wf: "wf_message cfg m" and cfg: "max_token_len cfg = 8"
  shows "decode cfg (wire m) = Decoded (m\<lparr>msg_lastOptionNumber := 0\<rparr>)"
proof -
  have tok: "length (msg_token m) \<le> 8" using wf cfg by (simp add: wf_message_def)
  note h = header_byte_fields [OF tok]
  let ?pre = "wire_header m @ msg_token m"
  let ?m = "reset_message\<lparr>msg_type := msg_type m, msg_code := msg_code m,
              msg_messageId := msg_messageId m, msg_token := msg_token m\<rparr>"
  have pre: "length ?pre = 4 + length (msg_token m)" by (simp add: wire_header_def)
  have w: "wire m = ?pre @ wire_options 0 (msg_options m) @ wire_payload (msg_payload m)"
    by (simp add: wire_def)
  have fields: "wire m ! 0 = header_byte m" "wire m ! 1 = msg_code m"
      "be16 (wire m ! 2) (wire m ! 3) = msg_messageId m"
      "rd_bytes (wire m) 4 (length (msg_token m)) = ReadOk (msg_token m)"
    by (simp_all add: wire_def wire_header_def be16_hi_lo rd_bytes_def)
  have "decode cfg (wire m) = decode_loop cfg (wire m) 0 (length ?pre) ?m"
    using h tok cfg fields pre w by (simp add: decode_def Let_def)
  also have "\<dots> = Decoded (?m\<lparr>msg_options := msg_options ?m @ msg_options m,
                             msg_payload := msg_payload m\<rparr>)"
    unfolding w using wf
    by (intro decode_loop_wire) (auto simp: wf_message_def reset_message_def)
  finally show ?thesis by (cases m) (simp add: reset_message_def)
qed

section \<open>Re-encoding a decoded datagram never needs more room\<close>

lemma decode_field_cost:
  assumes "decode_field inp nib pos = ReadOk (v, pos')" "encodeOptionField v = (n, x)"
  shows "pos + length x \<le> pos'"
proof -
  have "v < 13 \<Longrightarrow> x = []" "v < 269 \<Longrightarrow> length x \<le> 1" "length x \<le> 2"
    using assms(2) by (auto simp: encodeOptionField_def Let_def split: if_splits)
  moreover have "nib < 13 \<Longrightarrow> (ucast nib :: u16) < 13"
    by (simp add: word_less_nat_alt unsigned_ucast_eq take_bit_eq_mod)
  moreover have "(13 + ucast b :: u16) < 269" for b :: u8
    using unsigned_less [of b, where 'a = nat]
    by (simp add: word_less_nat_alt unat_word_ariths unsigned_ucast_eq take_bit_eq_mod)
  ultimately show ?thesis
    using assms(1) by (fastforce simp: decode_field_def read_bind_ReadOk split: if_splits)
qed

lemma decode_option_cost:
  assumes "decode_option inp lastNumber pos = ReadOk (opt, pos')"
  shows "pos + length (wire_option lastNumber opt) \<le> pos'"
proof -
  from assms obtain byte delta pos1 len pos2 where
      f1: "decode_field inp (drop_bit 4 byte) (pos + 1) = ReadOk (delta, pos1)"
    and f2: "decode_field inp (byte AND 0x0F) pos1 = ReadOk (len, pos2)"
    and o: "opt_number opt = lastNumber + delta" "opt_length opt = len" "pos' = pos2 + unat len"
    by (auto simp: decode_option_def Let_def read_bind_ReadOk split: if_splits)
  obtain dn dx where d: "encodeOptionField delta = (dn, dx)" by fastforce
  obtain ln lx where l: "encodeOptionField len = (ln, lx)" by fastforce
  have "length (if 0 < len then opt_bytes opt else []) \<le> unat len"
    using wf_option_bytes(2) [OF decode_option_wf [OF assms]] o by simp
  with decode_field_cost [OF f1 d] decode_field_cost [OF f2 l] o d l show ?thesis
    by (simp add: wire_option_def)
qed

lemma wire_options_append:
  "wire_options n (xs @ [opt]) =
     wire_options n xs @ wire_option (if xs = [] then n else opt_number (last xs)) opt"
  by (induction xs arbitrary: n) auto

lemma decode_loop_cost:
  assumes "decode_loop cfg inp lastNumber pos m = Decoded m'" "pos \<le> length inp"
    "msg_payload m = None"
    "lastNumber = (if msg_options m = [] then 0 else opt_number (last (msg_options m)))"
    "4 + length (msg_token m) + length (wire_options 0 (msg_options m)) \<le> pos"
  shows "length (wire m') \<le> length inp"
  using assms
proof (induction rule: decode_loop_induct)
  case (stop ln p)
  then show ?case by (simp add: wire_def wire_header_def wire_payload_def)
next
  case (payload ln p m)
  then show ?case by (simp add: wire_def wire_header_def wire_payload_def)
next
  case (option ln p m opt p')
  have "length (wire_options 0 (msg_options m @ [opt])) =
      length (wire_options 0 (msg_options m)) + length (wire_option ln opt)"
    using option.prems(3) by (simp add: wire_options_append)
  with decode_option_cost [OF option(1)] option.prems(4)
  have "4 + length (msg_token m) + length (wire_options 0 (msg_options m @ [opt])) \<le> p'"
    by simp
  with option.IH decode_option_pos [OF option(1)] option.prems(2) show ?case by simp
qed

lemma decode_cost:
  assumes "decode cfg inp = Decoded m"
  shows "length (wire m) \<le> length inp"
  using assms
  by (auto simp: decode_def Let_def rd_bytes_def split: if_splits)
    (erule decode_loop_cost, auto simp: reset_message_def)

section \<open>Unsigned options as data\<close>

definition uint_option :: "u16 \<Rightarrow> u32 \<Rightarrow> coap_option" where
  "uint_option number v =
     (let b = uint_scratch v
      in \<lparr>opt_number = number, opt_length = of_nat (length b),
          opt_value = (if b = [] then None else Some b)\<rparr>)"

lemma addOptionUint_append:
  assumes "length (msg_options m) < max_options cfg"
    "msg_options m = [] \<or> msg_lastOptionNumber m \<le> number"
  shows "addOptionUint cfg number v m =
    (True, m\<lparr>msg_options := msg_options m @ [uint_option number v],
             msg_lastOptionNumber := number\<rparr>)"
proof -
  have l: "length (uint_scratch v) < 65536" using uint_scratch_length [of v] by simp
  then have u: "unat (of_nat (length (uint_scratch v)) :: u16) = length (uint_scratch v)"
    by (simp add: unat_of_nat)
  then have z: "0 < (of_nat (length (uint_scratch v)) :: u16) \<longleftrightarrow> uint_scratch v \<noteq> []"
    by (simp only: word_less_nat_alt unat_0 length_greater_0_conv)
  show ?thesis
    using assms by (auto simp: addOptionUint_def addOption_def Let_def uint_option_def u z not_less)
qed

lemma wf_uint_option: "wf_option (uint_option number v)"
proof -
  have l: "length (uint_scratch v) < 65536" using uint_scratch_length [of v] by simp
  then have u: "unat (of_nat (length (uint_scratch v)) :: u16) = length (uint_scratch v)"
    by (simp add: unat_of_nat)
  then have "0 < (of_nat (length (uint_scratch v)) :: u16) \<longleftrightarrow> uint_scratch v \<noteq> []"
    by (simp only: word_less_nat_alt unat_0 length_greater_0_conv)
  then show ?thesis
    by (auto simp: wf_option_def uint_option_def Let_def u)
qed

lemma uint_option_number [simp]: "opt_number (uint_option number v) = number"
  by (simp add: uint_option_def Let_def)

lemma optionAsUint_uint_option: "optionAsUint (uint_option number v) = v"
proof -
  let ?cfg = "default_config"
  have "addOptionUint ?cfg number v reset_message =
      (True, reset_message\<lparr>msg_options := [uint_option number v], msg_lastOptionNumber := number\<rparr>)"
    using addOptionUint_append [of reset_message ?cfg number v]
    by (simp add: reset_message_def default_config_def)
  from addOptionUint_value [OF this] show ?thesis by (simp add: reset_message_def)
qed

text \<open>The encoder does not read \<open>msg_lastOptionNumber\<close>.\<close>

lemma encode_last_option: "encode (m\<lparr>msg_lastOptionNumber := n\<rparr>) cap = encode m cap"
  by (simp add: encode_def header_byte_def msg_tokenLength_def)

lemma addOptionUint_True:
  assumes "addOptionUint cfg number v m = (True, m')"
  shows "msg_options m' = msg_options m @ [uint_option number v]"
proof -
  have "length (msg_options m) < max_options cfg" "msg_options m = [] \<or> msg_lastOptionNumber m \<le> number"
    using assms by (auto simp: addOptionUint_def addOption_def Let_def split: if_splits)
  from addOptionUint_append [OF this, of v] assms show ?thesis by simp
qed

section \<open>Finding an option\<close>

lemma findOption_Some:
  assumes "msg_options m = xs @ opt # ys" "opt_number opt = number" "\<forall>o' \<in> set xs. opt_number o' \<noteq> number"
  shows "findOption number m = Some opt"
proof -
  have "first_slot (\<lambda>o'. opt_number o' = number) (msg_options m) = Some (length xs)"
    using assms by (intro first_slot_unique) (auto simp: nth_append)
  then show ?thesis using assms(1) by (simp add: findOption_def)
qed

lemma findOption_None: "\<forall>o' \<in> set (msg_options m). opt_number o' \<noteq> number \<Longrightarrow> findOption number m = None"
  using first_slot_None_iff [of "\<lambda>o'. opt_number o' = number" "msg_options m"]
  by (simp add: findOption_def)

end
