(* ===== verification/Coap_Uri.thy ===== *)
theory Coap_Uri
  imports Coap_Codec
begin

text \<open>
  \<^verbatim>\<open>PulseCoAPUri.h\<close>: a path as Uri-Path options and back. A path is a C string, the list of
  its bytes; the buffer \<open>out\<close> of \<^verbatim>\<open>joinUriPath\<close> is the list \<open>out[0..pos)\<close>, which the code
  always follows with a NUL. Bytes of an option value go into the buffer as they are, so
  the result may hold a NUL or a slash that came from the wire.
\<close>

definition slash :: u8 where
  "slash = 0x2F"

section \<open>The two loops\<close>

function addUriPath_loop :: "config \<Rightarrow> message \<Rightarrow> bytes \<Rightarrow> bool \<times> message" where
  "addUriPath_loop cfg m start =
     (let start1 = dropWhile (\<lambda>c. c = slash) start
      in if start1 = [] then (True, m)
         else let seg = takeWhile (\<lambda>c. c \<noteq> slash) start1;
                  end' = dropWhile (\<lambda>c. c \<noteq> slash) start1;
                  (ok, m') = addOption cfg Opt_UriPath (Some start1) (of_nat (length seg)) m
              in if ok then addUriPath_loop cfg m' end' else (False, m'))"
  by pat_completeness auto
termination
proof (relation "measure (\<lambda>(cfg, m, start). length start)", goal_cases)
  case 1
  show ?case by simp
next
  case (2 cfg m start start1 seg end' x ok m')
  have "length start1 \<le> length start" using 2(1) by (simp add: length_dropWhile_le)
  moreover have "length end' < length start1"
  proof -
    have "hd start1 \<noteq> slash" using 2(1,2) hd_dropWhile [of "\<lambda>c. c = slash" start] by auto
    then show ?thesis
      using 2(2,4) length_dropWhile_le [of "\<lambda>c. c \<noteq> slash" "tl start1"]
      by (cases start1) auto
  qed
  ultimately show ?case by simp
qed

declare addUriPath_loop.simps [simp del]

definition addUriPathOptions :: "config \<Rightarrow> message \<Rightarrow> bytes option \<Rightarrow> bool \<times> message" where
  "addUriPathOptions cfg m path =
     (case path of None \<Rightarrow> (True, m) | Some p \<Rightarrow> addUriPath_loop cfg m p)"

fun joinUriPath_loop :: "nat \<Rightarrow> coap_option list \<Rightarrow> bytes \<Rightarrow> bytes option" where
  "joinUriPath_loop cap [] out = Some out"
| "joinUriPath_loop cap (opt # opts) out =
     (if opt_number opt \<noteq> Opt_UriPath then joinUriPath_loop cap opts out
      else if cap \<le> length out + 1 then None
      else let out1 = out @ [slash]
           in if cap \<le> length out1 + unat (opt_length opt) then None
              else joinUriPath_loop cap opts (out1 @ opt_bytes opt))"

definition joinUriPath :: "message \<Rightarrow> nat \<Rightarrow> bytes option" where
  "joinUriPath m cap =
     (if cap < 2 then None
      else case joinUriPath_loop cap (msg_options m) [] of
             None \<Rightarrow> None
           | Some out \<Rightarrow> Some (if out = [] then [slash] else out))"

section \<open>Paths as segments\<close>

text \<open>The non-empty segments of a path, and the path that a list of segments spells.\<close>

function segments :: "bytes \<Rightarrow> bytes list" where
  "segments p =
     (let q = dropWhile (\<lambda>c. c = slash) p
      in if q = [] then []
         else takeWhile (\<lambda>c. c \<noteq> slash) q # segments (dropWhile (\<lambda>c. c \<noteq> slash) q))"
  by pat_completeness auto
termination
proof (relation "measure length", goal_cases)
  case 1
  show ?case by simp
next
  case (2 p q)
  have "length q \<le> length p" using 2(1) by (simp add: length_dropWhile_le)
  moreover have "hd q \<noteq> slash" using 2 hd_dropWhile [of "\<lambda>c. c = slash" p] by auto
  then have "length (dropWhile (\<lambda>c. c \<noteq> slash) q) < length q"
    using 2(2) length_dropWhile_le [of "\<lambda>c. c \<noteq> slash" "tl q"] by (cases q) auto
  ultimately show ?case by simp
qed

declare segments.simps [simp del]

definition spell :: "bytes list \<Rightarrow> bytes" where
  "spell segs = concat (map (\<lambda>s. slash # s) segs)"

definition canonical_path :: "bytes \<Rightarrow> bytes" where
  "canonical_path p = (if segments p = [] then [slash] else spell (segments p))"

definition uri_option :: "bytes \<Rightarrow> coap_option" where
  "uri_option seg = \<lparr>opt_number = Opt_UriPath, opt_length = of_nat (length seg),
     opt_value = (if seg = [] then None else Some seg)\<rparr>"

text \<open>
  Every path is slashes only, or slashes, a non-empty segment without slash, and a rest
  that is empty or starts with a slash. Induction over that decomposition serves both the
  code's loop and its specification.
\<close>

lemma takeWhile_segment:
  assumes "slash \<notin> set seg" "rest = [] \<or> hd rest = slash"
  shows "takeWhile (\<lambda>c. c \<noteq> slash) (seg @ rest) = seg"
    and "dropWhile (\<lambda>c. c \<noteq> slash) (seg @ rest) = rest"
proof -
  have "\<forall>x \<in> set seg. x \<noteq> slash" using assms(1) by auto
  with assms(2) show "takeWhile (\<lambda>c. c \<noteq> slash) (seg @ rest) = seg"
    and "dropWhile (\<lambda>c. c \<noteq> slash) (seg @ rest) = rest"
    by (cases rest; induction seg; simp)+
qed

lemma path_induct [case_names slashes segment]:
  assumes slashes: "\<And>p. dropWhile (\<lambda>c. c = slash) p = [] \<Longrightarrow> P p"
    and segment: "\<And>p seg rest. dropWhile (\<lambda>c. c = slash) p = seg @ rest \<Longrightarrow> seg \<noteq> [] \<Longrightarrow>
      slash \<notin> set seg \<Longrightarrow> rest = [] \<or> hd rest = slash \<Longrightarrow> P rest \<Longrightarrow> P p"
  shows "P p"
proof (induction "length p" arbitrary: p rule: less_induct)
  case less
  let ?q = "dropWhile (\<lambda>c. c = slash) p"
  let ?seg = "takeWhile (\<lambda>c. c \<noteq> slash) ?q" and ?rest = "dropWhile (\<lambda>c. c \<noteq> slash) ?q"
  show ?case
  proof (cases "?q = []")
    case True
    then show ?thesis by (rule slashes)
  next
    case False
    then have "hd ?q \<noteq> slash" using hd_dropWhile [of "\<lambda>c. c = slash" p] by auto
    then have ne: "?seg \<noteq> []" using False by (cases ?q) auto
    have "length ?q \<le> length p" by (rule length_dropWhile_le)
    moreover have "length ?q = length ?seg + length ?rest"
      by (metis length_append takeWhile_dropWhile_id)
    ultimately have "length ?rest < length p" using ne by (cases ?seg) auto
    then have "P ?rest" by (rule less)
    have hd: "?rest = [] \<or> hd ?rest = slash"
      using hd_dropWhile [of "\<lambda>c. c \<noteq> slash" ?q] by auto
    have no: "slash \<notin> set ?seg" by (auto dest: set_takeWhileD)
    have "?q = ?seg @ ?rest" by simp
    from segment [OF this ne no hd \<open>P ?rest\<close>] show ?thesis .
  qed
qed

lemma segments_slashes: "dropWhile (\<lambda>c. c = slash) p = [] \<Longrightarrow> segments p = []"
  by (subst segments.simps) (simp add: Let_def del: dropWhile_eq_Nil_conv)

lemma segments_segment:
  assumes "dropWhile (\<lambda>c. c = slash) p = seg @ rest" "seg \<noteq> []" "slash \<notin> set seg"
    "rest = [] \<or> hd rest = slash"
  shows "segments p = seg # segments rest"
  by (subst segments.simps)
    (use assms takeWhile_segment [OF assms(3,4)] in \<open>simp add: Let_def del: dropWhile_eq_Nil_conv\<close>)

lemma segments_ok: "s \<in> set (segments p) \<Longrightarrow> s \<noteq> [] \<and> slash \<notin> set s"
proof (induction p rule: path_induct)
  case (slashes p)
  then show ?case by (simp add: segments_slashes)
next
  case (segment p seg rest)
  then show ?case by (auto simp: segments_segment)
qed

lemma segments_spell:
  assumes "\<And>s. s \<in> set segs \<Longrightarrow> s \<noteq> [] \<and> slash \<notin> set s"
  shows "segments (spell segs) = segs"
  using assms
proof (induction segs)
  case Nil
  then show ?case by (simp add: spell_def segments.simps)
next
  case (Cons s segs)
  then have s: "s \<noteq> []" "slash \<notin> set s" by auto
  have "dropWhile (\<lambda>c. c = slash) (spell (s # segs)) = s @ spell segs"
    using s by (cases s) (auto simp: spell_def)
  moreover have "spell segs = [] \<or> hd (spell segs) = slash"
    by (cases segs) (auto simp: spell_def)
  ultimately show ?case using s Cons by (simp add: segments_segment)
qed

lemma canonical_spell:
  "segs \<noteq> [] \<Longrightarrow> (\<And>s. s \<in> set segs \<Longrightarrow> s \<noteq> [] \<and> slash \<notin> set s) \<Longrightarrow>
   canonical_path (spell segs) = spell segs"
  by (simp add: canonical_path_def segments_spell)

lemma canonical_idem: "canonical_path (canonical_path p) = canonical_path p"
proof (cases "segments p = []")
  case True
  then have "canonical_path p = [slash]" by (simp add: canonical_path_def)
  then show ?thesis by (simp add: canonical_path_def segments.simps [of "[slash]"])
next
  case False
  then show ?thesis
    using canonical_spell [of "segments p"] segments_ok
    by (auto simp: canonical_path_def)
qed

section \<open>The loops against the segments\<close>

lemma addUriPath_loop_slashes:
  "dropWhile (\<lambda>c. c = slash) p = [] \<Longrightarrow> addUriPath_loop cfg m p = (True, m)"
  by (subst addUriPath_loop.simps) (simp add: Let_def del: dropWhile_eq_Nil_conv)

lemma addUriPath_loop_segment:
  assumes "dropWhile (\<lambda>c. c = slash) p = seg @ rest" "seg \<noteq> []" "slash \<notin> set seg"
    "rest = [] \<or> hd rest = slash"
  shows "addUriPath_loop cfg m p =
    (let (ok, m') = addOption cfg Opt_UriPath (Some (seg @ rest)) (of_nat (length seg)) m
     in if ok then addUriPath_loop cfg m' rest else (False, m'))"
  by (subst addUriPath_loop.simps)
    (use assms takeWhile_segment [OF assms(3,4)] in
      \<open>simp add: Let_def del: dropWhile_eq_Nil_conv\<close>)

lemma addOption_uri:
  assumes "length seg < 2 ^ 16" "msg_lastOptionNumber m \<le> Opt_UriPath"
  shows "addOption cfg Opt_UriPath (Some (seg @ rest)) (of_nat (length seg)) m =
    (if max_options cfg \<le> length (msg_options m) then (False, m)
     else (True, m\<lparr>msg_options := msg_options m @ [uri_option seg],
                   msg_lastOptionNumber := Opt_UriPath\<rparr>))"
proof -
  have "unat (of_nat (length seg) :: u16) = length seg" using assms(1) by (simp add: unat_of_nat)
  then show ?thesis
    using assms(2)
    by (auto simp: addOption_def uri_option_def word_less_nat_alt not_less [symmetric])
qed

lemma addUriPath_loop_spec:
  assumes "\<And>s. s \<in> set (segments p) \<Longrightarrow> length s < 2 ^ 16" "msg_lastOptionNumber m \<le> Opt_UriPath"
    "length (msg_options m) \<le> max_options cfg"
  shows "addUriPath_loop cfg m p =
    (let n = length (segments p); free = max_options cfg - length (msg_options m)
     in (n \<le> free,
         if n = 0 \<or> free = 0 then m
         else m\<lparr>msg_options := msg_options m @ map uri_option (take free (segments p)),
                msg_lastOptionNumber := Opt_UriPath\<rparr>))"
  using assms
proof (induction p arbitrary: m rule: path_induct)
  case (slashes p)
  then show ?case by (simp add: addUriPath_loop_slashes segments_slashes)
next
  case (segment p seg rest)
  note seg = segments_segment [OF segment.hyps(1-4)]
  note add = addOption_uri [of seg m cfg rest]
  show ?case
  proof (cases "max_options cfg \<le> length (msg_options m)")
    case True
    then show ?thesis
      using segment.prems add seg by (simp add: addUriPath_loop_segment [OF segment.hyps(1-4)])
  next
    case False
    let ?m = "m\<lparr>msg_options := msg_options m @ [uri_option seg],
                msg_lastOptionNumber := Opt_UriPath\<rparr>"
    have free: "max_options cfg - length (msg_options m) =
        Suc (max_options cfg - length (msg_options ?m))"
      using False by simp
    have "addUriPath_loop cfg m p = addUriPath_loop cfg ?m rest"
      using segment.prems add seg False
      by (simp add: addUriPath_loop_segment [OF segment.hyps(1-4)])
    with segment.IH [of ?m] segment.prems seg False show ?thesis
      by (auto simp: free Let_def)
  qed
qed

lemma opt_bytes_uri: "length seg < 2 ^ 16 \<Longrightarrow> opt_bytes (uri_option seg) = seg"
  by (simp add: opt_bytes_def uri_option_def unat_of_nat)

lemma wf_uri_option: "seg \<noteq> [] \<Longrightarrow> length seg < 2 ^ 16 \<Longrightarrow> wf_option (uri_option seg)"
  by (auto simp: wf_option_def uri_option_def unat_of_nat word_less_nat_alt)

text \<open>
  The join succeeds exactly when the whole spelled path and its NUL fit the buffer: no
  prefix is ever left behind as if it were the path.
\<close>

definition uri_segments :: "message \<Rightarrow> bytes list" where
  "uri_segments m = map opt_bytes (filter (\<lambda>o'. opt_number o' = Opt_UriPath) (msg_options m))"

lemma joinUriPath_loop_spec:
  assumes "list_all wf_option opts" "length out < cap"
  shows "joinUriPath_loop cap opts out =
    (let p = out @ spell (map opt_bytes (filter (\<lambda>o'. opt_number o' = Opt_UriPath) opts))
     in if length p < cap then Some p else None)"
  using assms
proof (induction opts arbitrary: out)
  case Nil
  then show ?case by (simp add: spell_def)
next
  case (Cons opt opts)
  then have "length (opt_bytes opt) = unat (opt_length opt)" by (simp add: wf_option_bytes)
  then show ?case using Cons by (auto simp: Let_def spell_def)
qed

lemma joinUriPath_spec:
  assumes "list_all wf_option (msg_options m)" "2 \<le> cap"
  shows "joinUriPath m cap =
    (if length (spell (uri_segments m)) < cap
     then Some (if uri_segments m = [] then [slash] else spell (uri_segments m)) else None)"
proof -
  have "spell (uri_segments m) = [] \<longleftrightarrow> uri_segments m = []"
    by (cases "uri_segments m") (auto simp: spell_def)
  then show ?thesis
    using assms joinUriPath_loop_spec [of "msg_options m" "[]" cap]
    by (simp add: joinUriPath_def uri_segments_def Let_def)
qed

text \<open>The path a client sends is the path the server rebuilds.\<close>

lemma uri_round_trip:
  assumes add: "addUriPathOptions cfg m (Some p) = (True, m')"
    and fresh: "uri_segments m = []" "list_all wf_option (msg_options m)"
      "msg_lastOptionNumber m \<le> Opt_UriPath" "length (msg_options m) \<le> max_options cfg"
    and fits: "length (canonical_path p) < cap" "2 \<le> cap"
    and short: "\<And>s. s \<in> set (segments p) \<Longrightarrow> length s < 2 ^ 16"
  shows "joinUriPath m' cap = Some (canonical_path p)"
proof -
  have "msg_options m' = msg_options m @ map uri_option (segments p)"
    using add addUriPath_loop_spec [OF short fresh(3,4)]
    by (auto simp: addUriPathOptions_def Let_def split: if_splits)
  moreover have "map opt_bytes (map uri_option (segments p)) = segments p"
    using short by (simp add: opt_bytes_uri map_idI)
  moreover have "filter (\<lambda>o'. opt_number o' = Opt_UriPath) (map uri_option (segments p)) =
      map uri_option (segments p)"
    by (simp add: filter_map comp_def uri_option_def)
  moreover have "list_all wf_option (map uri_option (segments p))"
    using short segments_ok by (auto simp: list_all_iff wf_uri_option)
  ultimately have "uri_segments m' = segments p" "list_all wf_option (msg_options m')"
    using fresh(1,2) by (auto simp: uri_segments_def)
  with fits show ?thesis
    by (auto simp: joinUriPath_spec canonical_path_def spell_def)
qed

end
