(* ===== verification/Coap_Blockwise.thy ===== *)
theory Coap_Blockwise
  imports Coap_Codec
begin

text \<open>
  \<^verbatim>\<open>PulseCoAPBlockwise.h\<close>: the Block1/Block2 option value and the reassembly states. A
  reassembly buffer is the list of the bytes assembled so far, whose length is the
  \<^verbatim>\<open>assembledLen\<close> of the source.
\<close>

record block_option =
  blk_num :: u32
  blk_m :: bool
  blk_szx :: u8

definition shift_size :: "u8 \<Rightarrow> u16" where
  "shift_size szx = ucast (push_bit (unat szx + 4) (1 :: u32))"

definition blockSize :: "block_option \<Rightarrow> u16" where
  "blockSize b = shift_size (blk_szx b)"

definition byteOffset :: "block_option \<Rightarrow> u32" where
  "byteOffset b = blk_num b * ucast (blockSize b)"

definition fromOption :: "coap_option \<Rightarrow> block_option option" where
  "fromOption opt =
     (if opt_length opt > 3 then None
      else let v = optionAsUint opt
           in Some \<lparr>blk_num = drop_bit 4 v, blk_m = (drop_bit 3 v AND 1 \<noteq> 0),
                    blk_szx = ucast (v AND 7)\<rparr>)"

definition toOptionValue :: "u32 \<Rightarrow> bool \<Rightarrow> u8 \<Rightarrow> u32" where
  "toOptionValue num m szx = push_bit 4 num OR (if m then 8 else 0) OR (ucast szx AND 7)"

record block1_session =
  b1_active :: bool
  b1_remote :: endpoint
  b1_token :: bytes
  b1_nextExpectedNum :: u32
  b1_buffer :: bytes

definition empty_block1_session :: block1_session where
  "empty_block1_session = \<lparr>b1_active = False, b1_remote = empty_endpoint, b1_token = [],
     b1_nextExpectedNum = 0, b1_buffer = []\<rparr>"

section \<open>The option value\<close>

text \<open>
  Three wire bytes hold at most 24 bits, so a block number has at most 20, and a block
  option survives the encoding when its number does.
\<close>

lemma fold_bytes_bound:
  "unat v < 2 ^ (8 * k) \<Longrightarrow> k + length bs \<le> 4 \<Longrightarrow>
   unat (foldl (\<lambda>v b. push_bit 8 v OR ucast (b :: u8)) (v :: u32) bs) < 2 ^ (8 * (k + length bs))"
proof (induction bs arbitrary: v k)
  case Nil
  then show ?case by simp
next
  case (Cons b bs)
  let ?v = "push_bit 8 v OR ucast b :: u32"
  have "push_bit 8 v AND (ucast b :: u32) = 0"
    by (rule bit_word_eqI) (auto simp: bit_simps dest: bit_imp_le_length)
  then have "?v = push_bit 8 v + ucast b" by (simp add: disjunctive_add_eq_or)
  moreover have "unat (push_bit 8 v) \<le> unat v * 256"
    by (simp add: push_bit_eq_mult unat_word_ariths)
  moreover have "unat (ucast b :: u32) < 256"
    using unsigned_less [of b, where 'a = nat] by (simp add: unsigned_ucast_eq take_bit_eq_mod)
  ultimately have "unat ?v < unat v * 256 + 256"
    by (metis add_le_less_mono le_less_trans unat_plus_if' word_arith_nat_add unat_of_nat mod_less_eq_dividend)
  also have "\<dots> = (unat v + 1) * 256" by simp
  also have "\<dots> \<le> 2 ^ (8 * k) * 256" using Cons.prems(1) by (intro mult_right_mono) auto
  also have "\<dots> = 2 ^ (8 * Suc k)" by (simp add: power_add)
  finally have "unat ?v < 2 ^ (8 * Suc k)" .
  from Cons.IH [OF this] Cons.prems(2) show ?case by simp
qed

lemma optionAsUint_bound:
  assumes "opt_length opt \<le> 3"
  shows "unat (optionAsUint opt) < 2 ^ 24"
proof -
  let ?bs = "take (unat (opt_length opt)) (opt_bytes opt)"
  have l: "length ?bs \<le> 3" using assms by (simp add: word_le_nat_alt)
  have "\<not> 4 < opt_length opt" using assms by (simp add: word_less_nat_alt word_le_nat_alt)
  then have "optionAsUint opt = foldl (\<lambda>v b. push_bit 8 v OR ucast b) 0 ?bs"
    by (simp add: optionAsUint_def)
  moreover have "unat (foldl (\<lambda>v b. push_bit 8 v OR ucast b) (0 :: u32) ?bs) < 2 ^ (8 * length ?bs)"
    using fold_bytes_bound [of 0 0 ?bs] l by simp
  moreover have "(2 :: nat) ^ (8 * length ?bs) \<le> 2 ^ 24"
    using l by (intro power_increasing) auto
  ultimately show ?thesis by (simp only: less_le_trans)
qed

lemma fromOption_num_bound:
  assumes "fromOption opt = Some b"
  shows "unat (blk_num b) < 2 ^ 20" "blk_szx b \<le> 7"
proof -
  from assms have l: "opt_length opt \<le> 3" and b: "blk_num b = drop_bit 4 (optionAsUint opt)"
      "blk_szx b = ucast (optionAsUint opt AND 7)"
    by (auto simp: fromOption_def Let_def split: if_splits)
  have "unat (blk_num b) = unat (optionAsUint opt) div 16"
    by (simp add: b drop_bit_eq_div unat_div)
  with optionAsUint_bound [OF l] show "unat (blk_num b) < 2 ^ 20" by simp
  have "unat (optionAsUint opt AND 7) < 8"
    by (simp add: and_mask3 take_bit_eq_mod unat_mod)
  then show "blk_szx b \<le> 7"
    by (simp add: b word_le_nat_alt unsigned_ucast_eq take_bit_eq_mod)
qed

lemma bit_toOptionValue:
  assumes "szx \<le> 7"
  shows "bit (toOptionValue num m szx) n \<longleftrightarrow> n < 32 \<and>
    (if n < 3 then bit szx n else if n = 3 then m else bit num (n - 4))"
proof -
  have "(8 :: u32) = 2 ^ 3" by simp
  then have "bit (8 :: u32) n \<longleftrightarrow> n = 3" by (simp only: bit_exp_iff) auto
  moreover have "bit szx k \<Longrightarrow> k < 3" for k
    using assms bit_lt_size [of szx 3 k] by (simp add: word_le_nat_alt)
  ultimately show ?thesis
    by (auto simp: toOptionValue_def and_mask3 bit_simps)
qed

lemma toOptionValue_fields:
  assumes "unat num < 2 ^ 20" "szx \<le> 7"
  shows "drop_bit 4 (toOptionValue num m szx) = num"
    and "(drop_bit 3 (toOptionValue num m szx) AND 1 \<noteq> 0) = m"
    and "ucast (toOptionValue num m szx AND 7) = szx"
    and "unat (toOptionValue num m szx) < 2 ^ 24"
proof -
  note b = bit_toOptionValue [OF assms(2)]
  have n: "bit num k \<Longrightarrow> k < 20" for k by (rule bit_lt_size [OF assms(1)])
  have s: "bit szx k \<Longrightarrow> k < 3" for k
    using assms(2) bit_lt_size [of szx 3 k] by (simp add: word_le_nat_alt)
  show "drop_bit 4 (toOptionValue num m szx) = num"
    by (rule bit_word_eqI) (auto simp: bit_drop_bit_eq b dest: n)
  have "drop_bit 3 (toOptionValue num m szx) AND 1 \<noteq> 0 \<longleftrightarrow> bit (toOptionValue num m szx) 3"
    by (simp add: and_one_eq bit_iff_odd_drop_bit odd_iff_mod_2_eq_one)
  then show "(drop_bit 3 (toOptionValue num m szx) AND 1 \<noteq> 0) = m" by (simp add: b)
  show "ucast (toOptionValue num m szx AND 7) = szx"
    by (rule bit_word_eqI) (auto simp: and_mask3 bit_simps b dest: s)
  have "take_bit 24 (toOptionValue num m szx) = toOptionValue num m szx"
    by (rule bit_word_eqI) (auto simp: bit_simps b dest: n split: if_splits)
  then have "unat (toOptionValue num m szx) = take_bit 24 (unat (toOptionValue num m szx))"
    by (metis unsigned_take_bit_eq)
  then show "unat (toOptionValue num m szx) < 2 ^ 24"
    by (metis take_bit_nat_less_exp)
qed

section \<open>The block option on the wire\<close>

lemma uint_little_short: "unat v < 2 ^ (8 * k) \<Longrightarrow> length (uint_little v n) \<le> k"
proof (induction v n arbitrary: k rule: uint_little.induct)
  case (1 v n)
  show ?case
  proof (cases "v > 0 \<and> n < 4")
    case True
    with 1(2) obtain j where k: "k = Suc j"
      by (cases k) (auto simp: word_greater_zero_iff unat_eq_zero)
    have "unat v < 2 ^ (8 * j) * 256" using 1(2) by (simp add: k power_add)
    then have "unat (drop_bit 8 v) < 2 ^ (8 * j)"
      by (simp add: drop_bit_eq_div unat_div less_mult_imp_div_less)
    with 1(1) [OF True] have "length (uint_little (drop_bit 8 v) (Suc n)) \<le> j" by blast
    with True show ?thesis by (subst uint_little.simps) (simp add: k)
  next
    case False
    then show ?thesis by (subst uint_little.simps) auto
  qed
qed

lemma uint_length_3: "unat v < 2 ^ 24 \<Longrightarrow> length (uint_scratch v) \<le> 3"
  using uint_little_short [of v 3 0] by (simp add: uint_scratch_def)

lemma fromOption_uint_option:
  assumes "unat num < 2 ^ 20" "szx \<le> 7"
  shows "fromOption (uint_option number (toOptionValue num more_blocks szx)) =
    Some \<lparr>blk_num = num, blk_m = more_blocks, blk_szx = szx\<rparr>"
proof -
  let ?v = "toOptionValue num more_blocks szx"
  note f = toOptionValue_fields [OF assms, of more_blocks]
  have l: "length (uint_scratch ?v) \<le> 3" using f(4) by (rule uint_length_3)
  then have u: "unat (of_nat (length (uint_scratch ?v)) :: u16) = length (uint_scratch ?v)"
    by (simp add: unat_of_nat)
  have "opt_length (uint_option number ?v) = of_nat (length (uint_scratch ?v))"
    by (simp add: uint_option_def Let_def)
  then have "\<not> opt_length (uint_option number ?v) > 3" using l u by (simp add: word_less_nat_alt)
  with f(1-3) show ?thesis by (simp add: fromOption_def Let_def optionAsUint_uint_option)
qed

section \<open>Bodies as blocks\<close>

definition slice :: "bytes \<Rightarrow> nat \<Rightarrow> nat \<Rightarrow> bytes" where
  "slice p sz n = take sz (drop (n * sz) p)"

lemma slices_prefix: "concat (map (slice p sz) [0..<n]) = take (n * sz) p"
proof (induction n)
  case (Suc n)
  have "take (n * sz) p @ take sz (drop (n * sz) p) = take (n * sz + sz) p"
    by (simp add: take_add)
  with Suc show ?case by (simp add: slice_def add.commute)
qed simp

lemma slices_concat: "length p \<le> n * sz \<Longrightarrow> concat (map (slice p sz) [0..<n]) = p"
  by (simp add: slices_prefix)

lemma unat_shift_size:
  assumes "szx \<le> 7"
  shows "unat (shift_size szx) = 2 ^ (unat szx + 4)"
proof -
  have "unat szx \<le> 7" using assms by (simp add: word_le_nat_alt)
  then have "(2 :: nat) ^ (unat szx + 4) \<le> 2 ^ 11" by (intro power_increasing) auto
  then have "(2 :: nat) ^ (unat szx + 4) < 65536" by simp
  moreover have "unat (push_bit (unat szx + 4) (1 :: u32)) = take_bit 32 (2 ^ (unat szx + 4))"
    unfolding unsigned_push_bit_eq by simp
  ultimately show ?thesis
    by (simp add: shift_size_def unsigned_ucast_eq take_bit_eq_mod)
qed

text \<open>The payload bytes of a message, and the body that a sequence of blocks carries.\<close>

definition payload_bytes :: "message \<Rightarrow> bytes" where
  "payload_bytes m = (case msg_payload m of None \<Rightarrow> [] | Some p \<Rightarrow> p)"

lemma payloadLength_bytes: "msg_payloadLength m = length (payload_bytes m)"
  by (simp add: msg_payloadLength_def payload_bytes_def split: option.split)

definition body_of :: "message list \<Rightarrow> bytes" where
  "body_of ms = concat (map payload_bytes ms)"

lemma body_of_simps [simp]:
  "body_of [] = []" "body_of (m # ms) = payload_bytes m @ body_of ms"
  "body_of (ms @ ms') = body_of ms @ body_of ms'"
  by (simp_all add: body_of_def)

end
