(* ===== verification/Props_Codec.thy ===== *)
theory Props_Codec
  imports Coap_Uri Coap_Blockwise
begin

text \<open>
  The properties of the message codec, of the option helpers and of the URI path, each with
  a concrete instance: a Confirmable GET of \<^verbatim>\<open>/temp\<close> with a one-byte token.
\<close>

definition sample_datagram :: bytes where
  "sample_datagram = [0x41, 0x01, 0x12, 0x34, 0xAB, 0xB4, 0x74, 0x65, 0x6D, 0x70]"

definition sample_message :: message where
  "sample_message = \<lparr>msg_type = Confirmable, msg_code = Code_Get, msg_messageId = 0x1234,
     msg_token = [0xAB],
     msg_options = [\<lparr>opt_number = 11, opt_length = 4, opt_value = Some [0x74, 0x65, 0x6D, 0x70]\<rparr>],
     msg_lastOptionNumber = 0, msg_payload = None\<rparr>"

lemma sample_decode: "decode default_config sample_datagram = Decoded sample_message"
  by code_simp

lemma sample_wf: "wf_message default_config sample_message"
  by code_simp

lemma sample_encode: "encode sample_message 256 = sample_datagram"
  by code_simp

lemma decode_loop_last:
  assumes "decode_loop cfg inp lastNumber pos m = Decoded m'"
  shows "msg_lastOptionNumber m = 0 \<longrightarrow> msg_lastOptionNumber m' = 0"
  using assms by (induction rule: decode_loop_induct) auto

lemma decode_last: "decode cfg inp = Decoded m \<Longrightarrow> msg_lastOptionNumber m = 0"
  by (auto simp: decode_def Let_def rd_bytes_def reset_message_def split: if_splits
      dest!: decode_loop_last)

lemma decoded_encode:
  assumes "decode cfg inp = Decoded m"
  shows "encode m (length inp) = wire m"
  using decode_cost [OF assms] decode_wf [OF assms]
  by (simp add: encode_wire_gen wf_message_def wf_options_encodable)

section \<open>Properties\<close>


text \<open>
  C39: what the decoder accepts is well formed: the token and the options fit the arrays of
  the message object, every option value has the length the option says, and a payload is
  present only when it is not empty.
\<close>

theorem decode_well_formed:
  assumes "decode cfg inp = Decoded m"
  shows "wf_message cfg m"
  using assms by (rule decode_wf)

theorem decode_well_formed_witness:
  "wf_message default_config sample_message"
  by (rule decode_well_formed [OF sample_decode])


text \<open>
  C6: decoding what was encoded gives the message back: type, code, message ID, token,
  options and payload. (\<open>msg_lastOptionNumber\<close> is bookkeeping of the builder that is not on
  the wire.)
\<close>

theorem encode_decode_round_trip:
  assumes "wf_message cfg m" "max_token_len cfg = 8" "encode m cap \<noteq> []"
  shows "decode cfg (encode m cap) = Decoded (m\<lparr>msg_lastOptionNumber := 0\<rparr>)"
  using decode_wire [OF assms(1,2)] encode_eq_wire [OF assms(3)] by simp

theorem encode_decode_round_trip_witness:
  "decode default_config (encode sample_message 256) = Decoded (sample_message\<lparr>msg_lastOptionNumber := 0\<rparr>)"
  by (rule encode_decode_round_trip [OF sample_wf])
    (simp_all add: default_config_def sample_encode sample_datagram_def)

text \<open>
  A received datagram can be forwarded: the decoded message encodes into the space the
  datagram took, and the result decodes to the same message, although the sender may have
  used longer option encodings than the encoder does.
\<close>

theorem decode_encode_stable:
  assumes "decode cfg inp = Decoded m" "max_token_len cfg = 8"
  shows "encode m (length inp) \<noteq> [] \<and> length (encode m (length inp)) \<le> length inp \<and>
         decode cfg (encode m (length inp)) = Decoded m"
proof -
  have "wire m \<noteq> []" by (simp add: wire_def wire_header_def)
  moreover have "decode cfg (wire m) = Decoded m"
    using decode_wire [OF decode_wf [OF assms(1)] assms(2)] decode_last [OF assms(1)] by simp
  ultimately show ?thesis
    using decoded_encode [OF assms(1)] decode_cost [OF assms(1)] by simp
qed

theorem decode_encode_stable_witness:
  "decode default_config (encode sample_message (length sample_datagram)) = Decoded sample_message"
  using decode_encode_stable [OF sample_decode] by (simp add: default_config_def)

text \<open>
  An unsigned option keeps its value. When \<^verbatim>\<open>addOptionUint\<close> succeeds, the message has one
  more option, with that number, at most four bytes, and reading it back with
  \<^verbatim>\<open>optionAsUint\<close> gives the 32-bit value.
\<close>

theorem uint_option_round_trip:
  assumes "addOptionUint cfg number v m = (True, m')"
  shows "\<exists>opt. msg_options m' = msg_options m @ [opt] \<and> opt_number opt = number \<and>
               optionAsUint opt = v \<and> unat (opt_length opt) \<le> 4"
  using assms by (rule addOptionUint_value)

theorem uint_option_round_trip_witness:
  "\<exists>opt. msg_options (snd (addOptionUint default_config 6 0x12345 reset_message)) = [opt] \<and>
         opt_number opt = 6 \<and> optionAsUint opt = 0x12345 \<and> unat (opt_length opt) \<le> 4"
proof -
  have "addOptionUint default_config 6 0x12345 reset_message =
      (True, snd (addOptionUint default_config 6 0x12345 reset_message))"
    by code_simp
  from uint_option_round_trip [OF this] show ?thesis by (simp add: reset_message_def)
qed

text \<open>
  A block option survives the wire: a block number below 2^20, the more flag and the size
  exponent that \<^verbatim>\<open>toOptionValue\<close> packs and \<^verbatim>\<open>addOptionUint\<close> adds are what
  \<^verbatim>\<open>fromOption\<close> reads from the option.
\<close>

theorem block_option_round_trip:
  assumes num: "unat num < 2 ^ 20" and szx: "szx \<le> 7"
    and add: "addOptionUint cfg number (toOptionValue num more_blocks szx) m = (True, m')"
  shows "fromOption (last (msg_options m')) =
    Some \<lparr>blk_num = num, blk_m = more_blocks, blk_szx = szx\<rparr>"
  using addOptionUint_True [OF add] fromOption_uint_option [OF num szx] by simp

theorem block_option_round_trip_witness:
  "fromOption (last (msg_options (snd (addOptionUint default_config Opt_Block2
      (toOptionValue 77 True 4) reset_message)))) =
   Some \<lparr>blk_num = 77, blk_m = True, blk_szx = 4\<rparr>"
proof -
  have "addOptionUint default_config Opt_Block2 (toOptionValue 77 True 4) reset_message =
      (True, snd (addOptionUint default_config Opt_Block2 (toOptionValue 77 True 4) reset_message))"
    by code_simp
  from block_option_round_trip [OF _ _ this] show ?thesis by simp
qed

text \<open>
  C38: the path a client sends is the path the server rebuilds: after
  \<^verbatim>\<open>addUriPathOptions\<close> has added all segments of \<open>p\<close>, \<^verbatim>\<open>joinUriPath\<close> returns \<open>p\<close> with
  empty segments and a trailing slash removed, when that fits the buffer.
\<close>

theorem uri_path_round_trip:
  assumes "addUriPathOptions cfg m (Some p) = (True, m')"
    and "uri_segments m = []" "list_all wf_option (msg_options m)"
      "msg_lastOptionNumber m \<le> Opt_UriPath" "length (msg_options m) \<le> max_options cfg"
    and "length (canonical_path p) < cap" "2 \<le> cap"
    and "\<forall>s \<in> set (segments p). length s < 2 ^ 16"
  shows "joinUriPath m' cap = Some (canonical_path p)"
  using assms(8) by (intro uri_round_trip [OF assms(1-7)]) blast

definition sample_path :: bytes where
  "sample_path = str ''//sensors/temp/''"

theorem uri_path_round_trip_witness:
  "joinUriPath (snd (addUriPathOptions default_config reset_message (Some sample_path))) 64 =
     Some (str ''/sensors/temp'')"
proof -
  let ?r = "addUriPathOptions default_config reset_message (Some sample_path)"
  have seg: "segments sample_path = [str ''sensors'', str ''temp'']" by code_simp
  have short: "length s < 2 ^ 16" if "s \<in> set (segments sample_path)" for s
    using that by (auto simp: seg str_def)
  have "fst (addUriPath_loop default_config reset_message sample_path)"
    by (subst addUriPath_loop_spec [OF short])
      (simp_all add: seg reset_message_def default_config_def Let_def)
  then have "fst ?r" by (simp add: addUriPathOptions_def)
  then have a: "?r = (True, snd ?r)" by (simp add: prod_eq_iff)
  have c: "canonical_path sample_path = str ''/sensors/temp''" by code_simp
  show ?thesis
    using uri_path_round_trip [OF a, of 64]
    by (simp add: c seg reset_message_def uri_segments_def default_config_def str_def)
qed

text \<open>
  The server never works with part of a path: for a well-formed message
  \<^verbatim>\<open>joinUriPath\<close> returns the whole spelled path exactly when it and its terminating NUL
  fit the buffer (the root path for a message without Uri-Path), and fails otherwise.
\<close>

theorem join_path_complete:
  assumes "wf_message cfg m" "2 \<le> cap"
  shows "joinUriPath m cap =
    (if length (spell (uri_segments m)) < cap
     then Some (if uri_segments m = [] then [slash] else spell (uri_segments m)) else None)"
  using assms by (intro joinUriPath_spec) (simp_all add: wf_message_def)

theorem join_path_complete_witness:
  "joinUriPath sample_message 6 = Some (str ''/temp'') \<and> joinUriPath sample_message 5 = None"
proof -
  have u: "spell (uri_segments sample_message) = str ''/temp''" "uri_segments sample_message \<noteq> []"
    by code_simp+
  show ?thesis
    using join_path_complete [OF sample_wf, of 6] join_path_complete [OF sample_wf, of 5] u
    by (simp add: str_def)
qed

end
