(* ===== verification/Coap_Transaction.thy ===== *)
theory Coap_Transaction
  imports Coap_Config Coap_Transport
begin

text \<open>
  \<^verbatim>\<open>PulseCoAPTransaction.h\<close> and \<^verbatim>\<open>PulseCoAPTransaction.cpp\<close>: the pool of Confirmable messages
  in flight. Clock values are 32-bit words and every clock operation wraps, as
  \<^verbatim>\<open>uint32_t\<close> does. A token and a message are the lists of their first \<open>tokenLen\<close> and
  \<open>messageLen\<close> bytes. The pool is the list of its slots.
\<close>

datatype transaction_state = Free | AwaitingAck

record transaction =
  tx_state :: transaction_state
  tx_remote :: endpoint
  tx_messageId :: u16
  tx_token :: bytes
  tx_retriesSent :: u8
  tx_currentTimeoutMs :: u32
  tx_nextRetryAtMs :: u32
  tx_message :: bytes

type_synonym pool = "transaction list"

definition empty_transaction :: transaction where
  "empty_transaction = \<lparr>tx_state = Free, tx_remote = empty_endpoint, tx_messageId = 0,
     tx_token = [], tx_retriesSent = 0, tx_currentTimeoutMs = 0, tx_nextRetryAtMs = 0,
     tx_message = []\<rparr>"

definition reset_pool :: "config \<Rightarrow> pool" where
  "reset_pool cfg = replicate (max_transactions cfg) empty_transaction"

definition in_flight :: "transaction \<Rightarrow> bool" where
  "in_flight t \<longleftrightarrow> tx_state t \<noteq> Free"

section \<open>Operations\<close>

definition xorshift32 :: "u32 \<Rightarrow> u32" where
  "xorshift32 seed =
     (let x0 = (if seed \<noteq> 0 then seed else 0x2545F491);
          x1 = x0 XOR push_bit 13 x0;
          x2 = x1 XOR drop_bit 17 x1
      in x2 XOR push_bit 5 x2)"

definition computeInitialTimeoutMs :: "config \<Rightarrow> u32 \<Rightarrow> u32" where
  "computeInitialTimeoutMs cfg seed =
     (let x = xorshift32 seed;
          base = ack_timeout_ms cfg;
          upper = (base * ack_random_num cfg) div ack_random_den cfg;
          span = (if upper > base then upper - base else 0)
      in if span > 0 then base + (x mod span) else base)"

definition fill_transaction ::
    "config \<Rightarrow> endpoint \<Rightarrow> u16 \<Rightarrow> bytes \<Rightarrow> bytes \<Rightarrow> u32 \<Rightarrow> transaction \<Rightarrow> transaction" where
  "fill_transaction cfg remote messageId token message nowMs t =
     (let timeout = computeInitialTimeoutMs cfg (ucast messageId)
      in t\<lparr>tx_state := AwaitingAck, tx_remote := remote, tx_messageId := messageId,
           tx_token := token, tx_retriesSent := 0, tx_currentTimeoutMs := timeout,
           tx_nextRetryAtMs := nowMs + timeout, tx_message := message\<rparr>)"

definition tx_start ::
    "config \<Rightarrow> endpoint \<Rightarrow> u16 \<Rightarrow> bytes \<Rightarrow> bytes \<Rightarrow> u32 \<Rightarrow> pool \<Rightarrow> nat option \<times> pool" where
  "tx_start cfg remote messageId token message nowMs slots =
     (if max_token_len cfg < length token then (None, slots)
      else if max_msg_size cfg < length message then (None, slots)
      else case claim_slot in_flight (fill_transaction cfg remote messageId token message nowMs) slots of
             None \<Rightarrow> (None, slots)
           | Some (i, slots') \<Rightarrow> (Some i, slots'))"

definition matches_id :: "endpoint \<Rightarrow> u16 \<Rightarrow> transaction \<Rightarrow> bool" where
  "matches_id remote messageId t \<longleftrightarrow>
     tx_state t = AwaitingAck \<and> ep_eq (tx_remote t) remote \<and> tx_messageId t = messageId"

definition matches_token :: "endpoint \<Rightarrow> bytes \<Rightarrow> transaction \<Rightarrow> bool" where
  "matches_token remote token t \<longleftrightarrow>
     tx_state t = AwaitingAck \<and> ep_eq (tx_remote t) remote \<and> tx_token t = token"

definition free_transaction :: "transaction \<Rightarrow> transaction" where
  "free_transaction t = t\<lparr>tx_state := Free\<rparr>"

definition tx_complete :: "endpoint \<Rightarrow> u16 \<Rightarrow> pool \<Rightarrow> bool \<times> pool" where
  "tx_complete remote messageId slots =
     (case first_slot (matches_id remote messageId) slots of
        None \<Rightarrow> (False, slots)
      | Some i \<Rightarrow> (True, slots[i := free_transaction (slots ! i)]))"

definition tx_completeByToken :: "endpoint \<Rightarrow> bytes \<Rightarrow> pool \<Rightarrow> bool \<times> pool" where
  "tx_completeByToken remote token slots =
     (case first_slot (matches_token remote token) slots of
        None \<Rightarrow> (False, slots)
      | Some i \<Rightarrow> (True, slots[i := free_transaction (slots ! i)]))"

definition tx_getToken :: "endpoint \<Rightarrow> u16 \<Rightarrow> pool \<Rightarrow> bytes option" where
  "tx_getToken remote messageId slots =
     (case first_slot (matches_id remote messageId) slots of
        None \<Rightarrow> None
      | Some i \<Rightarrow> Some (tx_token (slots ! i)))"

definition tx_activeCount :: "pool \<Rightarrow> u8" where
  "tx_activeCount slots = of_nat (occupancy in_flight slots)"

text \<open>
  \<^verbatim>\<open>tick\<close> runs with two callbacks into the object that owns the pool. The owner is the state
  \<open>'s\<close>; \<open>get\<close> and \<open>put_pool\<close> are its pool member, so a callback may change the pool
  the loop is walking, as in the source.
\<close>

definition retry_due :: "u32 \<Rightarrow> transaction \<Rightarrow> bool" where
  "retry_due nowMs t \<longleftrightarrow> \<not> (sint (tx_nextRetryAtMs t - nowMs) > 0)"

definition tick_slot ::
    "config \<Rightarrow> ('s \<Rightarrow> pool) \<Rightarrow> (pool \<Rightarrow> 's \<Rightarrow> 's) \<Rightarrow> (endpoint \<Rightarrow> bytes \<Rightarrow> 's \<Rightarrow> 's) \<Rightarrow>
     (endpoint \<Rightarrow> bytes \<Rightarrow> 's \<Rightarrow> 's) \<Rightarrow> u32 \<Rightarrow> nat \<Rightarrow> 's \<Rightarrow> 's" where
  "tick_slot cfg get put_pool resend onTimeout nowMs i s =
     (let t = get s ! i
      in if tx_state t \<noteq> AwaitingAck then s
         else if \<not> retry_due nowMs t then s
         else if unat (tx_retriesSent t) < max_retransmit cfg then
           (let timeout = tx_currentTimeoutMs t * 2;
                t' = t\<lparr>tx_retriesSent := tx_retriesSent t + 1,
                       tx_currentTimeoutMs := timeout,
                       tx_nextRetryAtMs := nowMs + timeout\<rparr>
            in resend (tx_remote t') (tx_message t') (put_pool ((get s)[i := t']) s))
         else
           onTimeout (tx_remote t) (tx_token t)
             (put_pool ((get s)[i := free_transaction t]) s))"

definition tx_tick ::
    "config \<Rightarrow> ('s \<Rightarrow> pool) \<Rightarrow> (pool \<Rightarrow> 's \<Rightarrow> 's) \<Rightarrow> (endpoint \<Rightarrow> bytes \<Rightarrow> 's \<Rightarrow> 's) \<Rightarrow>
     (endpoint \<Rightarrow> bytes \<Rightarrow> 's \<Rightarrow> 's) \<Rightarrow> u32 \<Rightarrow> 's \<Rightarrow> 's" where
  "tx_tick cfg get put_pool resend onTimeout nowMs s =
     fold (tick_slot cfg get put_pool resend onTimeout nowMs) [0..<length (get s)] s"

section \<open>The pool as a slot table\<close>

interpretation tx_table: slot_table in_flight
    "\<lambda>(cfg, remote, messageId, token, message, nowMs).
       fill_transaction cfg remote messageId token message nowMs" free_transaction
  by unfold_locales
    (auto simp: in_flight_def fill_transaction_def free_transaction_def Let_def)

lemma tx_start_cases:
  assumes "tx_start cfg remote mid token msg now slots = (r, slots')"
  obtains (refused) "r = None" "slots' = slots"
        "max_token_len cfg < length token \<or> max_msg_size cfg < length msg \<or>
         occupancy in_flight slots = length slots"
  | (started) i where "r = Some i" "i < length slots" "\<not> in_flight (slots ! i)"
        "slots' = slots[i := fill_transaction cfg remote mid token msg now (slots ! i)]"
        "length token \<le> max_token_len cfg" "length msg \<le> max_msg_size cfg"
        "occupancy in_flight slots' = Suc (occupancy in_flight slots)"
proof -
  let ?fill = "fill_transaction cfg remote mid token msg now"
  consider (big) "max_token_len cfg < length token \<or> max_msg_size cfg < length msg"
    | (full) "length token \<le> max_token_len cfg" "length msg \<le> max_msg_size cfg"
        "claim_slot in_flight ?fill slots = None"
    | (ok) i ys where "length token \<le> max_token_len cfg" "length msg \<le> max_msg_size cfg"
        "claim_slot in_flight ?fill slots = Some (i, ys)"
    by (metis not_less old.prod.exhaust option.exhaust)
  then show thesis
  proof cases
    case big
    with assms refused show thesis by (auto simp: tx_start_def split: if_splits)
  next
    case full
    with assms refused show thesis by (auto simp: tx_start_def claim_slot_None_iff)
  next
    case ok
    note c = claim_slot_SomeD [OF ok(3)]
    have "occupancy in_flight ys = Suc (occupancy in_flight slots)"
      using tx_table.claim_occupancy [of "(cfg, remote, mid, token, msg, now)"] ok(3) by simp
    with assms ok c started [of i] show thesis by (simp add: tx_start_def)
  qed
qed

lemma length_tx_start [len_simps]: "length (snd (tx_start cfg r mid tok msg now slots)) = length slots"
  by (auto simp: tx_start_def claim_slot_def split: option.splits)

lemma length_tx_complete [len_simps]: "length (snd (tx_complete r mid slots)) = length slots"
  by (auto simp: tx_complete_def split: option.splits)

lemma length_tx_completeByToken [len_simps]:
  "length (snd (tx_completeByToken r tok slots)) = length slots"
  by (auto simp: tx_completeByToken_def split: option.splits)

section \<open>One transaction under the clock\<close>

datatype tick_event = Quiet | Resent | GaveUp

definition tick_tx :: "config \<Rightarrow> u32 \<Rightarrow> transaction \<Rightarrow> transaction \<times> tick_event" where
  "tick_tx cfg nowMs t =
     (if \<not> in_flight t \<or> \<not> retry_due nowMs t then (t, Quiet)
      else if unat (tx_retriesSent t) < max_retransmit cfg then
        (t\<lparr>tx_retriesSent := tx_retriesSent t + 1,
           tx_currentTimeoutMs := tx_currentTimeoutMs t * 2,
           tx_nextRetryAtMs := nowMs + tx_currentTimeoutMs t * 2\<rparr>, Resent)
      else (free_transaction t, GaveUp))"

lemma in_flight_iff: "in_flight t \<longleftrightarrow> tx_state t = AwaitingAck"
  by (cases "tx_state t") (auto simp: in_flight_def)

lemma tick_tx_static [simp]:
  "tx_remote (fst (tick_tx cfg now t)) = tx_remote t"
  "tx_message (fst (tick_tx cfg now t)) = tx_message t"
  "tx_token (fst (tick_tx cfg now t)) = tx_token t"
  "tx_messageId (fst (tick_tx cfg now t)) = tx_messageId t"
  by (auto simp: tick_tx_def free_transaction_def)

lemma tick_slot_tick_tx:
  "tick_slot cfg get put_pool resend onTimeout now i s =
     (let t = get s ! i
      in case tick_tx cfg now t of
           (t', Quiet) \<Rightarrow> s
         | (t', Resent) \<Rightarrow> resend (tx_remote t) (tx_message t) (put_pool ((get s)[i := t']) s)
         | (t', GaveUp) \<Rightarrow> onTimeout (tx_remote t) (tx_token t) (put_pool ((get s)[i := t']) s))"
  by (auto simp: tick_slot_def tick_tx_def Let_def in_flight_iff)

section \<open>Owners of a pool\<close>

text \<open>
  The contract between \<^verbatim>\<open>tick\<close> and the object that owns the pool: the pool member is read
  and written as a field, resending does not touch it, and a timeout callback keeps the
  number of slots. Under it an invariant that every step of the loop keeps survives a tick.
\<close>

locale pool_owner =
  fixes get :: "'s \<Rightarrow> pool"
    and put_pool :: "pool \<Rightarrow> 's \<Rightarrow> 's"
    and resend :: "endpoint \<Rightarrow> bytes \<Rightarrow> 's \<Rightarrow> 's"
    and onTimeout :: "endpoint \<Rightarrow> bytes \<Rightarrow> 's \<Rightarrow> 's"
  assumes get_put: "get (put_pool p s) = p"
    and resend_pool: "get (resend r m s) = get s"
    and timeout_length: "length (get (onTimeout r tok s)) = length (get s)"
begin

lemma tick_slot_length:
  "length (get (tick_slot cfg get put_pool resend onTimeout now i s)) = length (get s)"
  by (auto simp: tick_slot_tick_tx Let_def get_put resend_pool timeout_length
      split: prod.split tick_event.split)

lemma tick_inv:
  assumes init: "I s"
    and step: "\<And>i s t. I s \<Longrightarrow> i < length (get s) \<Longrightarrow> tick_tx cfg now (get s ! i) = (t, Resent) \<Longrightarrow>
        I (resend (tx_remote (get s ! i)) (tx_message (get s ! i)) (put_pool ((get s)[i := t]) s))"
    and stop: "\<And>i s t. I s \<Longrightarrow> i < length (get s) \<Longrightarrow> tick_tx cfg now (get s ! i) = (t, GaveUp) \<Longrightarrow>
        I (onTimeout (tx_remote (get s ! i)) (tx_token (get s ! i)) (put_pool ((get s)[i := t]) s))"
  shows "I (tx_tick cfg get put_pool resend onTimeout now s)"
proof -
  let ?n = "length (get s)"
  have "I (fold (tick_slot cfg get put_pool resend onTimeout now) [0..<?n] s) \<and>
        length (get (fold (tick_slot cfg get put_pool resend onTimeout now) [0..<?n] s)) = ?n"
  proof (rule fold_inv)
    fix i s'
    assume "i \<in> set [0..<?n]" and inv: "I s' \<and> length (get s') = ?n"
    then have "i < length (get s')" by simp
    with inv show "I (tick_slot cfg get put_pool resend onTimeout now i s') \<and>
        length (get (tick_slot cfg get put_pool resend onTimeout now i s')) = ?n"
      by (auto simp: tick_slot_tick_tx Let_def get_put resend_pool timeout_length
          intro!: step stop split: prod.split tick_event.split)
  qed (use init in simp)
  then show ?thesis by (simp add: tx_tick_def)
qed

end

text \<open>
  An owner whose timeout callback leaves the pool alone. Then a tick is the same step on
  every slot, independent of the order of the slots.
\<close>

locale quiet_pool_owner = pool_owner +
  assumes timeout_pool: "get (onTimeout r tok s) = get s"
begin

lemma tick_slot_pool:
  assumes "i < length (get s)"
  shows "get (tick_slot cfg get put_pool resend onTimeout now i s) =
    (get s)[i := fst (tick_tx cfg now (get s ! i))]"
proof (cases "tick_tx cfg now (get s ! i)")
  case (Pair t' e)
  moreover have "e = Quiet \<Longrightarrow> t' = get s ! i"
    using Pair by (auto simp: tick_tx_def split: if_splits)
  ultimately show ?thesis
    by (cases e) (auto simp: tick_slot_tick_tx Let_def get_put resend_pool timeout_pool)
qed

lemma tick_prefix_pool:
  "n \<le> length (get s) \<Longrightarrow>
   get (fold (tick_slot cfg get put_pool resend onTimeout now) [0..<n] s) =
     map (\<lambda>t. fst (tick_tx cfg now t)) (take n (get s)) @ drop n (get s)"
proof (induction n)
  case 0
  then show ?case by simp
next
  case (Suc n)
  let ?s = "fold (tick_slot cfg get put_pool resend onTimeout now) [0..<n] s"
  have IH: "get ?s = map (\<lambda>t. fst (tick_tx cfg now t)) (take n (get s)) @ drop n (get s)"
    using Suc by simp
  then have nth: "get ?s ! n = get s ! n" and len: "length (get ?s) = length (get s)"
    using Suc.prems by (simp_all add: nth_append min_def)
  have d: "drop n (get s) = get s ! n # drop (Suc n) (get s)"
    using Suc.prems by (simp add: Cons_nth_drop_Suc)
  have t: "take (Suc n) (get s) = take n (get s) @ [get s ! n]"
    using Suc.prems by (simp add: take_Suc_conv_app_nth)
  have "get (fold (tick_slot cfg get put_pool resend onTimeout now) [0..<Suc n] s) =
      (get ?s)[n := fst (tick_tx cfg now (get s ! n))]"
    using tick_slot_pool [of n ?s] Suc.prems len nth by simp
  then show ?case
    using Suc.prems by (simp add: IH d t list_update_append min_def)
qed

lemma tick_pool:
  "get (tx_tick cfg get put_pool resend onTimeout now s) =
     map (\<lambda>t. fst (tick_tx cfg now t)) (get s)"
  using tick_prefix_pool [of "length (get s)" s] by (simp add: tx_tick_def)

end

text \<open>
  What an owner has handed to the network: with an observation that resending extends and
  nothing else changes, a tick sends the stored bytes of exactly the slots that are due
  for a retransmission, in slot order.
\<close>

definition tick_resends :: "config \<Rightarrow> u32 \<Rightarrow> transaction \<Rightarrow> (endpoint \<times> bytes) list" where
  "tick_resends cfg now t =
     (if snd (tick_tx cfg now t) = Resent then [(tx_remote t, tx_message t)] else [])"

locale sending_pool_owner = quiet_pool_owner +
  fixes sent :: "'a \<Rightarrow> (endpoint \<times> bytes) list"
  assumes sent_put: "sent (put_pool p s) = sent s"
    and sent_resend: "sent (resend r m s) = sent s @ [(r, m)]"
    and sent_timeout: "sent (onTimeout r tok s) = sent s"
begin

lemma tick_slot_sent:
  "sent (tick_slot cfg get put_pool resend onTimeout now i s) =
     sent s @ tick_resends cfg now (get s ! i)"
  by (auto simp: tick_slot_tick_tx tick_resends_def Let_def sent_put sent_resend sent_timeout
      split: prod.split tick_event.split)

lemma tick_prefix_sent:
  "n \<le> length (get s) \<Longrightarrow>
   sent (fold (tick_slot cfg get put_pool resend onTimeout now) [0..<n] s) =
     sent s @ concat (map (tick_resends cfg now) (take n (get s)))"
proof (induction n)
  case 0
  then show ?case by simp
next
  case (Suc n)
  let ?s = "fold (tick_slot cfg get put_pool resend onTimeout now) [0..<n] s"
  have "get ?s ! n = get s ! n"
    using Suc.prems by (simp add: tick_prefix_pool nth_append min_def)
  moreover have "take (Suc n) (get s) = take n (get s) @ [get s ! n]"
    using Suc.prems by (simp add: take_Suc_conv_app_nth)
  ultimately show ?case using Suc by (simp add: tick_slot_sent)
qed

lemma tick_sent:
  "sent (tx_tick cfg get put_pool resend onTimeout now s) =
     sent s @ concat (map (tick_resends cfg now) (get s))"
  using tick_prefix_sent [of "length (get s)" s] by (simp add: tx_tick_def)

end

end
