(* ===== verification/Coap_Reliability.thy ===== *)
theory Coap_Reliability
  imports Coap_Transaction
begin

text \<open>
  The reliability layer over time: the jittered initial timeout, the invariant of a slot,
  clock comparison across the wrap of the 32-bit counter, and the retransmission schedule
  of RFC 7252 section 4.8 with true (unbounded) times.
\<close>

section \<open>The initial timeout\<close>

definition timeout_upper :: "config \<Rightarrow> u32" where
  "timeout_upper cfg = (ack_timeout_ms cfg * ack_random_num cfg) div ack_random_den cfg"

lemma computeInitialTimeoutMs_range:
  "ack_timeout_ms cfg \<le> computeInitialTimeoutMs cfg seed \<and>
   computeInitialTimeoutMs cfg seed \<le> max (ack_timeout_ms cfg) (timeout_upper cfg - 1)"
proof (cases "timeout_upper cfg > ack_timeout_ms cfg")
  case True
  let ?b = "ack_timeout_ms cfg" and ?u = "timeout_upper cfg" and ?x = "xorshift32 seed"
  let ?r = "?x mod (?u - ?b)"
  from True have "?b \<le> ?u" "unat ?b < unat ?u" by (simp_all add: word_less_nat_alt word_le_nat_alt)
  then have span: "unat (?u - ?b) = unat ?u - unat ?b" "0 < unat ?u - unat ?b"
    by (simp_all add: unat_sub)
  then have "unat ?r < unat ?u - unat ?b" by (simp add: unat_mod)
  moreover have "unat ?u < 2 ^ 32" using unsigned_less [of ?u] by simp
  ultimately have sum: "unat (?b + ?r) = unat ?b + unat ?r" "unat ?b + unat ?r < unat ?u"
    by (simp_all add: unat_word_ariths)
  have "?u - ?b > 0" using span by (simp add: word_less_nat_alt)
  then have "computeInitialTimeoutMs cfg seed = ?b + ?r"
    using True by (simp add: computeInitialTimeoutMs_def timeout_upper_def Let_def)
  moreover have "unat (?u - 1) = unat ?u - 1"
    using True by (simp add: unat_sub word_less_nat_alt word_le_nat_alt)
  ultimately show ?thesis using sum by (auto simp: word_le_nat_alt max_def)
next
  case False
  then show ?thesis by (simp add: computeInitialTimeoutMs_def timeout_upper_def Let_def)
qed

text \<open>
  The knobs keep the backoff inside the signed comparison: the longest timeout is less
  than half the clock's range.
\<close>

definition backoff_fits :: "config \<Rightarrow> bool" where
  "backoff_fits cfg \<longleftrightarrow>
     0 < unat (ack_timeout_ms cfg) \<and> max_retransmit cfg \<le> 255 \<and>
     max (unat (ack_timeout_ms cfg)) (unat (timeout_upper cfg)) * 2 ^ max_retransmit cfg < 2 ^ 31"

lemma default_backoff_fits: "backoff_fits default_config"
  by (simp add: backoff_fits_def default_config_def timeout_upper_def)

definition first_timeout :: "config \<Rightarrow> u16 \<Rightarrow> nat" where
  "first_timeout cfg mid = unat (computeInitialTimeoutMs cfg (ucast mid))"

lemma first_timeout_bounds:
  assumes "backoff_fits cfg"
  shows "0 < first_timeout cfg mid" "first_timeout cfg mid * 2 ^ max_retransmit cfg < 2 ^ 31"
proof -
  let ?b = "unat (ack_timeout_ms cfg)" and ?u = "unat (timeout_upper cfg)"
  have r: "?b \<le> first_timeout cfg mid" "first_timeout cfg mid \<le> max ?b (unat (timeout_upper cfg - 1))"
    using computeInitialTimeoutMs_range [of cfg "ucast mid"]
    by (auto simp: first_timeout_def word_le_nat_alt max_def split: if_splits)
  then show "0 < first_timeout cfg mid" using assms by (simp add: backoff_fits_def)
  have "first_timeout cfg mid \<le> max ?b ?u"
  proof (cases "timeout_upper cfg > ack_timeout_ms cfg")
    case True
    then have "unat (timeout_upper cfg - 1) \<le> ?u"
      by (simp add: unat_sub word_less_nat_alt word_le_nat_alt)
    with r show ?thesis by auto
  next
    case False
    then show ?thesis
      by (simp add: first_timeout_def computeInitialTimeoutMs_def timeout_upper_def Let_def)
  qed
  then have "first_timeout cfg mid * 2 ^ max_retransmit cfg \<le> max ?b ?u * 2 ^ max_retransmit cfg"
    by simp
  with assms show "first_timeout cfg mid * 2 ^ max_retransmit cfg < 2 ^ 31"
    unfolding backoff_fits_def by linarith
qed

section \<open>The invariant of a slot\<close>

definition wf_tx :: "config \<Rightarrow> transaction \<Rightarrow> bool" where
  "wf_tx cfg t \<longleftrightarrow> (in_flight t \<longrightarrow>
     unat (tx_retriesSent t) \<le> max_retransmit cfg \<and>
     length (tx_token t) \<le> max_token_len cfg \<and>
     length (tx_message t) \<le> max_msg_size cfg \<and>
     tx_currentTimeoutMs t =
       computeInitialTimeoutMs cfg (ucast (tx_messageId t)) * 2 ^ unat (tx_retriesSent t))"

definition wf_pool :: "config \<Rightarrow> pool \<Rightarrow> bool" where
  "wf_pool cfg p \<longleftrightarrow> length p = max_transactions cfg \<and> list_all (wf_tx cfg) p"

lemma wf_tx_free [simp]: "wf_tx cfg (free_transaction t)"
  by (simp add: wf_tx_def free_transaction_def in_flight_def)

lemma wf_tx_fill:
  "length tok \<le> max_token_len cfg \<Longrightarrow> length msg \<le> max_msg_size cfg \<Longrightarrow>
   wf_tx cfg (fill_transaction cfg r mid tok msg now t)"
  by (simp add: wf_tx_def fill_transaction_def Let_def)

lemma wf_tx_tick:
  assumes "wf_tx cfg t" "max_retransmit cfg \<le> 255"
  shows "wf_tx cfg (fst (tick_tx cfg now t))"
proof -
  have "unat (tx_retriesSent t + 1) = unat (tx_retriesSent t) + 1"
    if "unat (tx_retriesSent t) < max_retransmit cfg"
    using that assms(2) by (simp add: unat_word_ariths)
  with assms(1) show ?thesis
    by (auto simp: tick_tx_def wf_tx_def in_flight_def free_transaction_def)
qed

lemma wf_pool_reset: "wf_pool cfg (reset_pool cfg)"
  by (simp add: wf_pool_def reset_pool_def list_all_iff wf_tx_def empty_transaction_def in_flight_def)

lemma wf_pool_start:
  assumes "wf_pool cfg p"
  shows "wf_pool cfg (snd (tx_start cfg r mid tok msg now p))"
proof (cases "tx_start cfg r mid tok msg now p")
  case (Pair res p')
  then show ?thesis
    by (cases rule: tx_start_cases)
      (use assms Pair in \<open>auto simp: wf_pool_def intro: list_all_update wf_tx_fill\<close>)
qed

lemma wf_pool_complete: "wf_pool cfg p \<Longrightarrow> wf_pool cfg (snd (tx_complete r mid p))"
  by (auto simp: tx_complete_def wf_pool_def intro: list_all_update split: option.split)

lemma wf_pool_completeByToken: "wf_pool cfg p \<Longrightarrow> wf_pool cfg (snd (tx_completeByToken r tok p))"
  by (auto simp: tx_completeByToken_def wf_pool_def intro: list_all_update split: option.split)

lemma wf_pool_tick_update:
  "wf_pool cfg p \<Longrightarrow> max_retransmit cfg \<le> 255 \<Longrightarrow> i < length p \<Longrightarrow>
   wf_pool cfg (p[i := fst (tick_tx cfg now (p ! i))])"
  by (auto simp: wf_pool_def intro!: list_all_update wf_tx_tick elim: list_all_nth)

section \<open>Comparing clock values across the wrap\<close>

lemma sint_word_of_int_small:
  assumes "- (2 ^ 31) \<le> k" "k < 2 ^ 31"
  shows "sint (word_of_int k :: u32) = k"
  using assms by (simp add: signed_of_int signed_take_bit_int_eq_self)

lemma retry_due_time:
  assumes "tx_nextRetryAtMs t = of_nat D" "D < n + 2 ^ 31" "n < D + 2 ^ 31"
  shows "retry_due (of_nat n) t \<longleftrightarrow> D \<le> n"
proof -
  have "(of_nat D :: u32) - of_nat n = word_of_int (int D - int n)"
    by simp
  moreover have "sint (word_of_int (int D - int n) :: u32) = int D - int n"
    using assms(2,3) by (intro sint_word_of_int_small) auto
  ultimately show ?thesis using assms(1) by (auto simp: retry_due_def)
qed

section \<open>The retransmission schedule\<close>

text \<open>
  A transaction ticked at the true times \<open>ns\<close> (milliseconds since boot, without wrap), of
  which the code sees the low 32 bits.
\<close>

fun tick_run :: "config \<Rightarrow> nat list \<Rightarrow> transaction \<Rightarrow> transaction \<times> (nat \<times> tick_event) list" where
  "tick_run cfg [] t = (t, [])"
| "tick_run cfg (n # ns) t =
     (let (t1, e) = tick_tx cfg (of_nat n) t; (t2, es) = tick_run cfg ns t1
      in (t2, (n, e) # es))"

text \<open>The polling times: increasing from \<open>n0\<close>, never more than \<open>G\<close> apart.\<close>

fun polled :: "nat \<Rightarrow> nat \<Rightarrow> nat list \<Rightarrow> bool" where
  "polled G n0 [] \<longleftrightarrow> True"
| "polled G n0 (n # ns) \<longleftrightarrow> n0 \<le> n \<and> n \<le> n0 + G \<and> polled G n ns"

definition resends :: "(nat \<times> tick_event) list \<Rightarrow> nat" where
  "resends es = length (filter (\<lambda>(n, e). e = Resent) es)"

text \<open>
  What holds between ticks of a slot in flight with first timeout \<open>b\<close>, started at \<open>T\<close>,
  last ticked at \<open>n0\<close>, with true deadline \<open>D\<close> and \<open>r\<close> retransmissions sent.
\<close>

definition scheduled ::
    "config \<Rightarrow> nat \<Rightarrow> nat \<Rightarrow> nat \<Rightarrow> nat \<Rightarrow> nat \<Rightarrow> nat \<Rightarrow> transaction \<Rightarrow> bool" where
  "scheduled cfg b T G n0 D r t \<longleftrightarrow>
     in_flight t \<and> unat (tx_retriesSent t) = r \<and> r \<le> max_retransmit cfg \<and>
     unat (tx_currentTimeoutMs t) = b * 2 ^ r \<and> tx_nextRetryAtMs t = of_nat D \<and>
     n0 < D \<and> D \<le> n0 + b * 2 ^ r \<and>
     T + b * (2 ^ Suc r - 1) \<le> D \<and> D \<le> T + b * (2 ^ Suc r - 1) + r * G"

definition give_up_time :: "config \<Rightarrow> nat \<Rightarrow> nat" where
  "give_up_time cfg b = b * (2 ^ Suc (max_retransmit cfg) - 1)"

lemma scheduled_start:
  assumes "backoff_fits cfg"
  shows "scheduled cfg (first_timeout cfg mid) T G T (T + first_timeout cfg mid) 0
           (fill_transaction cfg r mid tok msg (of_nat T) t)"
  using first_timeout_bounds [OF assms, of mid]
  by (simp add: scheduled_def fill_transaction_def Let_def in_flight_def first_timeout_def)

lemma scheduled_tick:
  assumes s: "scheduled cfg b T G n0 D r t"
    and b: "0 < b" "b * 2 ^ max_retransmit cfg < 2 ^ 31" "max_retransmit cfg \<le> 255"
    and n: "n0 \<le> n" "n \<le> n0 + G" "G < 2 ^ 31"
    and tick: "tick_tx cfg (of_nat n) t = (t', e)"
  shows "(e = Quiet \<and> scheduled cfg b T G n D r t') \<or>
         (e = Resent \<and> r < max_retransmit cfg \<and> scheduled cfg b T G n (n + b * 2 ^ Suc r) (Suc r) t') \<or>
         (e = GaveUp \<and> r = max_retransmit cfg \<and> \<not> in_flight t' \<and> T + give_up_time cfg b \<le> n)"
proof -
  have r: "r \<le> max_retransmit cfg" using s by (simp add: scheduled_def)
  have le: "b * 2 ^ k \<le> b * 2 ^ max_retransmit cfg" if "k \<le> max_retransmit cfg" for k
    using that by (simp add: power_increasing)
  have D: "D < n + 2 ^ 31" "n < D + 2 ^ 31"
  proof -
    have "n0 < D" "D \<le> n0 + b * 2 ^ r" using s by (simp_all add: scheduled_def)
    with n b(2) le [OF r] show "D < n + 2 ^ 31" "n < D + 2 ^ 31" by linarith+
  qed
  have due: "retry_due (of_nat n) t \<longleftrightarrow> D \<le> n"
    using s D by (intro retry_due_time) (simp_all add: scheduled_def)
  show ?thesis
  proof (cases "D \<le> n")
    case False
    with s tick due n have "e = Quiet \<and> scheduled cfg b T G n D r t'"
      by (auto simp: tick_tx_def scheduled_def)
    then show ?thesis by simp
  next
    case True
    show ?thesis
    proof (cases "r < max_retransmit cfg")
      case less: True
      have "b * 2 ^ Suc r < 2 ^ 31"
        using le [of "Suc r"] less b(2) by (meson Suc_leI le_less_trans)
      then have "unat (tx_currentTimeoutMs t * 2) = b * 2 ^ Suc r"
        using s by (simp add: scheduled_def unat_word_ariths)
      moreover have "of_nat (unat (tx_currentTimeoutMs t * 2)) = tx_currentTimeoutMs t * 2"
        by simp
      ultimately have tmo: "unat (tx_currentTimeoutMs t * 2) = b * 2 ^ Suc r"
        "tx_currentTimeoutMs t * 2 = of_nat (b * 2 ^ Suc r)"
        by metis+
      have "unat (tx_retriesSent t + 1) = Suc r"
        using s less b(3) by (simp add: scheduled_def unat_word_ariths)
      moreover have "b * (2 ^ Suc (Suc r) - 1) = b * (2 ^ Suc r - 1) + b * 2 ^ Suc r"
        by (simp add: algebra_simps)
      ultimately have "e = Resent \<and> scheduled cfg b T G n (n + b * 2 ^ Suc r) (Suc r) t'"
        using s tick due True less n b(1) tmo
        by (auto simp: tick_tx_def scheduled_def in_flight_def simp del: power_Suc)
      with less show ?thesis by simp
    next
      case False
      with s tick due True r show ?thesis
        by (auto simp: tick_tx_def scheduled_def give_up_time_def free_transaction_def in_flight_def)
    qed
  qed
qed

lemma tick_run_idle:
  "\<not> in_flight t \<Longrightarrow> tick_run cfg ns t = (t, map (\<lambda>n. (n, Quiet)) ns)"
  by (induction ns) (simp_all add: tick_tx_def)

lemma resends_idle [simp]: "resends (map (\<lambda>n. (n, Quiet)) ns) = 0"
  by (auto simp: resends_def filter_empty_conv)

lemma resends_Cons: "resends ((n, e) # es) = (if e = Resent then 1 else 0) + resends es"
  by (simp add: resends_def)

lemma tick_run_schedule:
  assumes "scheduled cfg b T G n0 D r t" "0 < b" "b * 2 ^ max_retransmit cfg < 2 ^ 31"
    "max_retransmit cfg \<le> 255" "polled G n0 ns" "G < 2 ^ 31" "tick_run cfg ns t = (t', es)"
  shows "r + resends es \<le> max_retransmit cfg \<and>
    (\<forall>n. (n, GaveUp) \<in> set es \<longrightarrow>
       T + give_up_time cfg b \<le> n \<and> r + resends es = max_retransmit cfg) \<and>
    (in_flight t' \<longrightarrow> last (n0 # ns) < T + give_up_time cfg b + max_retransmit cfg * G)"
  using assms
proof (induction ns arbitrary: n0 D r t es)
  case Nil
  have "b * (2 ^ Suc r - 1) \<le> give_up_time cfg b"
    using Nil.prems(1) unfolding give_up_time_def scheduled_def
    by (intro mult_left_mono diff_le_mono power_increasing) auto
  moreover have "r * G \<le> max_retransmit cfg * G" "n0 < D"
      "D \<le> T + b * (2 ^ Suc r - 1) + r * G" "r \<le> max_retransmit cfg"
    using Nil.prems(1) by (simp_all add: scheduled_def)
  ultimately have "n0 < T + give_up_time cfg b + max_retransmit cfg * G" by linarith
  with \<open>r \<le> max_retransmit cfg\<close> Nil.prems(7) show ?case by (simp add: resends_def)
next
  case (Cons n ns)
  obtain t1 e where t1: "tick_tx cfg (of_nat n) t = (t1, e)" by fastforce
  obtain es' where run: "tick_run cfg ns t1 = (t', es')" and es: "es = (n, e) # es'"
    using Cons.prems(7) t1 by (auto split: prod.splits)
  have p: "n0 \<le> n" "n \<le> n0 + G" "polled G n ns" using Cons.prems(5) by auto
  from scheduled_tick [OF Cons.prems(1-4) p(1,2) Cons.prems(6) t1]
  show ?case
  proof (elim disjE conjE)
    assume "e = Quiet" "scheduled cfg b T G n D r t1"
    with Cons.IH [OF this(2) Cons.prems(2-4) p(3) Cons.prems(6) run] es
    show ?thesis by (auto simp: resends_Cons)
  next
    assume "e = Resent" "r < max_retransmit cfg"
      "scheduled cfg b T G n (n + b * 2 ^ Suc r) (Suc r) t1"
    with Cons.IH [OF this(3) Cons.prems(2-4) p(3) Cons.prems(6) run] es
    show ?thesis by (auto simp: resends_Cons)
  next
    assume "e = GaveUp" "r = max_retransmit cfg" "\<not> in_flight t1" "T + give_up_time cfg b \<le> n"
    with es run show ?thesis by (auto simp: resends_Cons tick_run_idle)
  qed
qed

end
