(* ===== verification/Props_Reliability.thy ===== *)
theory Props_Reliability
  imports Coap_Reliability
begin

text \<open>The properties of the transaction pool and of the retransmission timer.\<close>

definition peer :: endpoint where
  "peer = empty_endpoint\<lparr>ep_ip := [192, 168, 0, 7], ep_port := 5683\<rparr>"

section \<open>Properties\<close>

text \<open>
  The initial timeout stays in the window of RFC 7252 section 4.2: at least
  ACK_TIMEOUT and below ACK_TIMEOUT * ACK_RANDOM_FACTOR, for every message ID and every
  setting of the knobs (whose product is computed in 32 bits).
\<close>

theorem initial_timeout_window:
  "ack_timeout_ms cfg \<le> computeInitialTimeoutMs cfg seed \<and>
   computeInitialTimeoutMs cfg seed \<le> max (ack_timeout_ms cfg) (timeout_upper cfg - 1)"
  by (rule computeInitialTimeoutMs_range)

text \<open>
  The comparison of clock values survives the wrap of the millisecond counter: when
  deadline and now, as unbounded times, are less than 2^31 ms apart, a slot is due exactly
  when its deadline has passed, whatever their low 32 bits are.
\<close>

theorem retry_due_wrap_safe:
  assumes "tx_nextRetryAtMs t = of_nat D" "D < n + 2 ^ 31" "n < D + 2 ^ 31"
  shows "retry_due (of_nat n) t \<longleftrightarrow> D \<le> n"
  using assms by (rule retry_due_time)

theorem retry_due_wrap_safe_witness:
  "retry_due (of_nat (2 ^ 32 + 5)) (empty_transaction\<lparr>tx_nextRetryAtMs := of_nat (2 ^ 32 - 10)\<rparr>) \<and>
   \<not> retry_due (of_nat (2 ^ 32 - 10)) (empty_transaction\<lparr>tx_nextRetryAtMs := of_nat (2 ^ 32 + 5)\<rparr>)"
  using retry_due_wrap_safe [of "empty_transaction\<lparr>tx_nextRetryAtMs := of_nat (2 ^ 32 - 10)\<rparr>"
      "2 ^ 32 - 10" "2 ^ 32 + 5"]
    retry_due_wrap_safe [of "empty_transaction\<lparr>tx_nextRetryAtMs := of_nat (2 ^ 32 + 5)\<rparr>"
      "2 ^ 32 + 5" "2 ^ 32 - 10"]
  by simp

text \<open>
  C7: the life of an unacknowledged Confirmable message, from \<^verbatim>\<open>start\<close> at time \<open>T\<close> on, polled
  at times at most \<open>G\<close> apart: it is resent at most MAX_RETRANSMIT times; it is given up only
  after all of them and not before \<open>b * (2^(MAX_RETRANSMIT+1) - 1)\<close> ms, \<open>b\<close> being its first
  timeout; and it is still in flight only until that time plus one polling gap per
  retransmission, so it is always given up in the end.
\<close>

theorem retransmission_schedule:
  assumes "backoff_fits cfg" "polled G T ns" "G < 2 ^ 31"
    and "tick_run cfg ns (fill_transaction cfg remote mid token message (of_nat T) t) = (t', es)"
  shows "resends es \<le> max_retransmit cfg \<and>
    (\<forall>n. (n, GaveUp) \<in> set es \<longrightarrow>
       T + give_up_time cfg (first_timeout cfg mid) \<le> n \<and> resends es = max_retransmit cfg) \<and>
    (in_flight t' \<longrightarrow>
       last (T # ns) < T + give_up_time cfg (first_timeout cfg mid) + max_retransmit cfg * G)"
  using tick_run_schedule [OF scheduled_start [OF assms(1)] first_timeout_bounds [OF assms(1)] _
      assms(2,3,4)] assms(1)
  by (simp add: backoff_fits_def)

definition poll_times :: "nat list" where
  "poll_times = [20000, 40000, 60000, 80000, 100000, 120000, 140000, 160000, 180000]"

theorem retransmission_schedule_witness:
  "\<not> in_flight (fst (tick_run default_config poll_times
     (fill_transaction default_config peer 7 [1] [0x41, 1, 0, 7, 1] (of_nat 0) empty_transaction)))"
    (is "\<not> in_flight (fst ?r)")
proof
  assume fl: "in_flight (fst ?r)"
  have "first_timeout default_config 7 < 3000" by code_simp
  then have g: "give_up_time default_config (first_timeout default_config 7) < 93000"
    by (simp add: give_up_time_def default_config_def)
  have "polled 20000 0 poll_times" by (simp add: poll_times_def)
  from retransmission_schedule [OF default_backoff_fits this, where t' = "fst ?r" and es = "snd ?r" and
      mid = 7 and remote = peer and token = "[1]" and message = "[0x41, 1, 0, 7, 1]" and
      t = empty_transaction] fl
  have "last (0 # poll_times) < give_up_time default_config (first_timeout default_config 7) +
      max_retransmit default_config * 20000"
    by simp
  with g show False by (simp add: poll_times_def default_config_def)
qed

text \<open>
  The pool invariant: every operation keeps the number of slots, a retry counter
  within MAX_RETRANSMIT, token and message inside their arrays, and the current timeout
  equal to the first one doubled once per retransmission; the empty pool has it.
\<close>

theorem pool_invariant:
  "wf_pool cfg (reset_pool cfg) \<and>
   (wf_pool cfg p \<longrightarrow>
      wf_pool cfg (snd (tx_start cfg remote mid token message now p)) \<and>
      wf_pool cfg (snd (tx_complete remote mid p)) \<and>
      wf_pool cfg (snd (tx_completeByToken remote token p)) \<and>
      (max_retransmit cfg \<le> 255 \<longrightarrow> wf_pool cfg (map (\<lambda>t. fst (tick_tx cfg now t)) p)))"
proof -
  have "max_retransmit cfg \<le> 255 \<Longrightarrow> wf_pool cfg p \<Longrightarrow>
      wf_pool cfg (map (\<lambda>t. fst (tick_tx cfg now t)) p)"
    by (auto simp: wf_pool_def list_all_iff wf_tx_tick)
  then show ?thesis
    by (simp add: wf_pool_reset wf_pool_start wf_pool_complete wf_pool_completeByToken)
qed

theorem pool_invariant_witness:
  "wf_pool default_config (snd (tx_start default_config peer 7 [1] [0x41, 1, 0, 7, 1] 0
     (reset_pool default_config)))"
  using pool_invariant [of default_config "reset_pool default_config" peer 7 "[1]"
      "[0x41, 1, 0, 7, 1]" 0] by simp

text \<open>
  C28: \<^verbatim>\<open>start\<close> takes exactly one free slot, and refuses exactly when the token or the
  message does not fit or every slot is in flight; it then changes nothing. The new slot is
  armed with the message, no retransmission, and the first deadline.
\<close>

theorem start_exact:
  assumes "tx_start cfg remote mid token message now slots = (r, slots')"
  shows "(r = None \<longleftrightarrow> max_token_len cfg < length token \<or> max_msg_size cfg < length message \<or>
            occupancy in_flight slots = length slots) \<and>
    (r = None \<longrightarrow> slots' = slots) \<and>
    (\<forall>i. r = Some i \<longrightarrow> i < length slots \<and> \<not> in_flight (slots ! i) \<and>
       slots' = slots[i := fill_transaction cfg remote mid token message now (slots ! i)] \<and>
       occupancy in_flight slots' = Suc (occupancy in_flight slots))"
  using assms
proof (cases rule: tx_start_cases)
  case refused
  then show ?thesis by simp
next
  case (started i)
  have "occupancy in_flight slots \<noteq> length slots"
    using started(4,7) occupancy_le [of in_flight slots'] by auto
  with started show ?thesis by auto
qed

theorem start_exact_witness:
  "occupancy in_flight (snd (tx_start default_config peer 7 [1] [0x41, 1, 0, 7, 1] 0
     (reset_pool default_config))) = 1"
proof -
  let ?r = "tx_start default_config peer 7 [1] [0x41, 1, 0, 7, 1] 0 (reset_pool default_config)"
  have o0: "occupancy in_flight (reset_pool default_config) = 0"
    by (simp add: occupancy_def reset_pool_def filter_empty_conv empty_transaction_def in_flight_def)
  have l: "length (reset_pool default_config) = 4" by (simp add: reset_pool_def default_config_def)
  have c: "max_token_len default_config = 8" "max_msg_size default_config = 256"
    by (simp_all add: default_config_def)
  have "?r = (fst ?r, snd ?r)" by simp
  note e = start_exact [OF this, unfolded c o0 l]
  then obtain i where "fst ?r = Some i" by (cases "fst ?r") auto
  with e have "occupancy in_flight (snd ?r) = Suc 0" by blast
  then show ?thesis by (simp only: One_nat_def)
qed

text \<open>
  An acknowledgement frees exactly the transaction it names: \<^verbatim>\<open>complete\<close> succeeds if and
  only if some slot awaits that message ID from that peer; then one slot fewer is in flight,
  the freed slot is the first that matches, and every other slot is as it was.
\<close>

theorem complete_exact:
  "(fst (tx_complete remote mid slots) \<longleftrightarrow> (\<exists>t \<in> set slots. matches_id remote mid t)) \<and>
   (\<not> fst (tx_complete remote mid slots) \<longrightarrow> snd (tx_complete remote mid slots) = slots) \<and>
   (fst (tx_complete remote mid slots) \<longrightarrow>
      (\<exists>i < length slots. matches_id remote mid (slots ! i) \<and>
         (\<forall>j < i. \<not> matches_id remote mid (slots ! j)) \<and>
         snd (tx_complete remote mid slots) = slots[i := free_transaction (slots ! i)] \<and>
         Suc (occupancy in_flight (snd (tx_complete remote mid slots))) = occupancy in_flight slots))"
proof (cases "first_slot (matches_id remote mid) slots")
  case None
  then have "\<forall>t \<in> set slots. \<not> matches_id remote mid t" by (simp add: first_slot_None_iff)
  with None show ?thesis by (simp add: tx_complete_def)
next
  case (Some i)
  note i = first_slot_SomeD [OF Some]
  then have "in_flight (slots ! i)" by (simp add: matches_id_def in_flight_iff)
  then have "Suc (occupancy in_flight (slots[i := free_transaction (slots ! i)])) =
      occupancy in_flight slots"
    using tx_table.release_occupancy i by blast
  moreover have "slots ! i \<in> set slots" using i by simp
  ultimately show ?thesis using i Some by (auto simp: tx_complete_def)
qed

theorem complete_exact_witness:
  "\<not> fst (tx_complete peer 8 (snd (tx_start default_config peer 7 [1] [0x41, 1, 0, 7, 1] 0
     (reset_pool default_config))))"
  (is "\<not> fst (tx_complete peer 8 ?p)")
proof -
  have "list_all (\<lambda>t. \<not> matches_id peer 8 t) ?p" by code_simp
  then show ?thesis using complete_exact [of peer 8 ?p] by (auto simp: list_all_iff)
qed

end
