(* ===== verification/Coap_Server.thy ===== *)
theory Coap_Server
  imports Coap_Uri Coap_Reliability Coap_Blockwise
begin

text \<open>
  \<^verbatim>\<open>PulseCoAPServer.h\<close> and \<^verbatim>\<open>PulseCoAPServer.cpp\<close>: the server role. A resource handler is
  application code: the model takes the environment \<open>env\<close> that runs handler \<open>h\<close> with its
  user context on a request. It may call back into the server, so it is a transformer of the
  server state. An operation that can leave defined behaviour returns \<open>None\<close> there: the
  only such place is the copy of the template parameters in \<^verbatim>\<open>findResource\<close>.
\<close>

section \<open>State\<close>

record path_param =
  pp_name :: bytes
  pp_value :: bytes

definition empty_param :: path_param where
  "empty_param = \<lparr>pp_name = [], pp_value = []\<rparr>"

definition MethodGet :: u8 where "MethodGet = 1"
definition MethodPost :: u8 where "MethodPost = 2"
definition MethodPut :: u8 where "MethodPut = 4"
definition MethodDelete :: u8 where "MethodDelete = 8"

definition kInvalidDeferHandle :: u8 where
  "kInvalidDeferHandle = 0xFF"

record request =
  req_method :: u8
  req_message :: message
  req_remote :: endpoint
  req_deferHandle :: u8
  req_block1Body :: "bytes option"
  req_params :: "path_param list"

definition req_payload :: "request \<Rightarrow> bytes option" where
  "req_payload r = (case req_block1Body r of Some b \<Rightarrow> Some b | None \<Rightarrow> msg_payload (req_message r))"

definition pathParam :: "bytes \<Rightarrow> request \<Rightarrow> bytes option" where
  "pathParam name r =
     (case first_slot (\<lambda>p. pp_name p = name) (req_params r) of
        None \<Rightarrow> None
      | Some i \<Rightarrow> Some (pp_value (req_params r ! i)))"

record response =
  res_code :: u8
  res_contentFormat :: u16
  res_payload :: "bytes option"
  res_deferred :: bool

definition default_response :: response where
  "default_response = \<lparr>res_code = Code_Content, res_contentFormat = CF_TextPlain,
     res_payload = None, res_deferred = False\<rparr>"

datatype resource_handler = WellKnownCore | AppHandler nat

record resource =
  rs_path :: bytes
  rs_methods :: u8
  rs_handler :: resource_handler
  rs_userContext :: nat
  rs_observable :: bool
  rs_isTemplate :: bool
  rs_observeSequence :: u32
  rs_resourceType :: "bytes option"

record observer =
  ob_active :: bool
  ob_resourceIndex :: u8
  ob_remote :: endpoint
  ob_token :: bytes
  ob_lastSentMessageId :: u16

definition empty_observer :: observer where
  "empty_observer = \<lparr>ob_active = False, ob_resourceIndex = 0, ob_remote = empty_endpoint,
     ob_token = [], ob_lastSentMessageId = 0\<rparr>"

record deferred_request =
  df_active :: bool
  df_remote :: endpoint
  df_token :: bytes
  df_wasConfirmable :: bool

definition empty_deferred :: deferred_request where
  "empty_deferred = \<lparr>df_active = False, df_remote = empty_endpoint, df_token = [],
     df_wasConfirmable = False\<rparr>"

record server =
  sv_transport :: transport
  sv_resources :: "resource list"
  sv_observers :: "observer list"
  sv_deferred :: "deferred_request list"
  sv_txPool :: pool
  sv_lastNowMs :: u32
  sv_nextMessageId :: u16
  sv_linkFormat :: bytes
  sv_block1sessions :: "block1_session list"

definition new_server :: "config \<Rightarrow> transport \<Rightarrow> server" where
  "new_server cfg t = \<lparr>sv_transport = t, sv_resources = [],
     sv_observers = replicate (max_observers cfg) empty_observer,
     sv_deferred = replicate (max_deferred cfg) empty_deferred,
     sv_txPool = reset_pool cfg, sv_lastNowMs = 0, sv_nextMessageId = 1, sv_linkFormat = [],
     sv_block1sessions = replicate (max_block1_sessions cfg) empty_block1_session\<rparr>"

text \<open>
  The global variables of the application are the extension of the server's record, of type
  \<open>'w\<close>, which the library does not look at and a handler may change.
\<close>

definition deploy :: "'w \<Rightarrow> server \<Rightarrow> 'w server_scheme" where
  "deploy globals s = server.extend s globals"

lemma deploy_frame [simp]:
  "sv_transport (deploy g s) = sv_transport s" "sv_resources (deploy g s) = sv_resources s"
  "sv_observers (deploy g s) = sv_observers s" "sv_deferred (deploy g s) = sv_deferred s"
  "sv_txPool (deploy g s) = sv_txPool s" "sv_lastNowMs (deploy g s) = sv_lastNowMs s"
  "sv_nextMessageId (deploy g s) = sv_nextMessageId s" "sv_linkFormat (deploy g s) = sv_linkFormat s"
  "sv_block1sessions (deploy g s) = sv_block1sessions s" "server.more (deploy g s) = g"
  by (simp_all add: deploy_def server.defs)

lemma deploy_unit [simp]: "deploy () s = s"
  by (simp add: deploy_def server.defs)

type_synonym 'w handler_env =
  "nat \<Rightarrow> nat \<Rightarrow> request \<Rightarrow> response \<Rightarrow> 'w server_scheme \<Rightarrow> response \<times> 'w server_scheme"

section \<open>URI templates and resource lookup\<close>

definition colon :: u8 where
  "colon = 0x3A"

definition segment_of :: "bytes \<Rightarrow> bytes" where
  "segment_of p = takeWhile (\<lambda>c. c \<noteq> slash) p"

definition after_segment :: "bytes \<Rightarrow> bytes" where
  "after_segment p = dropWhile (\<lambda>c. c \<noteq> slash) p"

lemma after_segment_shorter: "t \<noteq> [] \<Longrightarrow> hd t \<noteq> slash \<Longrightarrow> length (after_segment t) < length t"
  using length_dropWhile_le [of "\<lambda>c. c \<noteq> slash" "tl t"]
  by (cases t) (auto simp: after_segment_def)

definition store_param ::
    "config \<Rightarrow> u8 \<Rightarrow> u8 \<Rightarrow> bytes \<Rightarrow> bytes \<Rightarrow> path_param list option \<Rightarrow> path_param list option" where
  "store_param cfg maxParams count name val params =
     (case params of
        None \<Rightarrow> None
      | Some ps \<Rightarrow>
          if count < maxParams
          then Some (ps[unat count := \<lparr>pp_name = take (max_path_param_len cfg - 1) name,
                                       pp_value = take (max_path_param_len cfg - 1) val\<rparr>])
          else Some ps)"

text \<open>
  \<open>t\<close> and \<open>p\<close> are what the two pointers of the loop still have before them; the output
  is the result, the parameter array (\<open>None\<close> for a null one) and the counter.
\<close>

function matchTemplate_loop ::
    "config \<Rightarrow> u8 \<Rightarrow> bytes \<Rightarrow> bytes \<Rightarrow> path_param list option \<Rightarrow> u8 \<Rightarrow>
     bool \<times> path_param list option \<times> u8" where
  "matchTemplate_loop cfg maxParams t p params count =
     (if t = [] \<and> p = [] then (True, params, count)
      else if t \<noteq> [] \<and> hd t = slash then
        (if p = [] \<or> hd p \<noteq> slash then (False, params, count)
         else matchTemplate_loop cfg maxParams (tl t) (tl p) params count)
      else if t = [] \<or> p = [] then (False, params, count)
      else if hd t = colon then
        (if segment_of p = [] then (False, params, count)
         else matchTemplate_loop cfg maxParams (after_segment t) (after_segment p)
                (store_param cfg maxParams count (tl (segment_of t)) (segment_of p) params)
                (count + 1))
      else if segment_of t \<noteq> segment_of p then (False, params, count)
      else matchTemplate_loop cfg maxParams (after_segment t) (after_segment p) params count)"
  by pat_completeness auto
termination
  by (relation "measure (\<lambda>(cfg, maxParams, t, p, params, count). length t)")
    (auto intro: after_segment_shorter)

declare matchTemplate_loop.simps [simp del]

definition matchTemplate ::
    "config \<Rightarrow> bytes \<Rightarrow> bytes \<Rightarrow> path_param list option \<Rightarrow> bool \<times> path_param list option \<times> u8" where
  "matchTemplate cfg tmpl path params =
     matchTemplate_loop cfg (of_nat (max_path_params cfg)) tmpl path params 0"

datatype find_result = Found nat "path_param list" | NotFound | FindFault

definition tmp_params :: "config \<Rightarrow> path_param list" where
  "tmp_params cfg = replicate (max_path_params cfg) empty_param"

text \<open>
  \<open>want\<close>: whether the caller passes \<^verbatim>\<open>params\<close> and \<^verbatim>\<open>paramCount\<close> (\<^verbatim>\<open>handleRequest\<close>) or null
  pointers (\<^verbatim>\<open>notify\<close>, \<^verbatim>\<open>setResourceType\<close>). With them, \<open>count\<close> entries are copied from the
  local array, which has \<^verbatim>\<open>PULSECOAP_MAX_PATH_PARAMS\<close>.
\<close>

definition findResource :: "config \<Rightarrow> resource list \<Rightarrow> bytes \<Rightarrow> bool \<Rightarrow> find_result" where
  "findResource cfg resources path want =
     (case first_slot (\<lambda>r. \<not> rs_isTemplate r \<and> rs_path r = path) resources of
        Some i \<Rightarrow> Found i []
      | None \<Rightarrow>
          (let tmp = (if want then Some (tmp_params cfg) else None)
           in case first_slot (\<lambda>r. rs_isTemplate r \<and> fst (matchTemplate cfg (rs_path r) path tmp))
                     resources of
                None \<Rightarrow> NotFound
              | Some i \<Rightarrow>
                  (case matchTemplate cfg (rs_path (resources ! i)) path tmp of
                     (_, None, count) \<Rightarrow> Found i []
                   | (_, Some params, count) \<Rightarrow>
                       if max_path_params cfg < unat count then FindFault
                       else Found i (take (unat count) params))))"

fun has_param :: "bytes \<Rightarrow> bool" where
  "has_param (a # b # rest) = (a = slash \<and> b = colon \<or> has_param (b # rest))"
| "has_param _ = False"

section \<open>Resource management\<close>

definition addResource ::
    "config \<Rightarrow> bytes option \<Rightarrow> u8 \<Rightarrow> resource_handler option \<Rightarrow> nat \<Rightarrow> bool \<Rightarrow> 'w server_scheme \<Rightarrow> bool \<times> 'w server_scheme" where
  "addResource cfg path methods handler userContext observable s =
     (case (path, handler) of
        (Some p, Some h) \<Rightarrow>
          if max_resources cfg \<le> length (sv_resources s) then (False, s)
          else (True, s\<lparr>sv_resources := sv_resources s @
                 [\<lparr>rs_path = p, rs_methods = methods, rs_handler = h,
                   rs_userContext = userContext, rs_observable = observable,
                   rs_isTemplate = has_param p, rs_observeSequence = 0,
                   rs_resourceType = None\<rparr>]\<rparr>)
      | _ \<Rightarrow> (False, s))"

definition well_known_core :: bytes where
  "well_known_core = str ''/.well-known/core''"

definition server_begin :: "config \<Rightarrow> u16 \<Rightarrow> 'w server_scheme \<Rightarrow> bool \<times> 'w server_scheme" where
  "server_begin cfg localPort s =
     (if \<not> transport_begin localPort (sv_transport s) then (False, s)
      else let s1 = s\<lparr>sv_linkFormat := []\<rparr>
           in (True, snd (addResource cfg (Some well_known_core) MethodGet (Some WellKnownCore) 0 False s1)))"

definition setResourceType :: "config \<Rightarrow> bytes \<Rightarrow> bytes option \<Rightarrow> 'w server_scheme \<Rightarrow> bool \<times> 'w server_scheme" where
  "setResourceType cfg path rt s =
     (case findResource cfg (sv_resources s) path False of
        Found i _ \<Rightarrow>
          (True, s\<lparr>sv_resources := (sv_resources s)[i := (sv_resources s ! i)\<lparr>rs_resourceType := rt\<rparr>]\<rparr>)
      | _ \<Rightarrow> (False, s))"

section \<open>The link-format body of /.well-known/core\<close>

fun buildLinkFormat_loop :: "nat \<Rightarrow> resource list \<Rightarrow> bool \<Rightarrow> bytes \<Rightarrow> bytes" where
  "buildLinkFormat_loop cap [] first out = out"
| "buildLinkFormat_loop cap (r # rs) first out =
     (if rs_path r = well_known_core then buildLinkFormat_loop cap rs first out
      else if \<not> first \<and> cap \<le> length out + 1 then out
      else
        let out1 = (if first then out else out @ str '','')
        in if cap \<le> length out1 + length (rs_path r) + 2 then out1
           else
             let out2 = out1 @ str ''<'' @ rs_path r @ str ''>'';
                 out3 = (case rs_resourceType r of
                           None \<Rightarrow> out2
                         | Some rt \<Rightarrow>
                             if length out2 + 6 + length rt < cap
                             then out2 @ str '';rt='' @ [0x22] @ rt @ [0x22] else out2);
                 out4 = (if rs_observable r \<and> length out3 + 4 < cap
                         then out3 @ str '';obs'' else out3)
             in buildLinkFormat_loop cap rs False out4)"

definition buildLinkFormat :: "config \<Rightarrow> 'w server_scheme \<Rightarrow> 'w server_scheme" where
  "buildLinkFormat cfg s =
     s\<lparr>sv_linkFormat := buildLinkFormat_loop (max_link_format_len cfg) (sv_resources s) True []\<rparr>"

definition wellKnownCoreHandler :: "config \<Rightarrow> response \<Rightarrow> 'w server_scheme \<Rightarrow> response \<times> 'w server_scheme" where
  "wellKnownCoreHandler cfg res s =
     (let s' = buildLinkFormat cfg s
      in (res\<lparr>res_code := Code_Content, res_contentFormat := CF_LinkFormat,
              res_payload := Some (cstr (sv_linkFormat s'))\<rparr>, s'))"

definition run_handler ::
    "config \<Rightarrow> 'w handler_env \<Rightarrow> resource \<Rightarrow> request \<Rightarrow> 'w server_scheme \<Rightarrow> response \<times> 'w server_scheme" where
  "run_handler cfg env r req s =
     (case rs_handler r of
        WellKnownCore \<Rightarrow> wellKnownCoreHandler cfg default_response s
      | AppHandler h \<Rightarrow> env h (rs_userContext r) req default_response s)"

section \<open>Observers\<close>

definition observes :: "endpoint \<Rightarrow> bytes \<Rightarrow> observer \<Rightarrow> bool" where
  "observes remote token ob \<longleftrightarrow>
     ob_active ob \<and> ep_eq (ob_remote ob) remote \<and> ob_token ob = token"

definition fill_observer :: "u8 \<Rightarrow> endpoint \<Rightarrow> bytes \<Rightarrow> observer \<Rightarrow> observer" where
  "fill_observer resourceIndex remote token ob =
     ob\<lparr>ob_active := True, ob_resourceIndex := resourceIndex, ob_remote := remote,
        ob_token := token\<rparr>"

definition registerObserver ::
    "u8 \<Rightarrow> endpoint \<Rightarrow> bytes \<Rightarrow> observer list \<Rightarrow> observer list" where
  "registerObserver resourceIndex remote token obs =
     (case first_slot (observes remote token) obs of
        Some i \<Rightarrow> obs[i := (obs ! i)\<lparr>ob_resourceIndex := resourceIndex\<rparr>]
      | None \<Rightarrow>
          (case claim_slot ob_active (fill_observer resourceIndex remote token) obs of
             Some (_, obs') \<Rightarrow> obs'
           | None \<Rightarrow> obs))"

definition drop_observer :: "observer \<Rightarrow> observer" where
  "drop_observer ob = ob\<lparr>ob_active := False\<rparr>"

definition removeObserver :: "endpoint \<Rightarrow> bytes \<Rightarrow> observer list \<Rightarrow> observer list" where
  "removeObserver remote token obs =
     map (\<lambda>ob. if observes remote token ob then drop_observer ob else ob) obs"

definition observerCount :: "observer list \<Rightarrow> u8" where
  "observerCount obs = of_nat (occupancy ob_active obs)"

section \<open>Sending\<close>

text \<open>The server ignores the result of \<^verbatim>\<open>send\<close>; a message that does not encode is not sent.\<close>

definition sv_send :: "endpoint \<Rightarrow> bytes \<Rightarrow> 'w server_scheme \<Rightarrow> 'w server_scheme" where
  "sv_send to data s = s\<lparr>sv_transport := snd (transport_send to data (sv_transport s))\<rparr>"

definition send_encoded :: "config \<Rightarrow> message \<Rightarrow> endpoint \<Rightarrow> 'w server_scheme \<Rightarrow> 'w server_scheme" where
  "send_encoded cfg m to s =
     (let buf = encode m (max_msg_size cfg) in if buf \<noteq> [] then sv_send to buf s else s)"

text \<open>
  Type, message ID, token and code of a reply: an ACK with the request's ID for a
  Confirmable request, otherwise a NON with an ID of the server's own.
\<close>

definition reply_message :: "config \<Rightarrow> message \<Rightarrow> u8 \<Rightarrow> 'w server_scheme \<Rightarrow> message \<times> 'w server_scheme" where
  "reply_message cfg request code s =
     (let con = (msg_type request = Confirmable);
          mid = (if con then msg_messageId request else sv_nextMessageId s);
          s' = (if con then s else s\<lparr>sv_nextMessageId := sv_nextMessageId s + 1\<rparr>);
          m0 = reset_message\<lparr>msg_type := (if con then Acknowledgement else NonConfirmable),
                             msg_messageId := mid\<rparr>;
          m1 = snd (setToken cfg (msg_token request) m0)
      in (m1\<lparr>msg_code := code\<rparr>, s'))"

definition add_observe_option :: "config \<Rightarrow> u32 \<Rightarrow> message \<Rightarrow> message" where
  "add_observe_option cfg observeValue m =
     (if 0 \<le> sint observeValue then snd (addOptionUint cfg Opt_Observe observeValue m) else m)"

definition sendPiggybackedResponse ::
    "config \<Rightarrow> message \<Rightarrow> endpoint \<Rightarrow> u8 \<Rightarrow> bytes option \<Rightarrow> u16 \<Rightarrow> u32 \<Rightarrow> 'w server_scheme \<Rightarrow> 'w server_scheme" where
  "sendPiggybackedResponse cfg request to code payload contentFormat observeValue s =
     (let (m0, s') = reply_message cfg request code s;
          m1 = add_observe_option cfg observeValue m0;
          m2 = (case payload of
                  None \<Rightarrow> m1
                | Some p \<Rightarrow>
                    if p = [] then m1
                    else setPayload (Some p)
                           (snd (addOptionUint cfg Opt_ContentFormat (ucast contentFormat) m1)))
      in send_encoded cfg m2 to s')"

definition sendEmptyAck :: "config \<Rightarrow> u16 \<Rightarrow> endpoint \<Rightarrow> 'w server_scheme \<Rightarrow> 'w server_scheme" where
  "sendEmptyAck cfg messageId to s =
     send_encoded cfg (reset_message\<lparr>msg_type := Acknowledgement, msg_code := Code_Empty,
                                     msg_messageId := messageId\<rparr>) to s"

text \<open>An error reply: no payload, no Observe option (the value -1).\<close>

definition send_error :: "config \<Rightarrow> message \<Rightarrow> endpoint \<Rightarrow> u8 \<Rightarrow> 'w server_scheme \<Rightarrow> 'w server_scheme" where
  "send_error cfg request to code s =
     sendPiggybackedResponse cfg request to code None CF_TextPlain (- 1) s"

definition sendBlock2Response ::
    "config \<Rightarrow> message \<Rightarrow> endpoint \<Rightarrow> u8 \<Rightarrow> bytes \<Rightarrow> u16 \<Rightarrow> u32 \<Rightarrow> u32 \<Rightarrow> bool \<Rightarrow> u8 \<Rightarrow>
     'w server_scheme \<Rightarrow> 'w server_scheme" where
  "sendBlock2Response cfg request to code fullPayload contentFormat observeValue num hasMore szx s =
     (let sz = unat (shift_size szx);
          offset = unat num * sz
      in if length fullPayload \<le> offset then s
         else
           let remaining = length fullPayload - offset;
               blockLen = (if remaining > sz then sz else remaining);
               (m0, s') = reply_message cfg request code s;
               m1 = add_observe_option cfg observeValue m0;
               m2 = snd (addOptionUint cfg Opt_ContentFormat (ucast contentFormat) m1);
               m3 = snd (addOptionUint cfg Opt_Block2 (toOptionValue num hasMore szx) m2);
               m4 = setPayload (Some (take blockLen (drop offset fullPayload))) m3
           in send_encoded cfg m4 to s')"

text \<open>The two 2.31 Continue replies of the Block1 path, which differ in the option value.\<close>

definition sendContinue :: "config \<Rightarrow> message \<Rightarrow> endpoint \<Rightarrow> u32 \<Rightarrow> 'w server_scheme \<Rightarrow> 'w server_scheme" where
  "sendContinue cfg request to blockValue s =
     (let (m0, s') = reply_message cfg request Code_Continue s;
          m1 = snd (addOptionUint cfg Opt_Block1 blockValue m0)
      in send_encoded cfg m1 to s')"

section \<open>Notifications\<close>

definition notification_message ::
    "config \<Rightarrow> observer \<Rightarrow> u16 \<Rightarrow> u32 \<Rightarrow> bytes option \<Rightarrow> u16 \<Rightarrow> bool \<Rightarrow> message" where
  "notification_message cfg ob mid seqno payload contentFormat confirmable =
     (let m0 = reset_message\<lparr>msg_type := (if confirmable then Confirmable else NonConfirmable),
                             msg_messageId := mid\<rparr>;
          m1 = snd (setToken cfg (ob_token ob) m0);
          m2 = m1\<lparr>msg_code := Code_Content\<rparr>;
          m3 = snd (addOptionUint cfg Opt_Observe seqno m2);
          m4 = snd (addOptionUint cfg Opt_ContentFormat (ucast contentFormat) m3)
      in setPayload payload m4)"

definition notify_slot ::
    "config \<Rightarrow> nat \<Rightarrow> u32 \<Rightarrow> bytes option \<Rightarrow> u16 \<Rightarrow> bool \<Rightarrow> nat \<Rightarrow> 'w server_scheme \<Rightarrow> 'w server_scheme" where
  "notify_slot cfg idx seqno payload contentFormat confirmable i s =
     (let ob = sv_observers s ! i
      in if \<not> ob_active ob \<or> ob_resourceIndex ob \<noteq> of_nat idx then s
         else
           let mid = sv_nextMessageId s;
               s1 = s\<lparr>sv_observers := (sv_observers s)[i := ob\<lparr>ob_lastSentMessageId := mid\<rparr>],
                      sv_nextMessageId := mid + 1\<rparr>;
               buf = encode (notification_message cfg ob mid seqno payload contentFormat confirmable)
                            (max_msg_size cfg)
           in if buf = [] then s1
              else
                let s2 = sv_send (ob_remote ob) buf s1
                in if confirmable
                   then s2\<lparr>sv_txPool := snd (tx_start cfg (ob_remote ob) mid (ob_token ob) buf
                                               (sv_lastNowMs s2) (sv_txPool s2))\<rparr>
                   else s2)"

definition notify ::
    "config \<Rightarrow> bytes \<Rightarrow> bytes option \<Rightarrow> u16 \<Rightarrow> bool \<Rightarrow> 'w server_scheme \<Rightarrow> bool \<times> 'w server_scheme" where
  "notify cfg path payload contentFormat confirmable s =
     (case findResource cfg (sv_resources s) path False of
        Found idx _ \<Rightarrow>
          (let r = sv_resources s ! idx
           in if \<not> rs_observable r then (False, s)
              else
                let seqno = rs_observeSequence r + 1;
                    s1 = s\<lparr>sv_resources := (sv_resources s)[idx := r\<lparr>rs_observeSequence := seqno\<rparr>]\<rparr>
                in (True, fold (notify_slot cfg idx seqno payload contentFormat confirmable)
                            [0..<length (sv_observers s1)] s1))
      | _ \<Rightarrow> (False, s))"

section \<open>Deferred responses\<close>

definition fill_deferred :: "endpoint \<Rightarrow> message \<Rightarrow> deferred_request \<Rightarrow> deferred_request" where
  "fill_deferred from m d =
     d\<lparr>df_active := True, df_remote := from, df_token := msg_token m,
       df_wasConfirmable := (msg_type m = Confirmable)\<rparr>"

definition release_deferred :: "deferred_request \<Rightarrow> deferred_request" where
  "release_deferred d = d\<lparr>df_active := False\<rparr>"

definition allocateDeferred :: "deferred_request list \<Rightarrow> nat option" where
  "allocateDeferred ds = first_slot (\<lambda>d. \<not> df_active d) ds"

text \<open>Allocation followed by filling the slot, as both request paths do it.\<close>

definition reserve_deferred :: "endpoint \<Rightarrow> message \<Rightarrow> 'w server_scheme \<Rightarrow> nat option \<times> 'w server_scheme" where
  "reserve_deferred from m s =
     (case allocateDeferred (sv_deferred s) of
        None \<Rightarrow> (None, s)
      | Some i \<Rightarrow>
          (Some i, s\<lparr>sv_deferred := (sv_deferred s)[i := fill_deferred from m (sv_deferred s ! i)]\<rparr>))"

definition unreserve_deferred :: "nat option \<Rightarrow> 'w server_scheme \<Rightarrow> 'w server_scheme" where
  "unreserve_deferred idx s =
     (case idx of
        None \<Rightarrow> s
      | Some i \<Rightarrow> s\<lparr>sv_deferred := (sv_deferred s)[i := release_deferred (sv_deferred s ! i)]\<rparr>)"

definition defer_handle :: "nat option \<Rightarrow> u8" where
  "defer_handle idx = (case idx of Some i \<Rightarrow> of_nat i | None \<Rightarrow> kInvalidDeferHandle)"

definition respond ::
    "config \<Rightarrow> u8 \<Rightarrow> u8 \<Rightarrow> bytes option \<Rightarrow> u16 \<Rightarrow> 'w server_scheme \<Rightarrow> bool \<times> 'w server_scheme" where
  "respond cfg handle code payload contentFormat s =
     (if max_deferred cfg \<le> unat handle then (False, s)
      else
        let d = sv_deferred s ! unat handle
        in if \<not> df_active d then (False, s)
           else
             let mid = sv_nextMessageId s;
                 s1 = s\<lparr>sv_nextMessageId := mid + 1\<rparr>;
                 m0 = reset_message\<lparr>msg_type := (if df_wasConfirmable d then Confirmable else NonConfirmable),
                                    msg_messageId := mid\<rparr>;
                 m1 = (snd (setToken cfg (df_token d) m0))\<lparr>msg_code := code\<rparr>;
                 m2 = (case payload of
                         None \<Rightarrow> m1
                       | Some p \<Rightarrow>
                           if p = [] then m1
                           else setPayload (Some p)
                                  (snd (addOptionUint cfg Opt_ContentFormat (ucast contentFormat) m1)));
                 buf = encode m2 (max_msg_size cfg);
                 s2 = (if buf = [] then s1
                       else
                         let s' = sv_send (df_remote d) buf s1
                         in if df_wasConfirmable d
                            then s'\<lparr>sv_txPool := snd (tx_start cfg (df_remote d) mid (df_token d) buf
                                                        (sv_lastNowMs s') (sv_txPool s'))\<rparr>
                            else s');
                 s3 = s2\<lparr>sv_deferred := (sv_deferred s2)[unat handle := release_deferred d]\<rparr>
             in (buf \<noteq> [], s3))"

section \<open>Block1 reassembly sessions\<close>

definition session_matches :: "endpoint \<Rightarrow> bytes \<Rightarrow> block1_session \<Rightarrow> bool" where
  "session_matches remote token b \<longleftrightarrow>
     b1_active b \<and> ep_eq (b1_remote b) remote \<and> b1_token b = token"

definition findBlock1Session :: "endpoint \<Rightarrow> bytes \<Rightarrow> block1_session list \<Rightarrow> nat option" where
  "findBlock1Session remote token bs = first_slot (session_matches remote token) bs"

definition fill_block1 :: "endpoint \<Rightarrow> bytes \<Rightarrow> block1_session \<Rightarrow> block1_session" where
  "fill_block1 remote token b =
     b\<lparr>b1_active := True, b1_remote := remote, b1_token := token, b1_nextExpectedNum := 0,
       b1_buffer := []\<rparr>"

definition allocateBlock1Session ::
    "endpoint \<Rightarrow> bytes \<Rightarrow> block1_session list \<Rightarrow> (nat \<times> block1_session list) option" where
  "allocateBlock1Session remote token bs = claim_slot b1_active (fill_block1 remote token) bs"

definition release_block1 :: "block1_session \<Rightarrow> block1_session" where
  "release_block1 b = b\<lparr>b1_active := False\<rparr>"

definition freeBlock1Session :: "nat \<Rightarrow> 'w server_scheme \<Rightarrow> 'w server_scheme" where
  "freeBlock1Session idx s =
     (if idx < length (sv_block1sessions s)
      then s\<lparr>sv_block1sessions :=
               (sv_block1sessions s)[idx := release_block1 (sv_block1sessions s ! idx)]\<rparr>
      else s)"

section \<open>Request dispatch\<close>

definition requested_mask :: "u8 \<Rightarrow> u8 option" where
  "requested_mask code =
     (if code = Code_Get then Some MethodGet
      else if code = Code_Post then Some MethodPost
      else if code = Code_Put then Some MethodPut
      else if code = Code_Delete then Some MethodDelete
      else None)"

text \<open>
  The Observe step of a GET: the value to send back (-1 for none) and the new state. After
  a registration the first matching observer remembers the message ID of the request.
\<close>

definition stamp_observer :: "endpoint \<Rightarrow> bytes \<Rightarrow> u16 \<Rightarrow> observer list \<Rightarrow> observer list" where
  "stamp_observer remote token mid obs =
     (case first_slot (observes remote token) obs of
        None \<Rightarrow> obs
      | Some i \<Rightarrow> obs[i := (obs ! i)\<lparr>ob_lastSentMessageId := mid\<rparr>])"

definition handle_observe ::
    "nat \<Rightarrow> message \<Rightarrow> endpoint \<Rightarrow> 'w server_scheme \<Rightarrow> u32 \<times> 'w server_scheme" where
  "handle_observe idx m from s =
     (let r = sv_resources s ! idx
      in case findOption Opt_Observe m of
           None \<Rightarrow> (- 1, s)
         | Some opt \<Rightarrow>
             if \<not> (rs_observable r \<and> msg_code m = Code_Get) then (- 1, s)
             else if optionAsUint opt = kObserveRegister then
               (rs_observeSequence r,
                s\<lparr>sv_observers :=
                    stamp_observer from (msg_token m) (msg_messageId m)
                      (registerObserver (of_nat idx) from (msg_token m) (sv_observers s))\<rparr>)
             else (- 1, s\<lparr>sv_observers := removeObserver from (msg_token m) (sv_observers s)\<rparr>))"

definition make_request ::
    "message \<Rightarrow> endpoint \<Rightarrow> nat option \<Rightarrow> bytes option \<Rightarrow> path_param list \<Rightarrow> request" where
  "make_request m from deferIdx body params =
     \<lparr>req_method = msg_code m, req_message = m, req_remote = from,
      req_deferHandle = defer_handle deferIdx, req_block1Body = body, req_params = params\<rparr>"

text \<open>After the handler: a deferred reply leaves its slot active and acknowledges a CON.\<close>

definition finish_deferred :: "config \<Rightarrow> message \<Rightarrow> endpoint \<Rightarrow> 'w server_scheme \<Rightarrow> 'w server_scheme" where
  "finish_deferred cfg m from s =
     (if msg_type m = Confirmable then sendEmptyAck cfg (msg_messageId m) from s else s)"

text \<open>The final block of an upload: the handler runs on the assembled body.\<close>

definition finish_block1 ::
    "config \<Rightarrow> 'w handler_env \<Rightarrow> nat \<Rightarrow> nat \<Rightarrow> path_param list \<Rightarrow> message \<Rightarrow> endpoint \<Rightarrow> u32 \<Rightarrow>
     'w server_scheme \<Rightarrow> 'w server_scheme" where
  "finish_block1 cfg env idx sIdx params m from observeValue s =
     (let (deferIdx, s1) = reserve_deferred from m s;
          body = b1_buffer (sv_block1sessions s1 ! sIdx);
          (res, s2) = run_handler cfg env (sv_resources s1 ! idx)
                        (make_request m from deferIdx (Some body) params) s1;
          s3 = freeBlock1Session sIdx s2
      in if res_deferred res \<and> deferIdx \<noteq> None then finish_deferred cfg m from s3
         else sendPiggybackedResponse cfg m from (res_code res) (res_payload res)
                (res_contentFormat res) observeValue (unreserve_deferred deferIdx s3))"

text \<open>One block for the session in slot \<open>sIdx\<close>.\<close>

definition accept_block1 ::
    "config \<Rightarrow> 'w handler_env \<Rightarrow> nat \<Rightarrow> nat \<Rightarrow> path_param list \<Rightarrow> message \<Rightarrow> endpoint \<Rightarrow> u32 \<Rightarrow>
     block_option \<Rightarrow> 'w server_scheme \<Rightarrow> 'w server_scheme" where
  "accept_block1 cfg env idx sIdx params m from observeValue b1 s =
     (let sess = sv_block1sessions s ! sIdx
      in if blk_num b1 \<noteq> b1_nextExpectedNum sess then
           sendContinue cfg m from (toOptionValue (b1_nextExpectedNum sess - 1) True (blk_szx b1)) s
         else if block1_max_body cfg < length (b1_buffer sess) + msg_payloadLength m then
           send_error cfg m from Code_RequestEntityTooLarge (freeBlock1Session sIdx s)
         else
           let body = b1_buffer sess @ (case msg_payload m of None \<Rightarrow> [] | Some p \<Rightarrow> p);
               sess' = sess\<lparr>b1_buffer := body, b1_nextExpectedNum := b1_nextExpectedNum sess + 1\<rparr>;
               s1 = s\<lparr>sv_block1sessions := (sv_block1sessions s)[sIdx := sess']\<rparr>
           in if blk_m b1 then
                sendContinue cfg m from (toOptionValue (blk_num b1) False (blk_szx b1)) s1
              else finish_block1 cfg env idx sIdx params m from observeValue s1)"

definition handle_block1 ::
    "config \<Rightarrow> 'w handler_env \<Rightarrow> nat \<Rightarrow> path_param list \<Rightarrow> message \<Rightarrow> endpoint \<Rightarrow> u32 \<Rightarrow>
     coap_option \<Rightarrow> 'w server_scheme \<Rightarrow> 'w server_scheme" where
  "handle_block1 cfg env idx params m from observeValue block1Opt s =
     (case fromOption block1Opt of
        None \<Rightarrow> send_error cfg m from Code_BadOption s
      | Some b1 \<Rightarrow>
          (case findBlock1Session from (msg_token m) (sv_block1sessions s) of
             Some sIdx \<Rightarrow> accept_block1 cfg env idx sIdx params m from observeValue b1 s
           | None \<Rightarrow>
               if blk_num b1 \<noteq> 0 then send_error cfg m from Code_RequestEntityIncomplete s
               else
                 (case allocateBlock1Session from (msg_token m) (sv_block1sessions s) of
                    None \<Rightarrow> send_error cfg m from Code_ServiceUnavailable s
                  | Some (sIdx, bs) \<Rightarrow>
                      accept_block1 cfg env idx sIdx params m from observeValue b1
                        (s\<lparr>sv_block1sessions := bs\<rparr>))))"

text \<open>Replying to an ordinary request: in one datagram, or in Block2 slices.\<close>

definition reply_plain ::
    "config \<Rightarrow> message \<Rightarrow> endpoint \<Rightarrow> u32 \<Rightarrow> response \<Rightarrow> 'w server_scheme \<Rightarrow> 'w server_scheme" where
  "reply_plain cfg m from observeValue res s =
     (let whole = sendPiggybackedResponse cfg m from (res_code res) (res_payload res)
                    (res_contentFormat res) observeValue s
      in if enable_blockwise cfg then
           (case res_payload res of
              None \<Rightarrow> whole
            | Some p \<Rightarrow>
                if p = [] then whole
                else
                  let b2 = (case findOption Opt_Block2 m of None \<Rightarrow> None | Some opt \<Rightarrow> fromOption opt);
                      szx = (case b2 of Some b \<Rightarrow> blk_szx b | None \<Rightarrow> block_szx cfg);
                      sz = unat (shift_size szx);
                      num = (case b2 of Some b \<Rightarrow> blk_num b | None \<Rightarrow> 0);
                      offset = unat num * sz
                  in if sz < length p \<or> b2 \<noteq> None then
                       (if length p \<le> offset then send_error cfg m from Code_BadRequest s
                        else sendBlock2Response cfg m from (res_code res) p (res_contentFormat res)
                               observeValue num (sz < length p - offset) szx s)
                     else whole)
         else whole)"

definition handle_plain ::
    "config \<Rightarrow> 'w handler_env \<Rightarrow> nat \<Rightarrow> path_param list \<Rightarrow> message \<Rightarrow> endpoint \<Rightarrow> u32 \<Rightarrow>
     'w server_scheme \<Rightarrow> 'w server_scheme" where
  "handle_plain cfg env idx params m from observeValue s =
     (let (deferIdx, s1) = reserve_deferred from m s;
          (res, s2) = run_handler cfg env (sv_resources s1 ! idx)
                        (make_request m from deferIdx None params) s1
      in if res_deferred res \<and> deferIdx \<noteq> None then finish_deferred cfg m from s2
         else reply_plain cfg m from observeValue res (unreserve_deferred deferIdx s2))"

definition handleRequest ::
    "config \<Rightarrow> 'w handler_env \<Rightarrow> message \<Rightarrow> endpoint \<Rightarrow> 'w server_scheme \<Rightarrow> 'w server_scheme option" where
  "handleRequest cfg env m from s =
     (case joinUriPath m (max_uri_path_len cfg) of
        None \<Rightarrow> Some (send_error cfg m from Code_BadOption s)
      | Some path \<Rightarrow>
          (case findResource cfg (sv_resources s) (cstr path) True of
             FindFault \<Rightarrow> None
           | NotFound \<Rightarrow> Some (send_error cfg m from Code_NotFound s)
           | Found idx params \<Rightarrow>
               (case requested_mask (msg_code m) of
                  None \<Rightarrow> Some (send_error cfg m from Code_NotImplemented s)
                | Some methodBit \<Rightarrow>
                    if rs_methods (sv_resources s ! idx) AND methodBit = 0
                    then Some (send_error cfg m from Code_MethodNotAllowed s)
                    else
                      let (observeValue, s1) = handle_observe idx m from s;
                          block1Opt = findOption Opt_Block1 m
                      in if enable_blockwise cfg \<and> block1Opt \<noteq> None \<and>
                            (msg_code m = Code_Put \<or> msg_code m = Code_Post)
                         then Some (handle_block1 cfg env idx params m from observeValue
                                      (the block1Opt) s1)
                         else Some (handle_plain cfg env idx params m from observeValue s1))))"

section \<open>The poll loop\<close>

definition separateResend :: "endpoint \<Rightarrow> bytes \<Rightarrow> 'w server_scheme \<Rightarrow> 'w server_scheme" where
  "separateResend remote message s = sv_send remote message s"

definition observeTimeout :: "endpoint \<Rightarrow> bytes \<Rightarrow> 'w server_scheme \<Rightarrow> 'w server_scheme" where
  "observeTimeout remote token s =
     s\<lparr>sv_observers := removeObserver remote token (sv_observers s)\<rparr>"

definition put_sv_pool :: "pool \<Rightarrow> 'w server_scheme \<Rightarrow> 'w server_scheme" where
  "put_sv_pool p s = s\<lparr>sv_txPool := p\<rparr>"

definition reset_matches :: "endpoint \<Rightarrow> u16 \<Rightarrow> observer \<Rightarrow> bool" where
  "reset_matches from rstId ob \<longleftrightarrow>
     ob_active ob \<and> ep_eq (ob_remote ob) from \<and> ob_lastSentMessageId ob = rstId"

definition handle_reset :: "endpoint \<Rightarrow> u16 \<Rightarrow> observer list \<Rightarrow> observer list" where
  "handle_reset from rstId obs =
     (case first_slot (reset_matches from rstId) obs of
        None \<Rightarrow> obs
      | Some i \<Rightarrow> obs[i := drop_observer (obs ! i)])"

definition handle_datagram ::
    "config \<Rightarrow> 'w handler_env \<Rightarrow> endpoint \<Rightarrow> bytes \<Rightarrow> 'w server_scheme \<Rightarrow> 'w server_scheme option" where
  "handle_datagram cfg env from data s =
     (if data = [] then Some s
      else case decode cfg data of
             OutOfBounds \<Rightarrow> None
           | DecodeFailed e m \<Rightarrow> Some s
           | Decoded m \<Rightarrow>
               if msg_type m = Reset then
                 Some (s\<lparr>sv_observers := handle_reset from (msg_messageId m) (sv_observers s)\<rparr>)
               else if msg_type m = Acknowledgement then
                 Some (s\<lparr>sv_txPool := snd (tx_complete from (msg_messageId m) (sv_txPool s))\<rparr>)
               else if isMethodCode (msg_code m) then handleRequest cfg env m from s
               else Some s)"

definition server_poll :: "config \<Rightarrow> 'w handler_env \<Rightarrow> u32 \<Rightarrow> 'w server_scheme \<Rightarrow> 'w server_scheme option" where
  "server_poll cfg env nowMs s =
     (let s1 = s\<lparr>sv_lastNowMs := nowMs\<rparr>;
          s2 = tx_tick cfg sv_txPool put_sv_pool separateResend observeTimeout nowMs s1;
          ((from, data), t) = transport_receive (max_msg_size cfg) (sv_transport s2)
      in handle_datagram cfg env from data (s2\<lparr>sv_transport := t\<rparr>))"

end
