(* ===== verification/Coap_Server_Inv.thy ===== *)
theory Coap_Server_Inv
  imports Coap_Server "HOL-Library.Sublist"
begin

text \<open>
  The server's tables: what each operation leaves alone, the interfaces the tables and the
  transaction pool are used through, and the invariant of the server object.
\<close>

section \<open>The tables as slot tables\<close>

interpretation observer_table: slot_table ob_active
    "\<lambda>(resourceIndex, remote, token). fill_observer resourceIndex remote token" drop_observer
  by unfold_locales (auto simp: fill_observer_def drop_observer_def)

interpretation deferred_table: slot_table df_active
    "\<lambda>(from, m). fill_deferred from m" release_deferred
  by unfold_locales (auto simp: fill_deferred_def release_deferred_def)

interpretation block1_table: slot_table b1_active
    "\<lambda>(remote, token). fill_block1 remote token" release_block1
  by unfold_locales (auto simp: fill_block1_def release_block1_def)

section \<open>What sending leaves alone\<close>

lemma sv_send_frame [frame_simps]:
  "sv_resources (sv_send to d s) = sv_resources s"
  "sv_observers (sv_send to d s) = sv_observers s"
  "sv_deferred (sv_send to d s) = sv_deferred s"
  "sv_txPool (sv_send to d s) = sv_txPool s"
  "sv_lastNowMs (sv_send to d s) = sv_lastNowMs s"
  "sv_nextMessageId (sv_send to d s) = sv_nextMessageId s"
  "sv_linkFormat (sv_send to d s) = sv_linkFormat s"
  "sv_block1sessions (sv_send to d s) = sv_block1sessions s"
  "tp_inbox (sv_transport (sv_send to d s)) = tp_inbox (sv_transport s)"
  "tp_sent (sv_transport (sv_send to d s)) = tp_sent (sv_transport s) @ [(to, d)]"
  by (simp_all add: sv_send_def)

lemma send_encoded_frame [frame_simps]:
  "sv_resources (send_encoded cfg m to s) = sv_resources s"
  "sv_observers (send_encoded cfg m to s) = sv_observers s"
  "sv_deferred (send_encoded cfg m to s) = sv_deferred s"
  "sv_txPool (send_encoded cfg m to s) = sv_txPool s"
  "sv_lastNowMs (send_encoded cfg m to s) = sv_lastNowMs s"
  "sv_nextMessageId (send_encoded cfg m to s) = sv_nextMessageId s"
  "sv_linkFormat (send_encoded cfg m to s) = sv_linkFormat s"
  "sv_block1sessions (send_encoded cfg m to s) = sv_block1sessions s"
  "tp_inbox (sv_transport (send_encoded cfg m to s)) = tp_inbox (sv_transport s)"
  by (simp_all add: send_encoded_def Let_def frame_simps)

lemma send_encoded_sent:
  "tp_sent (sv_transport (send_encoded cfg m to s)) =
     tp_sent (sv_transport s) @
       (if encode m (max_msg_size cfg) = [] then [] else [(to, encode m (max_msg_size cfg))])"
  by (simp add: send_encoded_def Let_def frame_simps)

lemma reply_message_frame [frame_simps]:
  "sv_resources (snd (reply_message cfg request code s)) = sv_resources s"
  "sv_observers (snd (reply_message cfg request code s)) = sv_observers s"
  "sv_deferred (snd (reply_message cfg request code s)) = sv_deferred s"
  "sv_txPool (snd (reply_message cfg request code s)) = sv_txPool s"
  "sv_lastNowMs (snd (reply_message cfg request code s)) = sv_lastNowMs s"
  "sv_linkFormat (snd (reply_message cfg request code s)) = sv_linkFormat s"
  "sv_block1sessions (snd (reply_message cfg request code s)) = sv_block1sessions s"
  "sv_transport (snd (reply_message cfg request code s)) = sv_transport s"
  by (simp_all add: reply_message_def Let_def)

lemma sendPiggybackedResponse_frame [frame_simps]:
  "sv_resources (sendPiggybackedResponse cfg m to code p cf obs s) = sv_resources s"
  "sv_observers (sendPiggybackedResponse cfg m to code p cf obs s) = sv_observers s"
  "sv_deferred (sendPiggybackedResponse cfg m to code p cf obs s) = sv_deferred s"
  "sv_txPool (sendPiggybackedResponse cfg m to code p cf obs s) = sv_txPool s"
  "sv_lastNowMs (sendPiggybackedResponse cfg m to code p cf obs s) = sv_lastNowMs s"
  "sv_linkFormat (sendPiggybackedResponse cfg m to code p cf obs s) = sv_linkFormat s"
  "sv_block1sessions (sendPiggybackedResponse cfg m to code p cf obs s) = sv_block1sessions s"
  "tp_inbox (sv_transport (sendPiggybackedResponse cfg m to code p cf obs s)) =
     tp_inbox (sv_transport s)"
  by (simp_all add: sendPiggybackedResponse_def Let_def split_def frame_simps)

lemma send_error_frame [frame_simps]:
  "sv_resources (send_error cfg m to code s) = sv_resources s"
  "sv_observers (send_error cfg m to code s) = sv_observers s"
  "sv_deferred (send_error cfg m to code s) = sv_deferred s"
  "sv_txPool (send_error cfg m to code s) = sv_txPool s"
  "sv_lastNowMs (send_error cfg m to code s) = sv_lastNowMs s"
  "sv_linkFormat (send_error cfg m to code s) = sv_linkFormat s"
  "sv_block1sessions (send_error cfg m to code s) = sv_block1sessions s"
  "tp_inbox (sv_transport (send_error cfg m to code s)) = tp_inbox (sv_transport s)"
  by (simp_all add: send_error_def frame_simps)

lemma sendEmptyAck_frame [frame_simps]:
  "sv_resources (sendEmptyAck cfg mid to s) = sv_resources s"
  "sv_observers (sendEmptyAck cfg mid to s) = sv_observers s"
  "sv_deferred (sendEmptyAck cfg mid to s) = sv_deferred s"
  "sv_txPool (sendEmptyAck cfg mid to s) = sv_txPool s"
  "sv_lastNowMs (sendEmptyAck cfg mid to s) = sv_lastNowMs s"
  "sv_linkFormat (sendEmptyAck cfg mid to s) = sv_linkFormat s"
  "sv_block1sessions (sendEmptyAck cfg mid to s) = sv_block1sessions s"
  "tp_inbox (sv_transport (sendEmptyAck cfg mid to s)) = tp_inbox (sv_transport s)"
  by (simp_all add: sendEmptyAck_def frame_simps)

lemma sendContinue_frame [frame_simps]:
  "sv_resources (sendContinue cfg m to v s) = sv_resources s"
  "sv_observers (sendContinue cfg m to v s) = sv_observers s"
  "sv_deferred (sendContinue cfg m to v s) = sv_deferred s"
  "sv_txPool (sendContinue cfg m to v s) = sv_txPool s"
  "sv_lastNowMs (sendContinue cfg m to v s) = sv_lastNowMs s"
  "sv_linkFormat (sendContinue cfg m to v s) = sv_linkFormat s"
  "sv_block1sessions (sendContinue cfg m to v s) = sv_block1sessions s"
  "tp_inbox (sv_transport (sendContinue cfg m to v s)) = tp_inbox (sv_transport s)"
  by (simp_all add: sendContinue_def Let_def split_def frame_simps)

lemma sendBlock2Response_frame [frame_simps]:
  "sv_resources (sendBlock2Response cfg m to code p cf obs num hm szx s) = sv_resources s"
  "sv_observers (sendBlock2Response cfg m to code p cf obs num hm szx s) = sv_observers s"
  "sv_deferred (sendBlock2Response cfg m to code p cf obs num hm szx s) = sv_deferred s"
  "sv_txPool (sendBlock2Response cfg m to code p cf obs num hm szx s) = sv_txPool s"
  "sv_lastNowMs (sendBlock2Response cfg m to code p cf obs num hm szx s) = sv_lastNowMs s"
  "sv_linkFormat (sendBlock2Response cfg m to code p cf obs num hm szx s) = sv_linkFormat s"
  "sv_block1sessions (sendBlock2Response cfg m to code p cf obs num hm szx s) =
     sv_block1sessions s"
  "tp_inbox (sv_transport (sendBlock2Response cfg m to code p cf obs num hm szx s)) =
     tp_inbox (sv_transport s)"
  by (simp_all add: sendBlock2Response_def Let_def split_def frame_simps)

lemma reply_plain_frame [frame_simps]:
  "sv_resources (reply_plain cfg m to obs res s) = sv_resources s"
  "sv_observers (reply_plain cfg m to obs res s) = sv_observers s"
  "sv_deferred (reply_plain cfg m to obs res s) = sv_deferred s"
  "sv_txPool (reply_plain cfg m to obs res s) = sv_txPool s"
  "sv_lastNowMs (reply_plain cfg m to obs res s) = sv_lastNowMs s"
  "sv_linkFormat (reply_plain cfg m to obs res s) = sv_linkFormat s"
  "sv_block1sessions (reply_plain cfg m to obs res s) = sv_block1sessions s"
  "tp_inbox (sv_transport (reply_plain cfg m to obs res s)) = tp_inbox (sv_transport s)"
  by (simp_all add: reply_plain_def Let_def frame_simps split: option.split)

lemma finish_deferred_frame [frame_simps]:
  "sv_resources (finish_deferred cfg m from s) = sv_resources s"
  "sv_observers (finish_deferred cfg m from s) = sv_observers s"
  "sv_deferred (finish_deferred cfg m from s) = sv_deferred s"
  "sv_txPool (finish_deferred cfg m from s) = sv_txPool s"
  "sv_lastNowMs (finish_deferred cfg m from s) = sv_lastNowMs s"
  "sv_linkFormat (finish_deferred cfg m from s) = sv_linkFormat s"
  "sv_block1sessions (finish_deferred cfg m from s) = sv_block1sessions s"
  "tp_inbox (sv_transport (finish_deferred cfg m from s)) = tp_inbox (sv_transport s)"
  by (simp_all add: finish_deferred_def frame_simps)

section \<open>The server as the owner of its pool\<close>

interpretation sv_owner: pool_owner sv_txPool put_sv_pool separateResend observeTimeout
  by unfold_locales
    (simp_all add: put_sv_pool_def separateResend_def observeTimeout_def frame_simps)

interpretation sv_quiet: quiet_pool_owner sv_txPool put_sv_pool separateResend observeTimeout
  by unfold_locales (simp add: observeTimeout_def)

interpretation sv_sending: sending_pool_owner sv_txPool put_sv_pool separateResend observeTimeout
    "\<lambda>s. tp_sent (sv_transport s)"
  by unfold_locales
    (simp_all add: put_sv_pool_def separateResend_def observeTimeout_def frame_simps)

section \<open>The invariant\<close>

definition wf_observer :: "config \<Rightarrow> resource list \<Rightarrow> observer \<Rightarrow> bool" where
  "wf_observer cfg rs ob \<longleftrightarrow> (ob_active ob \<longrightarrow>
     length (ob_token ob) \<le> max_token_len cfg \<and>
     unat (ob_resourceIndex ob) < length rs \<and>
     rs_observable (rs ! unat (ob_resourceIndex ob)))"

definition wf_deferred :: "config \<Rightarrow> deferred_request \<Rightarrow> bool" where
  "wf_deferred cfg d \<longleftrightarrow> (df_active d \<longrightarrow> length (df_token d) \<le> max_token_len cfg)"

definition wf_session :: "config \<Rightarrow> block1_session \<Rightarrow> bool" where
  "wf_session cfg b \<longleftrightarrow> (b1_active b \<longrightarrow>
     length (b1_token b) \<le> max_token_len cfg \<and>
     length (b1_buffer b) \<le> block1_max_body cfg \<and>
     unat (b1_nextExpectedNum b) \<le> 2 ^ 20)"

definition wf_resource :: "config \<Rightarrow> resource \<Rightarrow> bool" where
  "wf_resource cfg r \<longleftrightarrow>
     rs_isTemplate r = has_param (rs_path r) \<and> 0 \<notin> set (rs_path r) \<and>
     count_list (rs_path r) colon \<le> max_path_params cfg"

definition server_inv :: "config \<Rightarrow> 'w server_scheme \<Rightarrow> bool" where
  "server_inv cfg s \<longleftrightarrow>
     length (sv_resources s) \<le> max_resources cfg \<and>
     length (sv_observers s) = max_observers cfg \<and>
     length (sv_deferred s) = max_deferred cfg \<and>
     length (sv_block1sessions s) = max_block1_sessions cfg \<and>
     list_all (wf_resource cfg) (sv_resources s) \<and>
     list_all (wf_observer cfg (sv_resources s)) (sv_observers s) \<and>
     list_all (wf_deferred cfg) (sv_deferred s) \<and>
     list_all (wf_session cfg) (sv_block1sessions s) \<and>
     wf_pool cfg (sv_txPool s) \<and>
     length (sv_linkFormat s) < max_link_format_len cfg"

section \<open>Template parameters stay inside their arrays\<close>

lemma after_segment_suffix: "segment_of t @ after_segment t = t"
  by (simp add: segment_of_def after_segment_def)

lemma count_list_after_segment:
  "count_list (after_segment t) c + count_list (segment_of t) c = count_list t c"
  by (metis after_segment_suffix count_list_append add.commute)

lemma count_colon_segment:
  assumes "t \<noteq> []" "hd t = colon"
  shows "Suc (count_list (after_segment t) colon) \<le> count_list t colon"
proof -
  have "segment_of t = colon # segment_of (tl t)"
    using assms by (cases t) (auto simp: segment_of_def colon_def slash_def)
  then show ?thesis using count_list_after_segment [of t colon] by simp
qed

lemma matchTemplate_loop_count:
  assumes "matchTemplate_loop cfg mp t p params count = (ok, params', count')"
    "unat count + count_list t colon < 256"
  shows "unat count' \<le> unat count + count_list t colon"
  using assms
proof (induction cfg mp t p params count rule: matchTemplate_loop.induct)
  case (1 cfg mp t p params count)
  note run = 1(4) and bound = 1(5)
  consider (stop) "count' = count"
    | (slash) "t \<noteq> []" "hd t = slash" "p \<noteq> []" "hd p = slash"
        "matchTemplate_loop cfg mp (tl t) (tl p) params count = (ok, params', count')"
    | (param) ps where "t \<noteq> []" "hd t \<noteq> slash" "hd t = colon" "p \<noteq> []" "segment_of p \<noteq> []"
        "ps = store_param cfg mp count (tl (segment_of t)) (segment_of p) params"
        "matchTemplate_loop cfg mp (after_segment t) (after_segment p) ps (count + 1) =
           (ok, params', count')"
    | (lit) "t \<noteq> []" "hd t \<noteq> slash" "hd t \<noteq> colon" "p \<noteq> []" "segment_of t = segment_of p"
        "matchTemplate_loop cfg mp (after_segment t) (after_segment p) params count =
           (ok, params', count')"
    using run by (subst (asm) matchTemplate_loop.simps) (auto split: if_splits)
  then show ?case
  proof cases
    case stop
    then show ?thesis by simp
  next
    case slash
    have "count_list (tl t) colon \<le> count_list t colon" by (cases t) auto
    with 1(1) slash bound show ?thesis by fastforce
  next
    case param
    note c = count_colon_segment [OF param(1,3)]
    then have u: "unat (count + 1) = unat count + 1"
      using bound by (simp add: unat_word_ariths)
    show ?thesis
      using 1(2) param c u bound by fastforce
  next
    case lit
    have "count_list (after_segment t) colon \<le> count_list t colon"
      using count_list_after_segment [of t colon] by simp
    with 1(3) lit bound show ?thesis by fastforce
  qed
qed

lemma length_store_param [len_simps]:
  "map_option length (store_param cfg mp c n v ps) = map_option length ps"
  by (cases ps) (auto simp: store_param_def)

lemma matchTemplate_loop_params:
  "map_option length (fst (snd (matchTemplate_loop cfg mp t p params count))) =
     map_option length params"
proof (induction cfg mp t p params count rule: matchTemplate_loop.induct)
  case (1 cfg mp t p params count)
  show ?case
    using 1 by (subst matchTemplate_loop.simps) (auto simp: len_simps)
qed

lemma matchTemplate_null: "fst (snd (matchTemplate cfg t p None)) = None"
  using matchTemplate_loop_params [of cfg _ t p None 0] by (simp add: matchTemplate_def)

lemma findResource_no_fault:
  assumes "list_all (wf_resource cfg) rs" "max_path_params cfg \<le> 255"
  shows "findResource cfg rs path want \<noteq> FindFault"
proof
  assume fault: "findResource cfg rs path want = FindFault"
  then obtain i where i: "i < length rs"
    and big: "max_path_params cfg <
        unat (snd (snd (matchTemplate cfg (rs_path (rs ! i)) path (Some (tmp_params cfg)))))"
    using matchTemplate_null [of cfg _ path]
    by (cases want) (auto simp: findResource_def Let_def split: option.splits if_splits prod.splits
        dest!: first_slot_lt, metis fst_conv option.distinct(1) snd_conv)
  obtain ok ps c where m: "matchTemplate_loop cfg (of_nat (max_path_params cfg)) (rs_path (rs ! i))
      path (Some (tmp_params cfg)) 0 = (ok, ps, c)"
    using prod_cases3 by blast
  have "count_list (rs_path (rs ! i)) colon \<le> max_path_params cfg"
    using assms(1) i by (auto simp: list_all_length wf_resource_def)
  with matchTemplate_loop_count [OF m] big m assms(2) show False
    by (simp add: matchTemplate_def)
qed

lemma findResource_lt: "findResource cfg rs path want = Found i ps \<Longrightarrow> i < length rs"
  by (auto simp: findResource_def Let_def split: option.splits if_splits prod.splits
      dest!: first_slot_lt)

section \<open>The public interface preserves the invariant\<close>

text \<open>
  Registration only ever appends: what a slot of the resource table was registered with
  stays.
\<close>

definition registration :: "resource \<Rightarrow> bytes \<times> u8 \<times> resource_handler \<times> nat \<times> bool \<times> bool" where
  "registration r = (rs_path r, rs_methods r, rs_handler r, rs_userContext r, rs_observable r,
     rs_isTemplate r)"

definition resources_extend :: "resource list \<Rightarrow> resource list \<Rightarrow> bool" where
  "resources_extend rs rs' \<longleftrightarrow> prefix (map registration rs) (map registration rs')"

lemma resources_extend_refl [simp]: "resources_extend rs rs"
  by (simp add: resources_extend_def)

lemma resources_extend_trans:
  "resources_extend a b \<Longrightarrow> resources_extend b c \<Longrightarrow> resources_extend a c"
  by (auto simp: resources_extend_def intro: prefix_order.trans)

lemma resources_extend_append [simp]: "resources_extend rs (rs @ xs)"
  by (simp add: resources_extend_def)

lemma resources_extend_update:
  "registration r = registration (rs ! i) \<Longrightarrow> resources_extend rs (rs[i := r])"
  by (cases "i < length rs") (simp_all add: resources_extend_def map_update list_update_beyond
      list_update_same_conv [THEN iffD2])

lemma resources_extend_nth:
  assumes "resources_extend rs rs'" "i < length rs"
  shows "i < length rs'" "registration (rs' ! i) = registration (rs ! i)"
proof -
  obtain zs where z: "map registration rs' = map registration rs @ zs"
    using assms(1) by (auto simp: resources_extend_def prefix_def)
  then have "length rs \<le> length rs'" by (metis length_map length_append le_add1)
  with assms(2) show i: "i < length rs'" by simp
  have "map registration rs' ! i = map registration rs ! i"
    using z assms(2) by (simp add: nth_append)
  with assms(2) i show "registration (rs' ! i) = registration (rs ! i)" by simp
qed

lemma wf_observer_extend:
  assumes "resources_extend rs rs'" "list_all (wf_observer cfg rs) obs"
  shows "list_all (wf_observer cfg rs') obs"
proof -
  have "rs_observable (rs' ! i) = rs_observable (rs ! i) \<and> i < length rs'" if "i < length rs" for i
    using resources_extend_nth [OF assms(1) that] by (simp add: registration_def)
  with assms(2) show ?thesis by (auto simp: list_all_iff wf_observer_def)
qed

text \<open>
  What application code can do to the server from a handler or a timer: the public methods
  with a path of the documented kind (at most \<^verbatim>\<open>PULSECOAP_MAX_PATH_PARAMS\<close> parameters).
\<close>

definition wf_path :: "config \<Rightarrow> bytes \<Rightarrow> bool" where
  "wf_path cfg p \<longleftrightarrow> 0 \<notin> set p \<and> count_list p colon \<le> max_path_params cfg"

inductive api_step :: "config \<Rightarrow> 'w server_scheme \<Rightarrow> 'w server_scheme \<Rightarrow> bool" for cfg where
  api_add: "wf_path cfg p \<Longrightarrow>
    addResource cfg (Some p) methods (Some (AppHandler h)) ctx observable s = (ok, s') \<Longrightarrow>
    api_step cfg s s'"
| api_type: "setResourceType cfg path rt s = (ok, s') \<Longrightarrow> api_step cfg s s'"
| api_notify: "notify cfg path payload fmt confirmable s = (ok, s') \<Longrightarrow> api_step cfg s s'"
| api_respond: "respond cfg hdl code payload fmt s = (ok, s') \<Longrightarrow> api_step cfg s s'"
| api_globals: "api_step cfg s (server.more_update f s)"

abbreviation api_reach :: "config \<Rightarrow> 'w server_scheme \<Rightarrow> 'w server_scheme \<Rightarrow> bool" where
  "api_reach cfg \<equiv> (api_step cfg)\<^sup>*\<^sup>*"

definition handlers_ok :: "config \<Rightarrow> 'w handler_env \<Rightarrow> bool" where
  "handlers_ok cfg env \<longleftrightarrow> (\<forall>h ctx req res s. api_reach cfg s (snd (env h ctx req res s)))"

text \<open>What such a step cannot touch.\<close>

definition handler_frame :: "'w server_scheme \<Rightarrow> 'w server_scheme \<Rightarrow> bool" where
  "handler_frame s s' \<longleftrightarrow>
     resources_extend (sv_resources s) (sv_resources s') \<and>
     sv_block1sessions s' = sv_block1sessions s \<and> sv_lastNowMs s' = sv_lastNowMs s \<and>
     tp_inbox (sv_transport s') = tp_inbox (sv_transport s)"

lemma handler_frame_refl [simp]: "handler_frame s s"
  by (simp add: handler_frame_def)

lemma handler_frame_trans: "handler_frame a b \<Longrightarrow> handler_frame b c \<Longrightarrow> handler_frame a c"
  by (auto simp: handler_frame_def intro: resources_extend_trans)

lemma wf_resource_update:
  "list_all (wf_resource cfg) rs \<Longrightarrow> i < length rs \<Longrightarrow> registration r = registration (rs ! i) \<Longrightarrow>
   list_all (wf_resource cfg) (rs[i := r])"
  by (intro list_all_update) (auto simp: list_all_length wf_resource_def registration_def)

lemma server_inv_resources:
  "server_inv cfg s \<Longrightarrow> i < length (sv_resources s) \<Longrightarrow>
   registration r = registration (sv_resources s ! i) \<Longrightarrow>
   server_inv cfg (s\<lparr>sv_resources := (sv_resources s)[i := r]\<rparr>)"
  using wf_observer_extend [OF resources_extend_update, of r "sv_resources s" i]
  by (simp add: server_inv_def wf_resource_update)

lemma addResource_inv:
  assumes "server_inv cfg s" "wf_path cfg p"
  shows "server_inv cfg (snd (addResource cfg (Some p) methods (Some h) ctx obs s)) \<and>
    handler_frame s (snd (addResource cfg (Some p) methods (Some h) ctx obs s))"
  using assms wf_observer_extend [OF resources_extend_append, of cfg "sv_resources s"]
  by (auto simp: addResource_def server_inv_def handler_frame_def wf_resource_def wf_path_def)

lemma setResourceType_inv:
  assumes "server_inv cfg s"
  shows "server_inv cfg (snd (setResourceType cfg path rt s)) \<and>
    handler_frame s (snd (setResourceType cfg path rt s))"
  using assms
  by (auto simp: setResourceType_def handler_frame_def registration_def dest: findResource_lt
      intro!: server_inv_resources resources_extend_update split: find_result.split)

lemma notify_slot_inv:
  assumes inv: "server_inv cfg s" and i: "i < length (sv_observers s)"
  shows "server_inv cfg (notify_slot cfg idx sq p fmt con i s) \<and>
    handler_frame s (notify_slot cfg idx sq p fmt con i s)"
proof -
  have "list_all (wf_observer cfg (sv_resources s))
      ((sv_observers s)[i := (sv_observers s ! i)\<lparr>ob_lastSentMessageId := mid\<rparr>])" for mid
    using inv i by (intro list_all_update) (auto simp: server_inv_def list_all_length wf_observer_def)
  with inv show ?thesis
    by (auto simp: notify_slot_def Let_def server_inv_def handler_frame_def frame_simps
        intro: wf_pool_start)
qed

lemma length_notify_slot [len_simps]:
  "length (sv_observers (notify_slot cfg idx sq p fmt con i s)) = length (sv_observers s)"
  by (simp add: notify_slot_def Let_def frame_simps)

lemma notify_inv:
  assumes "server_inv cfg s"
  shows "server_inv cfg (snd (notify cfg path p fmt con s)) \<and>
    handler_frame s (snd (notify cfg path p fmt con s))"
proof (cases "findResource cfg (sv_resources s) path False")
  case (Found i ps)
  let ?r = "sv_resources s ! i"
  let ?q = "rs_observeSequence ?r + 1"
  let ?s1 = "s\<lparr>sv_resources := (sv_resources s)[i := ?r\<lparr>rs_observeSequence := ?q\<rparr>]\<rparr>"
  have s1: "server_inv cfg ?s1" "handler_frame s ?s1"
    using assms findResource_lt [OF Found]
    by (auto simp: registration_def handler_frame_def
        intro!: server_inv_resources resources_extend_update)
  have "(server_inv cfg t \<and> handler_frame s t) \<and> length (sv_observers t) = length (sv_observers s)"
    if "t = fold (notify_slot cfg i ?q p fmt con) [0..<length (sv_observers s)] ?s1" for t
    unfolding that
  proof (rule fold_inv)
    fix k t
    assume "k \<in> set [0..<length (sv_observers s)]"
      and t: "(server_inv cfg t \<and> handler_frame s t) \<and> length (sv_observers t) = length (sv_observers s)"
    then show "(server_inv cfg (notify_slot cfg i ?q p fmt con k t) \<and>
        handler_frame s (notify_slot cfg i ?q p fmt con k t)) \<and>
        length (sv_observers (notify_slot cfg i ?q p fmt con k t)) = length (sv_observers s)"
      using notify_slot_inv [of cfg t k] by (auto simp: len_simps intro: handler_frame_trans)
  qed (use s1 in simp)
  then show ?thesis using assms Found by (auto simp: notify_def Let_def)
qed (use assms in \<open>simp_all add: notify_def\<close>)

lemma wf_release_deferred [simp]: "wf_deferred cfg (release_deferred d)"
  by (simp add: wf_deferred_def release_deferred_def)

lemma respond_inv:
  assumes "server_inv cfg s"
  shows "server_inv cfg (snd (respond cfg hdl code p fmt s)) \<and>
    handler_frame s (snd (respond cfg hdl code p fmt s))"
  using assms
  by (auto simp: respond_def Let_def server_inv_def handler_frame_def frame_simps
      intro: wf_pool_start list_all_update)

lemma api_step_inv:
  assumes "api_step cfg s s'" "server_inv cfg s"
  shows "server_inv cfg s' \<and> handler_frame s s'"
  using assms
proof (cases rule: api_step.cases)
  case (api_add p methods h ctx observable ok)
  with assms addResource_inv [of cfg s p methods "AppHandler h" ctx observable] show ?thesis by simp
next
  case (api_type path rt ok)
  with assms setResourceType_inv [of cfg s path rt] show ?thesis by simp
next
  case (api_notify path payload fmt confirmable ok)
  with assms notify_inv [of cfg s path payload fmt confirmable] show ?thesis by simp
next
  case (api_respond hdl code payload fmt ok)
  with assms respond_inv [of cfg s hdl code payload fmt] show ?thesis by simp
next
  case (api_globals f)
  with assms(2) show ?thesis by (simp add: server_inv_def handler_frame_def)
qed

lemma api_reach_inv:
  "api_reach cfg s s' \<Longrightarrow> server_inv cfg s \<Longrightarrow> server_inv cfg s' \<and> handler_frame s s'"
proof (induction rule: rtranclp_induct)
  case base
  then show ?case by simp
next
  case (step t u)
  then show ?case by (blast dest: api_step_inv intro: handler_frame_trans)
qed

lemma buildLinkFormat_loop_bound:
  "length out < cap \<Longrightarrow> length (buildLinkFormat_loop cap rs first out) < cap"
proof (induction cap rs first out rule: buildLinkFormat_loop.induct)
  case (2 cap r rs first out)
  then show ?case by (auto simp: Let_def str_def split: option.split)
qed simp

lemma run_handler_inv:
  assumes "handlers_ok cfg env" "server_inv cfg s" "0 < max_link_format_len cfg"
  shows "server_inv cfg (snd (run_handler cfg env r req s)) \<and>
    handler_frame s (snd (run_handler cfg env r req s))"
proof (cases "rs_handler r")
  case WellKnownCore
  with assms show ?thesis
    by (auto simp: run_handler_def wellKnownCoreHandler_def buildLinkFormat_def Let_def
        server_inv_def handler_frame_def buildLinkFormat_loop_bound)
next
  case (AppHandler h)
  with assms(1,2) show ?thesis
    by (simp add: run_handler_def handlers_ok_def) (meson api_reach_inv)
qed

section \<open>The request path preserves the invariant\<close>

text \<open>
  The server after a request: the invariant, and what the next poll relies on. The two are
  proved together for every step of the request path.
\<close>

definition request_frame :: "'w server_scheme \<Rightarrow> 'w server_scheme \<Rightarrow> bool" where
  "request_frame s s' \<longleftrightarrow>
     resources_extend (sv_resources s) (sv_resources s') \<and> sv_lastNowMs s' = sv_lastNowMs s \<and>
     tp_inbox (sv_transport s') = tp_inbox (sv_transport s)"

lemma request_frame_refl [simp]: "request_frame s s"
  by (simp add: request_frame_def)

lemma request_frame_trans: "request_frame a b \<Longrightarrow> request_frame b c \<Longrightarrow> request_frame a c"
  by (auto simp: request_frame_def intro: resources_extend_trans)

lemma handler_request_frame: "handler_frame a b \<Longrightarrow> request_frame a b"
  by (simp add: handler_frame_def request_frame_def)

abbreviation keeps :: "config \<Rightarrow> 'w server_scheme \<Rightarrow> 'w server_scheme \<Rightarrow> bool" where
  "keeps cfg s s' \<equiv> server_inv cfg s' \<and> request_frame s s'"

lemma keeps_trans: "keeps cfg a b \<Longrightarrow> keeps cfg b c \<Longrightarrow> keeps cfg a c"
  by (blast intro: request_frame_trans)

lemma keeps_send:
  assumes "keeps cfg a s"
  shows "keeps cfg a (send_error cfg m to code s)"
    and "keeps cfg a (sendPiggybackedResponse cfg m to code p fmt obs s)"
    and "keeps cfg a (sendContinue cfg m to v s)"
    and "keeps cfg a (reply_plain cfg m to obs res s)"
    and "keeps cfg a (finish_deferred cfg m to s)"
  using assms by (simp_all add: server_inv_def request_frame_def frame_simps)

lemma keeps_refl: "server_inv cfg s \<Longrightarrow> keeps cfg s s"
  by simp

lemma wf_drop_observer [simp]: "wf_observer cfg rs (drop_observer ob)"
  by (simp add: wf_observer_def drop_observer_def)

lemma registerObserver_inv:
  assumes "list_all (wf_observer cfg rs) obs" "length token \<le> max_token_len cfg"
    "unat idx < length rs" "rs_observable (rs ! unat idx)"
  shows "list_all (wf_observer cfg rs) (registerObserver idx remote token obs)"
proof (cases "first_slot (observes remote token) obs")
  case None
  with assms show ?thesis
    by (auto simp: registerObserver_def claim_slot_def wf_observer_def fill_observer_def
        intro!: list_all_update split: option.split)
next
  case (Some i)
  then have "wf_observer cfg rs (obs ! i)" "i < length obs"
    using assms(1) by (auto simp: list_all_length dest: first_slot_lt)
  with Some assms show ?thesis
    by (auto simp: registerObserver_def wf_observer_def intro!: list_all_update)
qed

lemma length_registerObserver [len_simps]:
  "length (registerObserver idx remote token obs) = length obs"
  by (auto simp: registerObserver_def claim_slot_def split: option.split)

lemma stamp_observer_inv:
  assumes "list_all (wf_observer cfg rs) obs"
  shows "list_all (wf_observer cfg rs) (stamp_observer remote token mid obs)"
proof (cases "first_slot (observes remote token) obs")
  case (Some i)
  then have "wf_observer cfg rs (obs ! i)" "i < length obs"
    using assms by (auto simp: list_all_length dest: first_slot_lt)
  with Some assms show ?thesis
    by (auto simp: stamp_observer_def wf_observer_def intro!: list_all_update)
qed (use assms in \<open>simp add: stamp_observer_def\<close>)

lemma length_stamp_observer [len_simps]: "length (stamp_observer r tok mid obs) = length obs"
  by (auto simp: stamp_observer_def split: option.split)

lemma removeObserver_inv:
  "list_all (wf_observer cfg rs) obs \<Longrightarrow> list_all (wf_observer cfg rs) (removeObserver r tok obs)"
  by (auto simp: removeObserver_def list_all_iff)

lemma length_removeObserver [len_simps]: "length (removeObserver r tok obs) = length obs"
  by (simp add: removeObserver_def)

lemma handle_reset_inv:
  "list_all (wf_observer cfg rs) obs \<Longrightarrow> list_all (wf_observer cfg rs) (handle_reset from mid obs)"
  by (auto simp: handle_reset_def intro: list_all_update split: option.split)

lemma length_handle_reset [len_simps]: "length (handle_reset from mid obs) = length obs"
  by (auto simp: handle_reset_def split: option.split)

lemma handle_observe_keeps:
  assumes inv: "server_inv cfg s" and i: "i < length (sv_resources s)"
    and m: "wf_message cfg m" and cfg: "max_resources cfg \<le> 255"
  shows "keeps cfg s (snd (handle_observe i m from s))"
proof -
  have "i < 256" using inv i cfg by (simp add: server_inv_def)
  then have "unat (of_nat i :: u8) = i" by (simp add: unat_of_nat)
  with inv i m show ?thesis
    by (auto simp: handle_observe_def Let_def server_inv_def request_frame_def len_simps
        wf_message_def intro!: stamp_observer_inv registerObserver_inv removeObserver_inv
        split: option.split)
qed

lemma length_sv_deferred_reserve [len_simps]:
  "length (sv_deferred (snd (reserve_deferred from m s))) = length (sv_deferred s)"
  by (auto simp: reserve_deferred_def split: option.split)

lemma reserve_deferred_keeps:
  assumes "server_inv cfg s" "wf_message cfg m"
  shows "server_inv cfg (snd (reserve_deferred from m s)) \<and>
    handler_frame s (snd (reserve_deferred from m s))"
  using assms
  by (auto simp: reserve_deferred_def server_inv_def handler_frame_def wf_message_def
      wf_deferred_def fill_deferred_def intro!: list_all_update split: option.split)

lemma unreserve_deferred_keeps:
  "server_inv cfg s \<Longrightarrow> keeps cfg s (unreserve_deferred d s)"
  by (auto simp: unreserve_deferred_def server_inv_def request_frame_def
      intro!: list_all_update split: option.split)

lemma wf_release_block1 [simp]: "wf_session cfg (release_block1 b)"
  by (simp add: wf_session_def release_block1_def)

lemma freeBlock1Session_keeps:
  "server_inv cfg s \<Longrightarrow> keeps cfg s (freeBlock1Session i s)"
  by (auto simp: freeBlock1Session_def server_inv_def request_frame_def intro!: list_all_update)

end
