(* ===== verification/Coap_Server_Safety.thy ===== *)
theory Coap_Server_Safety
  imports Coap_Server_Inv
begin

text \<open>
  The poll loop as a whole: a request, a datagram and a poll keep the invariant and never
  leave defined behaviour, so every state of a running server is a good one.
\<close>

section \<open>Requests\<close>

lemma reserve_run_keeps:
  assumes env: "handlers_ok cfg env" "valid_config cfg"
    and inv: "server_inv cfg s" "wf_message cfg m"
    and d: "reserve_deferred from m s = (d, s1)"
    and run: "run_handler cfg env r req s1 = (res, s2)"
  shows "server_inv cfg s2 \<and> handler_frame s s2"
proof -
  have s1: "server_inv cfg s1" "handler_frame s s1"
    using reserve_deferred_keeps [OF inv, of "from"] d by auto
  moreover have "server_inv cfg s2 \<and> handler_frame s1 s2"
    using run_handler_inv [OF env(1) s1(1), of r req] env(2) run by (simp add: valid_config_def)
  ultimately show ?thesis by (blast intro: handler_frame_trans)
qed

lemma finish_block1_keeps:
  assumes env: "handlers_ok cfg env" "valid_config cfg"
    and inv: "server_inv cfg s" "wf_message cfg m"
  shows "keeps cfg s (finish_block1 cfg env i k ps m from obs s)"
proof -
  obtain d s1 where d: "reserve_deferred from m s = (d, s1)" by fastforce
  let ?req = "make_request m from d (Some (b1_buffer (sv_block1sessions s1 ! k))) ps"
  obtain res s2 where run: "run_handler cfg env (sv_resources s1 ! i) ?req s1 = (res, s2)"
    by fastforce
  have s2: "keeps cfg s s2"
    using reserve_run_keeps [OF env inv d run] handler_request_frame by blast
  then have s3: "keeps cfg s (freeBlock1Session k s2)"
    using keeps_trans [OF s2 freeBlock1Session_keeps] by simp
  then have s4: "keeps cfg s (unreserve_deferred d (freeBlock1Session k s2))"
    using keeps_trans [OF s3 unreserve_deferred_keeps] by simp
  show ?thesis
    using keeps_send(5) [OF s3] keeps_send(2) [OF s4] by (simp add: finish_block1_def d run Let_def)
qed

lemma handle_plain_keeps:
  assumes env: "handlers_ok cfg env" "valid_config cfg"
    and inv: "server_inv cfg s" "wf_message cfg m"
  shows "keeps cfg s (handle_plain cfg env i ps m from obs s)"
proof -
  obtain d s1 where d: "reserve_deferred from m s = (d, s1)" by fastforce
  let ?req = "make_request m from d None ps"
  obtain res s2 where run: "run_handler cfg env (sv_resources s1 ! i) ?req s1 = (res, s2)"
    by fastforce
  have s2: "keeps cfg s s2"
    using reserve_run_keeps [OF env inv d run] handler_request_frame by blast
  then have s3: "keeps cfg s (unreserve_deferred d s2)"
    using keeps_trans [OF s2 unreserve_deferred_keeps] by simp
  show ?thesis
    using keeps_send(5) [OF s2] keeps_send(4) [OF s3] by (simp add: handle_plain_def d run)
qed

text \<open>A message that was decoded from a receive buffer, and an expected block number.\<close>

lemma accept_block1_keeps:
  assumes env: "handlers_ok cfg env" "valid_config cfg"
    and inv: "server_inv cfg s" "wf_message cfg m"
    and num: "unat (blk_num b1) < 2 ^ 20" and k: "k < length (sv_block1sessions s)"
  shows "keeps cfg s (accept_block1 cfg env i k ps m from obs b1 s)"
proof -
  let ?sess = "sv_block1sessions s ! k"
  let ?body = "b1_buffer ?sess @ (case msg_payload m of None \<Rightarrow> [] | Some p \<Rightarrow> p)"
  let ?sess' = "?sess\<lparr>b1_buffer := ?body, b1_nextExpectedNum := b1_nextExpectedNum ?sess + 1\<rparr>"
  let ?s1 = "s\<lparr>sv_block1sessions := (sv_block1sessions s)[k := ?sess']\<rparr>"
  have wf: "wf_session cfg ?sess" using inv(1) k by (auto simp: server_inv_def list_all_length)
  have big: "keeps cfg s (send_error cfg m from c (freeBlock1Session k s))" for c
    by (rule keeps_send(1) [OF freeBlock1Session_keeps [OF inv(1)]])
  have s1: "keeps cfg s ?s1"
    if "blk_num b1 = b1_nextExpectedNum ?sess"
       "length (b1_buffer ?sess) + msg_payloadLength m \<le> block1_max_body cfg"
  proof -
    have "unat (b1_nextExpectedNum ?sess + 1) = unat (b1_nextExpectedNum ?sess) + 1"
      using num that(1) by (simp add: unat_word_ariths)
    then have "wf_session cfg ?sess'"
      using wf that num by (auto simp: wf_session_def msg_payloadLength_def split: option.splits)
    with inv(1) show ?thesis
      by (auto simp: server_inv_def request_frame_def intro!: list_all_update)
  qed
  show ?thesis
    using keeps_send(3) [OF keeps_refl [OF inv(1)]] big keeps_send(3) [OF s1]
      keeps_trans [OF s1 finish_block1_keeps [OF env _ inv(2)]] s1
    by (simp add: accept_block1_def Let_def not_less)
qed

lemma handle_block1_keeps:
  assumes env: "handlers_ok cfg env" "valid_config cfg"
    and inv: "server_inv cfg s" "wf_message cfg m"
  shows "keeps cfg s (handle_block1 cfg env i ps m from obs opt s)"
proof (cases "fromOption opt")
  case None
  then show ?thesis using keeps_send(1) [OF keeps_refl [OF inv(1)]] by (simp add: handle_block1_def)
next
  case (Some b1)
  note num = fromOption_num_bound(1) [OF Some]
  show ?thesis
  proof (cases "findBlock1Session from (msg_token m) (sv_block1sessions s)")
    case found: (Some k)
    then have "k < length (sv_block1sessions s)"
      by (auto simp: findBlock1Session_def dest: first_slot_lt)
    with accept_block1_keeps [OF env inv num] found Some show ?thesis
      by (simp add: handle_block1_def)
  next
    case fresh: None
    show ?thesis
    proof (cases "allocateBlock1Session from (msg_token m) (sv_block1sessions s)")
      case None
      then show ?thesis
        using keeps_send(1) [OF keeps_refl [OF inv(1)]] Some fresh by (auto simp: handle_block1_def)
    next
      case (Some p)
      obtain k bs where p: "p = (k, bs)" by fastforce
      note c = claim_slot_SomeD [OF Some [unfolded p allocateBlock1Session_def]]
      let ?s = "s\<lparr>sv_block1sessions := bs\<rparr>"
      have "keeps cfg s ?s"
        using inv c(1,3)
        by (auto simp: server_inv_def request_frame_def wf_session_def fill_block1_def
            wf_message_def intro!: list_all_update)
      moreover have "k < length (sv_block1sessions ?s)" using c by simp
      ultimately have "keeps cfg s (accept_block1 cfg env i k ps m from obs b1 ?s)"
        using accept_block1_keeps [OF env _ inv(2) num, of ?s] keeps_trans by blast
      then show ?thesis
        using Some \<open>fromOption opt = Some b1\<close> fresh p keeps_send(1) [OF keeps_refl [OF inv(1)]]
        by (auto simp: handle_block1_def)
    qed
  qed
qed

lemma handleRequest_keeps:
  assumes env: "handlers_ok cfg env" "valid_config cfg"
    and inv: "server_inv cfg s" "wf_message cfg m"
  shows "\<exists>s'. handleRequest cfg env m from s = Some s' \<and> keeps cfg s s'"
proof -
  have err: "keeps cfg s (send_error cfg m from c s)" for c by (rule keeps_send(1) [OF keeps_refl [OF inv(1)]])
  show ?thesis
  proof (cases "joinUriPath m (max_uri_path_len cfg)")
    case None
    with err show ?thesis by (simp add: handleRequest_def)
  next
    case (Some path)
    show ?thesis
    proof (cases "findResource cfg (sv_resources s) (cstr path) True")
      case FindFault
      moreover have "list_all (wf_resource cfg) (sv_resources s)" "max_path_params cfg \<le> 255"
        using inv(1) env(2) by (simp_all add: server_inv_def valid_config_def)
      ultimately show ?thesis using findResource_no_fault by blast
    next
      case NotFound
      with Some err show ?thesis by (simp add: handleRequest_def)
    next
      case (Found i ps)
      obtain obs s1 where o': "handle_observe i m from s = (obs, s1)" by fastforce
      have "keeps cfg s s1"
        using handle_observe_keeps [OF inv(1) findResource_lt [OF Found] inv(2), of "from"] o' env(2)
        by (simp add: valid_config_def)
      then have b: "keeps cfg s (handle_block1 cfg env i ps m from obs opt s1)"
        and p: "keeps cfg s (handle_plain cfg env i ps m from obs s1)" for opt
        using keeps_trans [OF _ handle_block1_keeps [OF env _ inv(2)]]
          keeps_trans [OF _ handle_plain_keeps [OF env _ inv(2)]] by blast+
      show ?thesis
        using Some Found o' err b p by (simp add: handleRequest_def Let_def split: option.split)
    qed
  qed
qed

section \<open>Datagrams, the tick, a poll\<close>

lemma handle_datagram_keeps:
  assumes "handlers_ok cfg env" "valid_config cfg" "server_inv cfg s"
  shows "\<exists>s'. handle_datagram cfg env from data s = Some s' \<and> keeps cfg s s'"
proof (cases "decode cfg data")
  case (Decoded m)
  let ?rst = "s\<lparr>sv_observers := handle_reset from (msg_messageId m) (sv_observers s)\<rparr>"
  let ?ack = "s\<lparr>sv_txPool := snd (tx_complete from (msg_messageId m) (sv_txPool s))\<rparr>"
  have "keeps cfg s ?rst" "keeps cfg s ?ack"
    using assms(3) by (auto simp: server_inv_def request_frame_def len_simps
        intro: handle_reset_inv wf_pool_complete)
  with Decoded handleRequest_keeps [OF assms decode_wf [OF Decoded]] assms(3) show ?thesis
    by (simp add: handle_datagram_def)
qed (use assms decode_no_fault in \<open>auto simp: handle_datagram_def\<close>)

lemma server_tick_keeps:
  assumes "valid_config cfg" "server_inv cfg s"
  shows "keeps cfg s (tx_tick cfg sv_txPool put_sv_pool separateResend observeTimeout now s)"
    (is "?I (tx_tick _ _ _ _ _ _ s)")
proof (rule sv_owner.tick_inv)
  show "?I s" using assms by simp
next
  fix i t and s' :: "'a server_scheme"
  assume I: "?I s'" and i: "i < length (sv_txPool s')"
    and t: "tick_tx cfg now (sv_txPool s' ! i) = (t, Resent)"
  then have "wf_pool cfg ((sv_txPool s')[i := t])"
    using wf_pool_tick_update [of cfg "sv_txPool s'" i now] assms(1)
    by (simp add: server_inv_def valid_config_def)
  with I show "?I (separateResend (tx_remote (sv_txPool s' ! i)) (tx_message (sv_txPool s' ! i))
      (put_sv_pool ((sv_txPool s')[i := t]) s'))"
    by (auto simp: server_inv_def request_frame_def separateResend_def put_sv_pool_def frame_simps)
next
  fix i t and s' :: "'a server_scheme"
  assume I: "?I s'" and i: "i < length (sv_txPool s')"
    and t: "tick_tx cfg now (sv_txPool s' ! i) = (t, GaveUp)"
  then have "wf_pool cfg ((sv_txPool s')[i := t])"
    using wf_pool_tick_update [of cfg "sv_txPool s'" i now] assms(1)
    by (simp add: server_inv_def valid_config_def)
  with I show "?I (observeTimeout (tx_remote (sv_txPool s' ! i)) (tx_token (sv_txPool s' ! i))
      (put_sv_pool ((sv_txPool s')[i := t]) s'))"
    by (auto simp: server_inv_def request_frame_def observeTimeout_def put_sv_pool_def len_simps
        intro: removeObserver_inv)
qed

lemma server_poll_keeps:
  assumes env: "handlers_ok cfg env" "valid_config cfg" and inv: "server_inv cfg s"
  shows "\<exists>s'. server_poll cfg env now s = Some s' \<and> server_inv cfg s' \<and>
           resources_extend (sv_resources s) (sv_resources s') \<and> sv_lastNowMs s' = now"
proof -
  let ?s1 = "s\<lparr>sv_lastNowMs := now\<rparr>"
  let ?s2 = "tx_tick cfg sv_txPool put_sv_pool separateResend observeTimeout now ?s1"
  have "server_inv cfg ?s1" using inv by (simp add: server_inv_def)
  note s2 = server_tick_keeps [OF env(2) this, of now]
  obtain src data t where r: "transport_receive (max_msg_size cfg) (sv_transport ?s2) =
      ((src, data), t)" by (metis prod.exhaust)
  have "server_inv cfg (?s2\<lparr>sv_transport := t\<rparr>)" using s2 by (simp add: server_inv_def)
  from handle_datagram_keeps [OF env this, of src data] r s2 show ?thesis
    by (auto simp: server_poll_def Let_def request_frame_def intro: resources_extend_trans)
qed

section \<open>The states of a running server\<close>

text \<open>
  Construction, \<^verbatim>\<open>begin\<close>, the public methods between polls, and polls at any clock value on
  any inbox: before a poll the network may put any datagrams in front of the server.
\<close>

inductive server_step :: "config \<Rightarrow> 'w handler_env \<Rightarrow> 'w server_scheme \<Rightarrow> 'w server_scheme \<Rightarrow> bool" for cfg env where
  step_begin: "server_begin cfg port s = (ok, s') \<Longrightarrow> server_step cfg env s s'"
| step_api: "api_step cfg s s' \<Longrightarrow> server_step cfg env s s'"
| step_network: "server_step cfg env s
    (s\<lparr>sv_transport := (sv_transport s)\<lparr>tp_inbox := inbox, tp_send_results := results\<rparr>\<rparr>)"
| step_poll: "server_poll cfg env now s = Some s' \<Longrightarrow> server_step cfg env s s'"

inductive_cases server_stepE [elim]: "server_step cfg env s s'"

definition running :: "config \<Rightarrow> 'w handler_env \<Rightarrow> 'w server_scheme \<Rightarrow> bool" where
  "running cfg env s \<longleftrightarrow> 
     (\<exists>t globals. (server_step cfg env)\<^sup>*\<^sup>* (deploy globals (new_server cfg t)) s)"

lemma new_server_inv: "valid_config cfg \<Longrightarrow> server_inv cfg (new_server cfg t)"
  by (simp add: server_inv_def new_server_def list_all_iff wf_observer_def empty_observer_def
      wf_deferred_def empty_deferred_def wf_session_def empty_block1_session_def
      wf_pool_reset valid_config_def)

lemma deploy_inv [simp]: "server_inv cfg (deploy globals s) = server_inv cfg s"
  by (simp add: server_inv_def)

lemma wf_path_well_known: "wf_path cfg well_known_core"
  by (simp add: wf_path_def well_known_core_def str_def colon_def)

lemma server_begin_inv:
  assumes "valid_config cfg" "server_inv cfg s"
  shows "server_inv cfg (snd (server_begin cfg port s))"
proof -
  have "server_inv cfg (s\<lparr>sv_linkFormat := []\<rparr>)"
    using assms by (simp add: server_inv_def valid_config_def)
  from addResource_inv [OF this wf_path_well_known] assms(2) show ?thesis
    by (simp add: server_begin_def Let_def)
qed

lemma running_inv:
  assumes "handlers_ok cfg env" "valid_config cfg" "running cfg env s"
  shows "server_inv cfg s"
proof -
  obtain t globals where "(server_step cfg env)\<^sup>*\<^sup>* (deploy globals (new_server cfg t)) s"
    using assms(3) by (auto simp: running_def)
  then show ?thesis
  proof (induction rule: rtranclp_induct)
    case base
    show ?case by (simp add: new_server_inv [OF assms(2)])
  next
    case (step s1 s2)
    from step.hyps(2) show ?case
    proof cases
      case (step_begin port ok)
      with server_begin_inv [OF assms(2) step.IH, of port] show ?thesis by simp
    next
      case step_api
      with api_step_inv step.IH show ?thesis by blast
    next
      case (step_network inbox results)
      with step.IH show ?thesis by (simp add: server_inv_def)
    next
      case (step_poll now)
      with server_poll_keeps [OF assms(1,2) step.IH, of now] show ?thesis by auto
    qed
  qed
qed

lemma running_poll:
  assumes "handlers_ok cfg env" "valid_config cfg" "running cfg env s"
  shows "\<exists>s'. server_poll cfg env now s = Some s' \<and> server_inv cfg s'"
  using server_poll_keeps [OF assms(1,2) running_inv [OF assms]] by blast

end
