(* ===== verification/Coap_Routing.thy ===== *)
theory Coap_Routing
  imports Coap_Server_Safety
begin

text \<open>
  What resource lookup and discovery mean: the template matcher against a matcher on path
  segments, \<^verbatim>\<open>findResource\<close> against a specification of exact-before-template priority, and the
  \<^verbatim>\<open>/.well-known/core\<close> body against the list of its entries.
\<close>

section \<open>Templates as lists of segments\<close>

text \<open>A path cut at every slash, empty pieces included.\<close>

function pieces :: "bytes \<Rightarrow> bytes list" where
  "pieces p = segment_of p # (if after_segment p = [] then [] else pieces (tl (after_segment p)))"
  by pat_completeness auto
termination
proof (relation "measure length", goal_cases)
  case (2 p)
  then have "length (tl (after_segment p)) < length (after_segment p)" by simp
  also have "\<dots> \<le> length p" by (simp add: after_segment_def length_dropWhile_le)
  finally show ?case by simp
qed simp

declare pieces.simps [simp del]

text \<open>
  A segment that starts with a colon captures any non-empty segment, another one only
  itself. The captures are the parameter names with the segments they matched.
\<close>

fun template_match :: "bytes list \<Rightarrow> bytes list \<Rightarrow> (bytes \<times> bytes) list option" where
  "template_match [] [] = Some []"
| "template_match (t # ts) (p # ps) =
     (if t \<noteq> [] \<and> hd t = colon then
        (if p = [] then None else map_option (Cons (tl t, p)) (template_match ts ps))
      else if t = p then template_match ts ps
      else None)"
| "template_match _ _ = None"

fun bind_params ::
    "config \<Rightarrow> u8 \<Rightarrow> (bytes \<times> bytes) list \<Rightarrow> u8 \<Rightarrow> path_param list option \<Rightarrow> path_param list option" where
  "bind_params cfg mp [] count ps = ps"
| "bind_params cfg mp ((n, v) # cs) count ps =
     bind_params cfg mp cs (count + 1) (store_param cfg mp count n v ps)"

lemma segment_Nil_iff: "segment_of p = [] \<longleftrightarrow> p = [] \<or> hd p = slash"
  by (cases p) (auto simp: segment_of_def)

lemma after_segment_hd: "after_segment p = [] \<or> hd (after_segment p) = slash"
  using hd_dropWhile [of "\<lambda>c. c \<noteq> slash" p] by (auto simp: after_segment_def)

lemma pieces_ne [simp]: "pieces p \<noteq> []"
  by (simp add: pieces.simps)

lemma pieces_Nil [simp]: "pieces [] = [[]]"
  by (simp add: pieces.simps segment_of_def after_segment_def)

lemma pieces_slash: "p \<noteq> [] \<Longrightarrow> hd p = slash \<Longrightarrow> pieces p = [] # pieces (tl p)"
  by (subst pieces.simps) (cases p, auto simp: segment_of_def after_segment_def)

lemma pieces_after: "pieces (after_segment p) = [] # tl (pieces p)"
proof (cases "after_segment p = []")
  case True
  then show ?thesis by (simp add: pieces.simps [of p])
next
  case False
  then have "hd (after_segment p) = slash" using after_segment_hd [of p] by simp
  from pieces_slash [OF False this] False show ?thesis by (simp add: pieces.simps [of p])
qed

lemma hd_pieces: "hd (pieces p) = segment_of p"
  by (simp add: pieces.simps)

lemma template_match_pieces:
  "template_match (pieces t) (pieces p) =
     (if segment_of t \<noteq> [] \<and> hd (segment_of t) = colon then
        (if segment_of p = [] then None
         else map_option (Cons (tl (segment_of t), segment_of p))
                (template_match (pieces (after_segment t)) (pieces (after_segment p))))
      else if segment_of t = segment_of p then
        template_match (pieces (after_segment t)) (pieces (after_segment p))
      else None)"
proof -
  have "pieces t = segment_of t # tl (pieces t)" "pieces p = segment_of p # tl (pieces p)"
    by (metis hd_pieces list.collapse pieces_ne)+
  then show ?thesis
    by (metis pieces_after template_match.simps(2))
qed

lemma segment_hd: "t \<noteq> [] \<Longrightarrow> hd t \<noteq> slash \<Longrightarrow> segment_of t \<noteq> [] \<and> hd (segment_of t) = hd t"
  by (cases t) (auto simp: segment_of_def)

text \<open>The loop computes the segment matcher and stores its captures in order.\<close>

lemma matchTemplate_loop_spec:
  "case template_match (pieces t) (pieces p) of
     None \<Rightarrow> \<not> fst (matchTemplate_loop cfg mp t p params count)
   | Some caps \<Rightarrow> matchTemplate_loop cfg mp t p params count =
       (True, bind_params cfg mp caps count params, count + of_nat (length caps))"
proof (induction cfg mp t p params count rule: matchTemplate_loop.induct)
  case (1 cfg mp t p params count)
  let ?run = "matchTemplate_loop cfg mp t p params count"
  note run = matchTemplate_loop.simps [of cfg mp t p params count]
  consider (both) "t = []" "p = []"
    | (sep) "t \<noteq> []" "hd t = slash" "p \<noteq> []" "hd p = slash"
    | (sep_no) "t \<noteq> []" "hd t = slash" "p = [] \<or> hd p \<noteq> slash"
    | (t_end) "t = []" "p \<noteq> []"
    | (p_end) "t \<noteq> []" "hd t \<noteq> slash" "p = []"
    | (param) "t \<noteq> []" "hd t \<noteq> slash" "p \<noteq> []" "hd t = colon"
    | (lit) "t \<noteq> []" "hd t \<noteq> slash" "p \<noteq> []" "hd t \<noteq> colon"
    by blast
  then show ?case
  proof cases
    case both
    then show ?thesis by (simp add: matchTemplate_loop.simps)
  next
    case sep
    then have "?run = matchTemplate_loop cfg mp (tl t) (tl p) params count" by (simp add: run)
    with sep 1(1) show ?thesis by (auto simp: pieces_slash split: option.splits)
  next
    case sep_no
    then have "\<not> fst ?run" by (simp add: run)
    moreover have "template_match (pieces t) (pieces p) = None"
    proof (cases "p = []")
      case True
      have "pieces t = [] # hd (pieces (tl t)) # tl (pieces (tl t))"
        using sep_no by (simp add: pieces_slash)
      with True show ?thesis by (metis pieces_Nil template_match.simps(2,3) list.sel(1))
    next
      case False
      with sep_no have "segment_of p \<noteq> []" "segment_of t = []" by (simp_all add: segment_Nil_iff)
      then show ?thesis by (simp add: template_match_pieces)
    qed
    ultimately show ?thesis by simp
  next
    case t_end
    then have "\<not> fst ?run" by (simp add: matchTemplate_loop.simps)
    moreover have "template_match (pieces t) (pieces p) = None"
    proof (cases "hd p = slash")
      case True
      have "pieces p = [] # hd (pieces (tl p)) # tl (pieces (tl p))"
        using t_end True by (simp add: pieces_slash)
      with t_end show ?thesis by (metis pieces_Nil template_match.simps(2,4))
    next
      case False
      with t_end have "segment_of p \<noteq> []" "segment_of t = []" by (simp_all add: segment_Nil_iff)
      then show ?thesis by (simp add: template_match_pieces)
    qed
    ultimately show ?thesis by simp
  next
    case p_end
    then have "\<not> fst ?run" by (simp add: matchTemplate_loop.simps)
    moreover have "segment_of p = []" using p_end by (simp add: segment_Nil_iff)
    ultimately show ?thesis
      using segment_hd [OF p_end(1,2)] by (simp add: template_match_pieces)
  next
    case param
    show ?thesis
    proof (cases "segment_of p = []")
      case True
      with param show ?thesis
        using segment_hd [OF param(1,2)] by (simp add: run template_match_pieces)
    next
      case False
      let ?st = "store_param cfg mp count (tl (segment_of t)) (segment_of p) params"
      have "?run = matchTemplate_loop cfg mp (after_segment t) (after_segment p) ?st (count + 1)"
        using param False by (simp add: run)
      with 1(2) param False show ?thesis
        using segment_hd [OF param(1,2)]
        by (auto simp: template_match_pieces [of t p] split: option.splits)
    qed
  next
    case lit
    show ?thesis
    proof (cases "segment_of t = segment_of p")
      case True
      then have "?run = matchTemplate_loop cfg mp (after_segment t) (after_segment p) params count"
        using lit by (simp add: run)
      with 1(3) lit True show ?thesis
        using segment_hd [OF lit(1,2)]
        by (auto simp: template_match_pieces [of t p] split: option.splits)
    next
      case False
      with lit show ?thesis
        using segment_hd [OF lit(1,2)] by (simp add: run template_match_pieces)
    qed
  qed
qed

lemma matchTemplate_iff:
  "fst (matchTemplate cfg t p ps) \<longleftrightarrow> template_match (pieces t) (pieces p) \<noteq> None"
  using matchTemplate_loop_spec [where t = t and p = p and cfg = cfg and params = ps and count = 0
      and mp = "of_nat (max_path_params cfg)"]
  by (auto simp: matchTemplate_def split: option.splits)

section \<open>Lookup\<close>

definition param_of :: "config \<Rightarrow> bytes \<times> bytes \<Rightarrow> path_param" where
  "param_of cfg c = \<lparr>pp_name = take (max_path_param_len cfg - 1) (fst c),
                     pp_value = take (max_path_param_len cfg - 1) (snd c)\<rparr>"

lemma bind_params_spec:
  assumes "unat count + length caps \<le> unat mp" "length ps = unat mp"
  shows "bind_params cfg mp caps count (Some ps) =
    Some (take (unat count) ps @ map (param_of cfg) caps @ drop (unat count + length caps) ps)"
  using assms
proof (induction caps arbitrary: count ps)
  case Nil
  then show ?case by simp
next
  case (Cons c caps)
  obtain n v where c: "c = (n, v)" by fastforce
  have lt: "unat count < length ps" "count < mp"
    using Cons.prems by (simp_all add: word_less_nat_alt)
  have "unat count + 1 < 256" using Cons.prems unsigned_less [of mp, where 'a = nat] by simp
  then have u: "unat (count + 1) = unat count + 1" by (simp add: unat_word_ariths)
  have "take (Suc (unat count)) (ps[unat count := x]) = take (unat count) ps @ [x]" for x
    using lt by (simp add: take_Suc_conv_app_nth)
  with Cons.IH [of "count + 1" "ps[unat count := param_of cfg c]"] Cons.prems lt u show ?case
    by (simp add: c store_param_def param_of_def)
qed

lemma template_match_length:
  "template_match ts ps = Some caps \<Longrightarrow> length caps \<le> length (filter (\<lambda>t. t \<noteq> [] \<and> hd t = colon) ts)"
  by (induction ts ps arbitrary: caps rule: template_match.induct) (auto split: if_splits)

lemma count_colon_filter: "length (filter (\<lambda>t. t \<noteq> [] \<and> hd t = colon) ts) \<le> count_list (concat ts) colon"
proof (induction ts)
  case (Cons t ts)
  then show ?case by (cases t) auto
qed simp

lemma count_colon_pieces: "count_list (concat (pieces p)) colon \<le> count_list p colon"
proof (induction p rule: pieces.induct)
  case (1 p)
  have "count_list (tl (after_segment p)) colon \<le> count_list (after_segment p) colon"
    by (cases "after_segment p") auto
  then show ?case
    using 1 count_list_after_segment [of p colon]
    by (cases "after_segment p = []") (simp_all add: pieces.simps [of p])
qed

lemma captures_bounded:
  assumes "template_match (pieces t) ps = Some caps"
  shows "length caps \<le> count_list t colon"
  using template_match_length [OF assms] count_colon_filter [of "pieces t"]
    count_colon_pieces [of t] by linarith

lemma matchTemplate_captures:
  assumes caps: "template_match (pieces t) (pieces p) = Some caps"
    and "length caps \<le> max_path_params cfg" "max_path_params cfg \<le> 255"
  shows "matchTemplate cfg t p (Some (tmp_params cfg)) =
    (True, Some (map (param_of cfg) caps @
                 replicate (max_path_params cfg - length caps) empty_param), of_nat (length caps))"
proof -
  let ?mp = "of_nat (max_path_params cfg) :: u8"
  have mp: "unat ?mp = max_path_params cfg" using assms(3) by (simp add: unat_of_nat)
  have "bind_params cfg ?mp caps 0 (Some (tmp_params cfg)) =
      Some (map (param_of cfg) caps @ drop (length caps) (tmp_params cfg))"
    using bind_params_spec [of 0 caps ?mp "tmp_params cfg" cfg] assms(2) mp
    by (simp add: tmp_params_def)
  moreover have "drop (length caps) (tmp_params cfg) =
      replicate (max_path_params cfg - length caps) empty_param"
    by (simp add: tmp_params_def)
  ultimately show ?thesis
    using matchTemplate_loop_spec [where t = t and p = p and cfg = cfg and mp = ?mp
        and params = "Some (tmp_params cfg)" and count = 0] caps
    by (simp add: matchTemplate_def)
qed

text \<open>
  Lookup as RFC 6690 users read it: an exact path wins, in registration order; otherwise the
  first template that matches, with its captures.
\<close>

definition route :: "config \<Rightarrow> resource list \<Rightarrow> bytes \<Rightarrow> (nat \<times> path_param list) option" where
  "route cfg rs path =
     (case first_slot (\<lambda>r. \<not> rs_isTemplate r \<and> rs_path r = path) rs of
        Some i \<Rightarrow> Some (i, [])
      | None \<Rightarrow>
          (case first_slot (\<lambda>r. rs_isTemplate r \<and>
                  template_match (pieces (rs_path r)) (pieces path) \<noteq> None) rs of
             None \<Rightarrow> None
           | Some i \<Rightarrow> Some (i, map (param_of cfg)
                 (the (template_match (pieces (rs_path (rs ! i))) (pieces path))))))"

lemma findResource_route:
  assumes rs: "list_all (wf_resource cfg) rs" and cfg: "max_path_params cfg \<le> 255"
  shows "findResource cfg rs path True =
    (case route cfg rs path of None \<Rightarrow> NotFound | Some (i, ps) \<Rightarrow> Found i ps)"
proof (cases "first_slot (\<lambda>r. \<not> rs_isTemplate r \<and> rs_path r = path) rs")
  case (Some i)
  then show ?thesis by (simp add: findResource_def route_def)
next
  case exact: None
  let ?P = "\<lambda>r. rs_isTemplate r \<and> template_match (pieces (rs_path r)) (pieces path) \<noteq> None"
  show ?thesis
  proof (cases "first_slot ?P rs")
    case None
    with exact show ?thesis by (simp add: findResource_def route_def matchTemplate_iff)
  next
    case (Some i)
    note i = first_slot_SomeD [OF Some]
    then obtain caps where caps: "template_match (pieces (rs_path (rs ! i))) (pieces path) = Some caps"
      by auto
    have "count_list (rs_path (rs ! i)) colon \<le> max_path_params cfg"
      using rs i by (simp add: list_all_length wf_resource_def)
    with captures_bounded [OF caps] have len: "length caps \<le> max_path_params cfg" by simp
    then have "unat (of_nat (length caps) :: u8) = length caps" using cfg by (simp add: unat_of_nat)
    with exact Some matchTemplate_captures [OF caps len cfg] len caps show ?thesis
      by (simp add: findResource_def route_def matchTemplate_iff)
  qed
qed

section \<open>The discovery body\<close>

definition link_entry :: "resource \<Rightarrow> bytes" where
  "link_entry r =
     str ''<'' @ rs_path r @ str ''>'' @
     (case rs_resourceType r of None \<Rightarrow> [] | Some rt \<Rightarrow> str '';rt='' @ [0x22] @ rt @ [0x22]) @
     (if rs_observable r then str '';obs'' else [])"

text \<open>The entries separated by commas, without the discovery resource itself.\<close>

fun link_entries :: "bool \<Rightarrow> resource list \<Rightarrow> bytes" where
  "link_entries first [] = []"
| "link_entries first (r # rs) =
     (if rs_path r = well_known_core then link_entries first rs
      else (if first then [] else str '','') @ link_entry r @ link_entries False rs)"

lemma length_str [simp]: "length (str s) = length s"
  by (simp add: str_def)

lemma buildLinkFormat_loop_complete:
  "length out + length (link_entries first rs) < cap \<Longrightarrow>
   buildLinkFormat_loop cap rs first out = out @ link_entries first rs"
proof (induction cap rs first out rule: buildLinkFormat_loop.induct)
  case (1 cap first out)
  then show ?case by simp
next
  case (2 cap r rs first out)
  show ?case
  proof (cases "rs_path r = well_known_core")
    case True
    with 2 show ?thesis by simp
  next
    case False
    let ?sep = "if first then [] else str '',''"
    let ?o2 = "out @ ?sep @ str ''<'' @ rs_path r @ str ''>''"
    let ?o3 = "?o2 @ (case rs_resourceType r of None \<Rightarrow> [] | Some rt \<Rightarrow> str '';rt='' @ [0x22] @ rt @ [0x22])"
    let ?o4 = "?o3 @ (if rs_observable r then str '';obs'' else [])"
    have le: "length ?o4 + length (link_entries False rs) < cap"
      using 2(3) False by (cases "rs_resourceType r") (simp_all add: link_entry_def)
    then have "buildLinkFormat_loop cap (r # rs) first out = buildLinkFormat_loop cap rs False ?o4"
      using False by (cases "rs_resourceType r") (auto simp: Let_def)
    moreover have "buildLinkFormat_loop cap rs False ?o4 = ?o4 @ link_entries False rs"
      using 2(2) [OF False _ refl _ refl refl refl] le False
      by (cases "rs_resourceType r") (auto simp: Let_def)
    ultimately show ?thesis using False by (simp add: link_entry_def)
  qed
qed

end
