(* ===== verification/Coap_Exchange.thy ===== *)
theory Coap_Exchange
  imports Coap_Routing
begin

text \<open>
  What the server puts on the wire: the shape of its replies, the classification of a
  request, notifications, retransmissions and dead-peer removal, separate responses.
\<close>

section \<open>The shape of a reply\<close>

text \<open>
  The message that answers \<open>m\<close>: an ACK that carries the message ID of a Confirmable request,
  or a NON with the server's next ID; in both cases the request's token.
\<close>

definition answer ::
    "message \<Rightarrow> u8 \<Rightarrow> u16 \<Rightarrow> coap_option list \<Rightarrow> bytes option \<Rightarrow> message" where
  "answer m code fresh options payload =
     \<lparr>msg_type = (if msg_type m = Confirmable then Acknowledgement else NonConfirmable),
      msg_code = code,
      msg_messageId = (if msg_type m = Confirmable then msg_messageId m else fresh),
      msg_token = msg_token m, msg_options = options, msg_lastOptionNumber = 0,
      msg_payload = payload\<rparr>"

definition next_id :: "message \<Rightarrow> u16 \<Rightarrow> u16" where
  "next_id m fresh = (if msg_type m = Confirmable then fresh else fresh + 1)"

lemma reply_message_answer:
  assumes "length (msg_token m) \<le> max_token_len cfg"
  shows "reply_message cfg m code s =
    (answer m code (sv_nextMessageId s) [] None,
     s\<lparr>sv_nextMessageId := next_id m (sv_nextMessageId s)\<rparr>)"
  using assms
  by (auto simp: reply_message_def answer_def next_id_def setToken_def reset_message_def Let_def)

definition reply_options :: "u16 \<Rightarrow> u32 \<Rightarrow> bytes option \<Rightarrow> coap_option list" where
  "reply_options fmt observeValue payload =
     (if 0 \<le> sint observeValue then [uint_option Opt_Observe observeValue] else []) @
     (if payload = None \<or> payload = Some [] then [] else [uint_option Opt_ContentFormat (ucast fmt)])"

definition reply_payload :: "bytes option \<Rightarrow> bytes option" where
  "reply_payload p = (if p = Some [] then None else p)"

definition response_to ::
    "message \<Rightarrow> u16 \<Rightarrow> u8 \<Rightarrow> bytes option \<Rightarrow> u16 \<Rightarrow> u32 \<Rightarrow> message" where
  "response_to m fresh code payload fmt observeValue =
     answer m code fresh (reply_options fmt observeValue payload) (reply_payload payload)"

lemma sendPiggybackedResponse_encoded:
  assumes "length (msg_token m) \<le> max_token_len cfg" "2 \<le> max_options cfg"
  shows "sendPiggybackedResponse cfg m to code p fmt obs s =
    send_encoded cfg (response_to m (sv_nextMessageId s) code p fmt obs) to
      (s\<lparr>sv_nextMessageId := next_id m (sv_nextMessageId s)\<rparr>)"
proof -
  let ?m0 = "answer m code (sv_nextMessageId s) [] None"
  let ?m1 = "add_observe_option cfg obs ?m0"
  have m1: "?m1 = ?m0\<lparr>msg_options := (if 0 \<le> sint obs then [uint_option Opt_Observe obs] else []),
      msg_lastOptionNumber := (if 0 \<le> sint obs then Opt_Observe else 0)\<rparr>"
    using assms(2) addOptionUint_append [of ?m0 cfg Opt_Observe obs]
    by (auto simp: add_observe_option_def answer_def)
  have m1o: "msg_options ?m1 = (if 0 \<le> sint obs then [uint_option Opt_Observe obs] else [])"
    and m1l: "msg_lastOptionNumber ?m1 = (if 0 \<le> sint obs then Opt_Observe else 0)"
    by (simp_all add: m1)
  have c: "addOptionUint cfg Opt_ContentFormat v ?m1 =
      (True, ?m1\<lparr>msg_options := msg_options ?m1 @ [uint_option Opt_ContentFormat v],
                 msg_lastOptionNumber := Opt_ContentFormat\<rparr>)" for v
    using assms(2) by (intro addOptionUint_append) (auto simp: m1o m1l opt_defs)
  have e: "send_encoded cfg m' to t = send_encoded cfg m'' to t"
    if "m' = m''\<lparr>msg_lastOptionNumber := n\<rparr>" for m' m'' t n
    by (simp add: send_encoded_def that encode_last_option)
  let ?r = "response_to m (sv_nextMessageId s) code p fmt obs"
  let ?s = "s\<lparr>sv_nextMessageId := next_id m (sv_nextMessageId s)\<rparr>"
  show ?thesis
  proof (cases "p = None \<or> p = Some []")
    case True
    then have "sendPiggybackedResponse cfg m to code p fmt obs s = send_encoded cfg ?m1 to ?s"
      by (auto simp: sendPiggybackedResponse_def reply_message_answer [OF assms(1)])
    moreover have "?m1 = ?r\<lparr>msg_lastOptionNumber := (if 0 \<le> sint obs then Opt_Observe else 0)\<rparr>"
      using True by (subst m1) (auto simp: response_to_def reply_options_def reply_payload_def answer_def)
    ultimately show ?thesis by (simp only: e)
  next
    case False
    then obtain b where b: "p = Some b" "b \<noteq> []" by auto
    let ?m2 = "setPayload (Some b) (snd (addOptionUint cfg Opt_ContentFormat (ucast fmt) ?m1))"
    have "sendPiggybackedResponse cfg m to code p fmt obs s = send_encoded cfg ?m2 to ?s"
      using b by (simp add: sendPiggybackedResponse_def reply_message_answer [OF assms(1)])
    moreover have "?m2 = ?r\<lparr>msg_lastOptionNumber := Opt_ContentFormat\<rparr>"
      unfolding c using b
      by (subst m1, subst m1o)
        (auto simp: response_to_def reply_options_def reply_payload_def answer_def setPayload_def)
    ultimately show ?thesis by (simp only: e)
  qed
qed

lemma wf_answer:
  assumes "wf_message cfg m" "length options \<le> max_options cfg" "list_all wf_option options"
    "payload \<noteq> Some []"
  shows "wf_message cfg (answer m code fresh options payload)"
  using assms by (simp add: wf_message_def answer_def)

lemma encode_error_reply:
  assumes "wf_message cfg m" "max_token_len cfg = 8" "12 \<le> max_msg_size cfg"
  shows "encode (answer m code fresh [] None) (max_msg_size cfg) = wire (answer m code fresh [] None)"
    "wire (answer m code fresh [] None) \<noteq> []"
proof -
  have "length (wire (answer m code fresh [] None)) \<le> 12"
    using assms(1,2) by (simp add: wire_def wire_header_def wire_payload_def answer_def wf_message_def)
  then show "encode (answer m code fresh [] None) (max_msg_size cfg) =
      wire (answer m code fresh [] None)"
    using assms(3) by (simp add: encode_wire_gen answer_def)
  show "wire (answer m code fresh [] None) \<noteq> []" by (simp add: wire_def wire_header_def)
qed

lemma send_error_reply:
  assumes "wf_message cfg m" "valid_config cfg"
  shows "send_error cfg m to code s =
    sv_send to (wire (answer m code (sv_nextMessageId s) [] None))
      (s\<lparr>sv_nextMessageId := next_id m (sv_nextMessageId s)\<rparr>)"
proof -
  have "response_to m f code None CF_TextPlain (- 1) = answer m code f [] None" for f
    by (simp add: response_to_def reply_options_def reply_payload_def)
  then show ?thesis
    using assms encode_error_reply [of cfg m code]
    by (simp add: send_error_def sendPiggybackedResponse_encoded wf_message_def valid_config_def
        send_encoded_def)
qed

text \<open>What a peer that runs the same codec reads from a reply.\<close>

lemma decode_answer:
  assumes "wf_message cfg m" "max_token_len cfg = 8" "length options \<le> max_options cfg"
    "list_all wf_option options" "payload \<noteq> Some []"
  shows "decode cfg (wire (answer m code fresh options payload)) =
    Decoded (answer m code fresh options payload)"
  using decode_wire [OF wf_answer [OF assms(1,3-5)] assms(2), of code fresh]
  by (simp add: answer_def)

section \<open>Requests that are refused and requests that are served\<close>

definition method_allowed :: "message \<Rightarrow> resource \<Rightarrow> bool" where
  "method_allowed m r \<longleftrightarrow>
     (case requested_mask (msg_code m) of None \<Rightarrow> False | Some b \<Rightarrow> rs_methods r AND b \<noteq> 0)"

text \<open>The error code a request earns before any handler or table is touched.\<close>

definition refusal :: "config \<Rightarrow> resource list \<Rightarrow> message \<Rightarrow> u8 option" where
  "refusal cfg rs m =
     (case joinUriPath m (max_uri_path_len cfg) of
        None \<Rightarrow> Some Code_BadOption
      | Some p \<Rightarrow>
          (case route cfg rs (cstr p) of
             None \<Rightarrow> Some Code_NotFound
           | Some (i, ps) \<Rightarrow>
               if requested_mask (msg_code m) = None then Some Code_NotImplemented
               else if \<not> method_allowed m (rs ! i) then Some Code_MethodNotAllowed
               else None))"

lemma server_inv_route:
  assumes "server_inv cfg s" "valid_config cfg"
  shows "findResource cfg (sv_resources s) p True =
    (case route cfg (sv_resources s) p of None \<Rightarrow> NotFound | Some (i, ps) \<Rightarrow> Found i ps)"
  using assms by (intro findResource_route) (simp_all add: server_inv_def valid_config_def)

lemma handleRequest_refused:
  assumes inv: "server_inv cfg s" "valid_config cfg" and m: "wf_message cfg m"
    and refused: "refusal cfg (sv_resources s) m = Some code"
  shows "handleRequest cfg env m from s =
    Some (sv_send from (wire (answer m code (sv_nextMessageId s) [] None))
           (s\<lparr>sv_nextMessageId := next_id m (sv_nextMessageId s)\<rparr>))"
  using refused
  by (auto simp: refusal_def handleRequest_def server_inv_route [OF inv] method_allowed_def
      send_error_reply [OF m inv(2)] split: option.splits if_splits)

lemma handleRequest_accepted:
  assumes inv: "server_inv cfg s" "valid_config cfg"
    and ok: "refusal cfg (sv_resources s) m = None"
    and plain: "\<not> enable_blockwise cfg \<or> findOption Opt_Block1 m = None \<or>
      (msg_code m \<noteq> Code_Put \<and> msg_code m \<noteq> Code_Post)"
    and path: "joinUriPath m (max_uri_path_len cfg) = Some p"
    and r: "route cfg (sv_resources s) (cstr p) = Some (i, ps)"
    and o': "handle_observe i m from s = (obs, s1)"
  shows "handleRequest cfg env m from s = Some (handle_plain cfg env i ps m from obs s1)"
  using ok plain path r o'
  by (auto simp: refusal_def handleRequest_def server_inv_route [OF inv] method_allowed_def
      split: option.splits if_splits)

text \<open>A response that is not cut into blocks.\<close>

definition fits_one_block :: "config \<Rightarrow> message \<Rightarrow> bytes option \<Rightarrow> bool" where
  "fits_one_block cfg m p \<longleftrightarrow>
     \<not> enable_blockwise cfg \<or> p = None \<or> p = Some [] \<or>
     ((case findOption Opt_Block2 m of None \<Rightarrow> True | Some opt \<Rightarrow> fromOption opt = None) \<and>
      length (the p) \<le> unat (shift_size (block_szx cfg)))"

lemma reply_plain_whole:
  "fits_one_block cfg m (res_payload res) \<Longrightarrow>
   reply_plain cfg m from obs res s =
     sendPiggybackedResponse cfg m from (res_code res) (res_payload res) (res_contentFormat res) obs s"
  by (auto simp: fits_one_block_def reply_plain_def Let_def split: option.splits)

lemma handle_plain_immediate:
  assumes m: "wf_message cfg m" "valid_config cfg" "fits_one_block cfg m (res_payload res)"
    and d: "reserve_deferred from m s = (d, s1)"
    and run: "run_handler cfg env (sv_resources s1 ! i) (make_request m from d None ps) s1 = (res, s2)"
    and now: "\<not> res_deferred res \<or> d = None"
  shows "handle_plain cfg env i ps m from obs s =
    send_encoded cfg (response_to m (sv_nextMessageId s2) (res_code res) (res_payload res)
        (res_contentFormat res) obs) from
      ((unreserve_deferred d s2)\<lparr>sv_nextMessageId := next_id m (sv_nextMessageId s2)\<rparr>)"
proof -
  have "sv_nextMessageId (unreserve_deferred d s2) = sv_nextMessageId s2"
    by (simp add: unreserve_deferred_def split: option.split)
  then show ?thesis
    using m now by (auto simp: handle_plain_def d run reply_plain_whole [OF m(3)]
        sendPiggybackedResponse_encoded wf_message_def valid_config_def)
qed

section \<open>Notifications\<close>

definition subscribed :: "u8 \<Rightarrow> observer \<Rightarrow> bool" where
  "subscribed idx ob \<longleftrightarrow> ob_active ob \<and> ob_resourceIndex ob = idx"

text \<open>
  The notifications of one update, in slot order, each with its own message ID, and the
  observer table after it.
\<close>

fun notifications ::
    "config \<Rightarrow> u8 \<Rightarrow> u32 \<Rightarrow> bytes option \<Rightarrow> u16 \<Rightarrow> bool \<Rightarrow> u16 \<Rightarrow> observer list \<Rightarrow>
     (observer \<times> u16 \<times> bytes) list" where
  "notifications cfg idx sq p fmt con mid [] = []"
| "notifications cfg idx sq p fmt con mid (ob # obs) =
     (if subscribed idx ob
      then (ob, mid, encode (notification_message cfg ob mid sq p fmt con) (max_msg_size cfg)) #
           notifications cfg idx sq p fmt con (mid + 1) obs
      else notifications cfg idx sq p fmt con mid obs)"

fun stamped :: "u8 \<Rightarrow> u16 \<Rightarrow> observer list \<Rightarrow> observer list" where
  "stamped idx mid [] = []"
| "stamped idx mid (ob # obs) =
     (if subscribed idx ob then ob\<lparr>ob_lastSentMessageId := mid\<rparr> # stamped idx (mid + 1) obs
      else ob # stamped idx mid obs)"

definition sent_of :: "(observer \<times> u16 \<times> bytes) list \<Rightarrow> (endpoint \<times> bytes) list" where
  "sent_of ns = map (\<lambda>(ob, mid, d). (ob_remote ob, d)) (filter (\<lambda>(ob, mid, d). d \<noteq> []) ns)"

definition track_notification ::
    "config \<Rightarrow> bool \<Rightarrow> u32 \<Rightarrow> observer \<times> u16 \<times> bytes \<Rightarrow> pool \<Rightarrow> pool" where
  "track_notification cfg con now n pl =
     (case n of (ob, mid, d) \<Rightarrow>
        if con \<and> d \<noteq> [] then snd (tx_start cfg (ob_remote ob) mid (ob_token ob) d now pl) else pl)"

lemma notifications_snoc:
  "notifications cfg idx sq p fmt con mid (obs @ [ob]) =
     notifications cfg idx sq p fmt con mid obs @
     (if subscribed idx ob
      then let k = mid + of_nat (length (filter (subscribed idx) obs))
           in [(ob, k, encode (notification_message cfg ob k sq p fmt con) (max_msg_size cfg))]
      else [])"
  by (induction obs arbitrary: mid) (auto simp: Let_def algebra_simps)

lemma stamped_snoc:
  "stamped idx mid (obs @ [ob]) =
     stamped idx mid obs @
     [if subscribed idx ob
      then ob\<lparr>ob_lastSentMessageId := mid + of_nat (length (filter (subscribed idx) obs))\<rparr> else ob]"
  by (induction obs arbitrary: mid) (auto simp: algebra_simps)

lemma length_stamped [simp, len_simps]: "length (stamped idx mid obs) = length obs"
  by (induction obs arbitrary: mid) auto

lemma sent_of_append [simp]: "sent_of (a @ b) = sent_of a @ sent_of b"
  by (simp add: sent_of_def)

lemma notify_slot_step:
  assumes "subscribed (of_nat idx) (sv_observers s ! i)"
    and "n = (sv_observers s ! i, sv_nextMessageId s,
      encode (notification_message cfg (sv_observers s ! i) (sv_nextMessageId s) sq p fmt con)
        (max_msg_size cfg))"
  shows "sv_observers (notify_slot cfg idx sq p fmt con i s) =
      (sv_observers s)[i := (sv_observers s ! i)\<lparr>ob_lastSentMessageId := sv_nextMessageId s\<rparr>]"
    and "sv_nextMessageId (notify_slot cfg idx sq p fmt con i s) = sv_nextMessageId s + 1"
    and "tp_sent (sv_transport (notify_slot cfg idx sq p fmt con i s)) =
      tp_sent (sv_transport s) @ sent_of [n]"
    and "sv_txPool (notify_slot cfg idx sq p fmt con i s) =
      track_notification cfg con (sv_lastNowMs s) n (sv_txPool s)"
    and "sv_lastNowMs (notify_slot cfg idx sq p fmt con i s) = sv_lastNowMs s"
  using assms
  by (simp_all add: notify_slot_def Let_def subscribed_def frame_simps sent_of_def
      track_notification_def)

lemma notify_fold:
  assumes "n \<le> length (sv_observers s)"
    and "ns = notifications cfg (of_nat idx) sq p fmt con (sv_nextMessageId s) (take n (sv_observers s))"
    and "t = fold (notify_slot cfg idx sq p fmt con) [0..<n] s"
  shows "sv_observers t =
           stamped (of_nat idx) (sv_nextMessageId s) (take n (sv_observers s)) @ drop n (sv_observers s) \<and>
         sv_nextMessageId t = sv_nextMessageId s +
           of_nat (length (filter (subscribed (of_nat idx)) (take n (sv_observers s)))) \<and>
         tp_sent (sv_transport t) = tp_sent (sv_transport s) @ sent_of ns \<and>
         sv_txPool t = fold (track_notification cfg con (sv_lastNowMs s)) ns (sv_txPool s) \<and>
         sv_lastNowMs t = sv_lastNowMs s"
  using assms
proof (induction n arbitrary: ns t)
  case 0
  then show ?case by (simp add: sent_of_def)
next
  case (Suc n)
  let ?t = "fold (notify_slot cfg idx sq p fmt con) [0..<n] s"
  let ?obs = "sv_observers s" and ?i = "of_nat idx :: u8"
  let ?k = "sv_nextMessageId s + of_nat (length (filter (subscribed ?i) (take n ?obs)))"
  have n: "n < length ?obs" using Suc.prems by simp
  have take: "take (Suc n) ?obs = take n ?obs @ [?obs ! n]" using n by (simp add: take_Suc_conv_app_nth)
  have drop: "drop n ?obs = ?obs ! n # drop (Suc n) ?obs" using n by (simp add: Cons_nth_drop_Suc)
  note IH = Suc.IH [OF less_imp_le [OF n] refl refl]
  have nth: "sv_observers ?t ! n = ?obs ! n"
    using IH n by (simp add: nth_append min_def)
  have upd: "(sv_observers ?t)[n := x] = stamped ?i (sv_nextMessageId s) (take n ?obs) @ x # drop (Suc n) ?obs"
    for x using IH n drop by (simp add: list_update_append min_def)
  have fold: "t = notify_slot cfg idx sq p fmt con n ?t" using Suc.prems(3) by simp
  show ?case
  proof (cases "subscribed ?i (?obs ! n)")
    case False
    then have "notify_slot cfg idx sq p fmt con n ?t = ?t"
      by (auto simp: notify_slot_def Let_def nth subscribed_def)
    with IH False show ?thesis
      using fold Suc.prems(2) unfolding take by (simp add: notifications_snoc stamped_snoc drop)
  next
    case True
    have "subscribed ?i (sv_observers ?t ! n)" using True nth by simp
    note st = notify_slot_step [OF this refl, of cfg sq p fmt con, folded fold, unfolded nth upd]
    have k: "sv_nextMessageId ?t = ?k" using IH by blast
    show ?thesis
      using IH True Suc.prems(2) unfolding take
      by (simp add: st k notifications_snoc stamped_snoc Let_def)
  qed
qed

end
