(* ===== verification/Coap_Observe.thy ===== *)
theory Coap_Observe
  imports Coap_Exchange
begin

text \<open>
  The observer table over time: registration keeps at most one entry per peer and token, a
  notification reaches exactly the subscribed entries, and an entry ends by deregistration,
  by a Reset, or when a Confirmable notification to it is given up.
\<close>

section \<open>Registration\<close>

definition same_observation :: "observer \<Rightarrow> observer \<Rightarrow> bool" where
  "same_observation a b \<longleftrightarrow> ep_eq (ob_remote a) (ob_remote b) \<and> ob_token a = ob_token b"

definition distinct_observers :: "observer list \<Rightarrow> bool" where
  "distinct_observers obs \<longleftrightarrow>
     (\<forall>i < length obs. \<forall>j < length obs. i \<noteq> j \<longrightarrow> ob_active (obs ! i) \<longrightarrow> ob_active (obs ! j) \<longrightarrow>
        \<not> same_observation (obs ! i) (obs ! j))"

lemma distinct_observersD:
  "distinct_observers obs \<Longrightarrow> i < length obs \<Longrightarrow> j < length obs \<Longrightarrow> i \<noteq> j \<Longrightarrow>
   ob_active (obs ! i) \<Longrightarrow> ob_active (obs ! j) \<Longrightarrow> \<not> same_observation (obs ! i) (obs ! j)"
  by (simp add: distinct_observers_def)

text \<open>Changing an entry without changing whom it notifies, or dropping entries, is harmless.\<close>

lemma distinct_observers_weaken:
  assumes "distinct_observers obs" "length obs' = length obs"
    and "\<And>i. i < length obs \<Longrightarrow> ob_active (obs' ! i) \<Longrightarrow> ob_active (obs ! i) \<and>
           ob_remote (obs' ! i) = ob_remote (obs ! i) \<and> ob_token (obs' ! i) = ob_token (obs ! i)"
  shows "distinct_observers obs'"
  using assms unfolding distinct_observers_def same_observation_def by metis

lemma distinct_observers_update:
  assumes "distinct_observers obs"
    and "ob_active ob \<Longrightarrow> ob_active (obs ! i) \<and>
           ob_remote ob = ob_remote (obs ! i) \<and> ob_token ob = ob_token (obs ! i)"
  shows "distinct_observers (obs[i := ob])"
proof (cases "i < length obs")
  case True
  show ?thesis
    by (rule distinct_observers_weaken [OF assms(1)])
      (use True assms(2) in \<open>auto simp: nth_list_update split: if_splits\<close>)
qed (use assms(1) in \<open>simp add: list_update_beyond\<close>)

lemma observes_iff: "observes remote token ob \<longleftrightarrow>
    ob_active ob \<and> ep_eq (ob_remote ob) remote \<and> ob_token ob = token"
  by (simp add: observes_def)

lemma registerObserver_distinct:
  assumes obs: "distinct_observers obs"
  shows "distinct_observers (registerObserver idx remote token obs)"
proof (cases "first_slot (observes remote token) obs")
  case (Some i)
  then show ?thesis
    using obs by (auto simp: registerObserver_def intro!: distinct_observers_update)
next
  case fresh: None
  then have none: "\<not> observes remote token (obs ! j)" if "j < length obs" for j
    using that by (auto simp: first_slot_None_iff)
  show ?thesis
  proof (cases "claim_slot ob_active (fill_observer idx remote token) obs")
    case None
    with fresh obs show ?thesis by (simp add: registerObserver_def)
  next
    case (Some c)
    obtain k obs' where c: "c = (k, obs')" by fastforce
    note s = claim_slot_SomeD [OF Some [unfolded c]]
    have act: "ob_remote (obs' ! k) = remote" "ob_token (obs' ! k) = token"
      using s(1,3) by (simp_all add: fill_observer_def)
    have other: "obs' ! j = obs ! j" if "j \<noteq> k" for j using s(3) that by simp
    have "\<not> same_observation (obs' ! a) (obs' ! b)"
      if "a < length obs'" "b < length obs'" "a \<noteq> b" "ob_active (obs' ! a)" "ob_active (obs' ! b)" for a b
    proof
      assume same: "same_observation (obs' ! a) (obs' ! b)"
      then have same': "same_observation (obs' ! b) (obs' ! a)"
        by (auto simp: same_observation_def intro: ep_eq_sym)
      consider "a = k" | "b = k" | "a \<noteq> k" "b \<noteq> k" by blast
      then show False
      proof cases
        case 1
        with same' that none [of b] other [of b] act s(3) show False
          by (auto simp: same_observation_def observes_iff)
      next
        case 2
        with same that none [of a] other [of a] act s(3) show False
          by (auto simp: same_observation_def observes_iff)
      next
        case 3
        with same that other [of a] other [of b] s(3) distinct_observersD [OF obs, of a b]
        show False by simp
      qed
    qed
    then have "distinct_observers obs'" by (simp add: distinct_observers_def)
    with fresh Some c show ?thesis by (simp add: registerObserver_def)
  qed
qed

text \<open>After a registration the peer is in the table exactly when there was room.\<close>

lemma registerObserver_registers:
  assumes "(\<exists>ob \<in> set obs. observes remote token ob) \<or> occupancy ob_active obs < length obs"
  shows "\<exists>ob \<in> set (registerObserver idx remote token obs).
           observes remote token ob \<and> ob_resourceIndex ob = idx"
proof (cases "first_slot (observes remote token) obs")
  case (Some i)
  let ?ob = "(obs ! i)\<lparr>ob_resourceIndex := idx\<rparr>"
  have "?ob \<in> set (obs[i := ?ob])" using first_slot_lt [OF Some] by (simp add: set_update_memI)
  moreover have "observes remote token ?ob" using first_slot_sat [OF Some] by (simp add: observes_iff)
  ultimately show ?thesis using Some by (auto simp: registerObserver_def intro!: bexI [of _ ?ob])
next
  case None
  with assms have "claim_slot ob_active (fill_observer idx remote token) obs \<noteq> None"
    by (auto simp: first_slot_None_iff claim_slot_None_iff)
  then obtain k obs' where c: "claim_slot ob_active (fill_observer idx remote token) obs = Some (k, obs')"
    by auto
  note s = claim_slot_SomeD [OF c]
  let ?ob = "fill_observer idx remote token (obs ! k)"
  have "?ob \<in> set obs'" using s(1,3) by (simp add: set_update_memI)
  then show ?thesis
    using None c by (auto simp: registerObserver_def observes_iff fill_observer_def intro!: bexI [of _ ?ob])
qed

lemma registerObserver_full:
  assumes "\<forall>ob \<in> set obs. \<not> observes remote token ob" "occupancy ob_active obs = length obs"
  shows "registerObserver idx remote token obs = obs"
proof -
  have "first_slot (observes remote token) obs = None"
    using assms(1) by (simp add: first_slot_None_iff)
  moreover have "claim_slot ob_active (fill_observer idx remote token) obs = None"
    using assms(2) by (simp add: claim_slot_None_iff)
  ultimately show ?thesis by (simp add: registerObserver_def)
qed

lemma removeObserver_removes:
  "ob \<in> set (removeObserver remote token obs) \<Longrightarrow> \<not> observes remote token ob"
proof -
  assume "ob \<in> set (removeObserver remote token obs)"
  then obtain x where "ob = (if observes remote token x then drop_observer x else x)"
    unfolding removeObserver_def set_map by blast
  then show "\<not> observes remote token ob" by (cases "observes remote token x")
      (simp_all add: observes_iff drop_observer_def)
qed

lemma removeObserver_distinct:
  "distinct_observers obs \<Longrightarrow> distinct_observers (removeObserver remote token obs)"
  by (rule distinct_observers_weaken [of obs]) (auto simp: removeObserver_def drop_observer_def split: if_splits)

lemma stamp_observer_distinct:
  "distinct_observers obs \<Longrightarrow> distinct_observers (stamp_observer remote token mid obs)"
  by (auto simp: stamp_observer_def intro!: distinct_observers_update split: option.split)

lemma handle_reset_distinct:
  "distinct_observers obs \<Longrightarrow> distinct_observers (handle_reset remote mid obs)"
  by (auto simp: handle_reset_def drop_observer_def intro!: distinct_observers_update split: option.split)

lemma stamped_nth:
  "i < length obs \<Longrightarrow> \<exists>n. stamped idx mid obs ! i = (obs ! i)\<lparr>ob_lastSentMessageId := n\<rparr>"
proof (induction obs arbitrary: i mid)
  case (Cons ob obs)
  show ?case
  proof (cases i)
    case 0
    have "ob = ob\<lparr>ob_lastSentMessageId := ob_lastSentMessageId ob\<rparr>" by simp
    with 0 show ?thesis by (auto simp: exI [of _ mid] intro: exI [of _ "ob_lastSentMessageId ob"])
  next
    case (Suc k)
    with Cons show ?thesis by auto
  qed
qed simp

lemma stamped_distinct: "distinct_observers obs \<Longrightarrow> distinct_observers (stamped idx mid obs)"
proof (rule distinct_observers_weaken)
  fix i assume "i < length obs" "ob_active (stamped idx mid obs ! i)"
  with stamped_nth [OF this(1), of idx mid]
  show "ob_active (obs ! i) \<and> ob_remote (stamped idx mid obs ! i) = ob_remote (obs ! i) \<and>
      ob_token (stamped idx mid obs ! i) = ob_token (obs ! i)" by auto
qed simp_all

section \<open>Notification\<close>

lemma notify_spec:
  assumes "findResource cfg (sv_resources s) path False = Found i ps"
    and "rs_observable (sv_resources s ! i)"
    and "sq = rs_observeSequence (sv_resources s ! i) + 1"
    and "ns = notifications cfg (of_nat i) sq p fmt con (sv_nextMessageId s) (sv_observers s)"
    and "notify cfg path p fmt con s = (ok, s')"
  shows "ok \<and> tp_sent (sv_transport s') = tp_sent (sv_transport s) @ sent_of ns \<and>
    sv_observers s' = stamped (of_nat i) (sv_nextMessageId s) (sv_observers s) \<and>
    sv_nextMessageId s' = sv_nextMessageId s + of_nat (length ns) \<and>
    sv_txPool s' = fold (track_notification cfg con (sv_lastNowMs s)) ns (sv_txPool s)"
proof -
  let ?r = "sv_resources s ! i"
  let ?s1 = "s\<lparr>sv_resources := (sv_resources s)[i := ?r\<lparr>rs_observeSequence := sq\<rparr>]\<rparr>"
  have s': "ok" "s' = fold (notify_slot cfg i sq p fmt con) [0..<length (sv_observers ?s1)] ?s1"
    using assms by (auto simp: notify_def Let_def)
  have "length (filter (subscribed (of_nat i)) obs) =
      length (notifications cfg (of_nat i) sq p fmt con mid obs)" for obs mid
    by (induction obs arbitrary: mid) auto
  with notify_fold [of "length (sv_observers ?s1)" ?s1 ns cfg i sq p fmt con s'] s' assms(4)
  show ?thesis by simp
qed

lemma notifications_receivers:
  "map (\<lambda>(ob, mid, d). ob) (notifications cfg idx sq p fmt con mid obs) = filter (subscribed idx) obs"
  by (induction obs arbitrary: mid) auto

lemma sent_of_receivers:
  assumes "\<forall>(ob, mid, d) \<in> set ns. d \<noteq> []"
  shows "map fst (sent_of ns) = map (\<lambda>(ob, mid, d). ob_remote ob) ns"
proof -
  have "filter (\<lambda>(ob, mid, d). d \<noteq> []) ns = ns" using assms by (auto intro: filter_True)
  then show ?thesis by (simp add: sent_of_def comp_def split_def)
qed

section \<open>Uniqueness in every state of a running server\<close>

lemma api_step_distinct:
  assumes "api_step cfg s s'" "distinct_observers (sv_observers s)"
  shows "distinct_observers (sv_observers s')"
  using assms(1)
proof (cases rule: api_step.cases)
  case (api_add p methods h ctx observable ok)
  with assms(2) show ?thesis by (auto simp: addResource_def split: if_splits)
next
  case (api_type path rt ok)
  with assms(2) show ?thesis by (auto simp: setResourceType_def split: find_result.splits)
next
  case (api_notify path payload fmt confirmable ok)
  show ?thesis
  proof (cases "ok")
    case True
    with api_notify obtain i ps where "findResource cfg (sv_resources s) path False = Found i ps"
      "rs_observable (sv_resources s ! i)"
      by (auto simp: notify_def Let_def split: find_result.splits if_splits)
    from notify_spec [OF this refl refl api_notify] assms(2) show ?thesis
      by (simp add: stamped_distinct)
  next
    case False
    with api_notify assms(2) show ?thesis
      by (auto simp: notify_def Let_def split: find_result.splits if_splits)
  qed
next
  case (api_respond hdl code payload fmt ok)
  with assms(2) show ?thesis
    by (auto simp: respond_def Let_def frame_simps split: if_splits)
next
  case (api_globals f)
  with assms(2) show ?thesis by simp
qed

lemma api_reach_distinct:
  "api_reach cfg s s' \<Longrightarrow> distinct_observers (sv_observers s) \<Longrightarrow> distinct_observers (sv_observers s')"
  by (induction rule: rtranclp_induct) (auto dest: api_step_distinct)

lemma run_handler_distinct:
  assumes "handlers_ok cfg env" "distinct_observers (sv_observers s)"
  shows "distinct_observers (sv_observers (snd (run_handler cfg env r req s)))"
proof (cases "rs_handler r")
  case WellKnownCore
  with assms show ?thesis
    by (simp add: run_handler_def wellKnownCoreHandler_def buildLinkFormat_def Let_def)
next
  case (AppHandler h)
  with assms show ?thesis by (simp add: run_handler_def handlers_ok_def) (meson api_reach_distinct)
qed

lemma deferral_observers [frame_simps]:
  "sv_observers (snd (reserve_deferred from m s)) = sv_observers s"
  "sv_observers (unreserve_deferred d s) = sv_observers s"
  "sv_observers (freeBlock1Session k s) = sv_observers s"
  by (auto simp: reserve_deferred_def unreserve_deferred_def freeBlock1Session_def split: option.split)

lemma handle_plain_distinct:
  assumes "handlers_ok cfg env" "distinct_observers (sv_observers s)"
  shows "distinct_observers (sv_observers (handle_plain cfg env i ps m from obs s))"
  using assms run_handler_distinct [OF assms(1)]
  by (simp add: handle_plain_def split_def Let_def frame_simps)

lemma finish_block1_distinct:
  assumes "handlers_ok cfg env" "distinct_observers (sv_observers s)"
  shows "distinct_observers (sv_observers (finish_block1 cfg env i k ps m from obs s))"
  using assms run_handler_distinct [OF assms(1)]
  by (simp add: finish_block1_def split_def Let_def frame_simps)

lemma handle_block1_distinct:
  assumes "handlers_ok cfg env" "distinct_observers (sv_observers s)"
  shows "distinct_observers (sv_observers (handle_block1 cfg env i ps m from obs opt s))"
  using assms finish_block1_distinct [OF assms(1)]
  by (auto simp: handle_block1_def accept_block1_def Let_def frame_simps split: option.split)

lemma handle_observe_distinct:
  "distinct_observers (sv_observers s) \<Longrightarrow>
   distinct_observers (sv_observers (snd (handle_observe i m from s)))"
  by (auto simp: handle_observe_def Let_def split: option.split
      intro: stamp_observer_distinct registerObserver_distinct removeObserver_distinct)

lemma handleRequest_distinct:
  assumes "handlers_ok cfg env" "distinct_observers (sv_observers s)"
    and "handleRequest cfg env m from s = Some s'"
  shows "distinct_observers (sv_observers s')"
  using assms handle_observe_distinct [OF assms(2)]
  by (auto simp: handleRequest_def Let_def frame_simps split_def
      intro: handle_plain_distinct handle_block1_distinct
      split: option.splits find_result.splits if_splits)

lemma handle_datagram_distinct:
  assumes "handlers_ok cfg env" "distinct_observers (sv_observers s)"
    and "handle_datagram cfg env from d s = Some s'"
  shows "distinct_observers (sv_observers s')"
  using assms
  by (auto simp: handle_datagram_def intro: handleRequest_distinct handle_reset_distinct
      split: decode_result.splits if_splits)

section \<open>The tick\<close>

definition gives_up_on :: "config \<Rightarrow> u32 \<Rightarrow> transaction \<Rightarrow> observer \<Rightarrow> bool" where
  "gives_up_on cfg now t ob \<longleftrightarrow>
     snd (tick_tx cfg now t) = GaveUp \<and> observes (tx_remote t) (tx_token t) ob"

lemma tick_slot_observers:
  "sv_observers (tick_slot cfg sv_txPool put_sv_pool separateResend observeTimeout now i s) =
     map (\<lambda>ob. if gives_up_on cfg now (sv_txPool s ! i) ob then drop_observer ob else ob)
       (sv_observers s)"
  by (auto simp: tick_slot_tick_tx gives_up_on_def Let_def put_sv_pool_def separateResend_def
      observeTimeout_def removeObserver_def frame_simps map_idI
      split: prod.split tick_event.split)

lemma server_tick_prefix_observers:
  "n \<le> length (sv_txPool s) \<Longrightarrow>
   sv_observers (fold (tick_slot cfg sv_txPool put_sv_pool separateResend observeTimeout now) [0..<n] s) =
     map (\<lambda>ob. if \<exists>t \<in> set (take n (sv_txPool s)). gives_up_on cfg now t ob
              then drop_observer ob else ob) (sv_observers s)"
proof (induction n)
  case 0
  then show ?case by simp
next
  case (Suc n)
  let ?s = "fold (tick_slot cfg sv_txPool put_sv_pool separateResend observeTimeout now) [0..<n] s"
  have nth: "sv_txPool ?s ! n = sv_txPool s ! n"
    using Suc.prems by (simp add: sv_quiet.tick_prefix_pool nth_append min_def)
  have take: "take (Suc n) (sv_txPool s) = take n (sv_txPool s) @ [sv_txPool s ! n]"
    using Suc.prems by (simp add: take_Suc_conv_app_nth)
  have idem: "\<not> gives_up_on cfg now t (drop_observer ob)" for t ob
    by (simp add: gives_up_on_def observes_iff drop_observer_def)
  have "sv_observers (fold (tick_slot cfg sv_txPool put_sv_pool separateResend observeTimeout now)
        [0..<Suc n] s) =
      map (\<lambda>ob. if gives_up_on cfg now (sv_txPool s ! n) ob then drop_observer ob else ob)
        (sv_observers ?s)"
    by (simp add: tick_slot_observers nth)
  with Suc show ?case by (auto simp: take idem)
qed

lemma server_tick_observers:
  "sv_observers (tx_tick cfg sv_txPool put_sv_pool separateResend observeTimeout now s) =
     map (\<lambda>ob. if \<exists>t \<in> set (sv_txPool s). gives_up_on cfg now t ob then drop_observer ob else ob)
       (sv_observers s)"
  using server_tick_prefix_observers [of "length (sv_txPool s)" s] by (simp add: tx_tick_def)

lemma server_tick_distinct:
  "distinct_observers (sv_observers s) \<Longrightarrow>
   distinct_observers (sv_observers (tx_tick cfg sv_txPool put_sv_pool separateResend observeTimeout now s))"
  by (rule distinct_observers_weaken [of "sv_observers s"])
    (auto simp: server_tick_observers drop_observer_def split: if_splits)

lemma running_distinct:
  assumes "handlers_ok cfg env" "running cfg env s"
  shows "distinct_observers (sv_observers s)"
proof -
  obtain t globals where "(server_step cfg env)\<^sup>*\<^sup>* (deploy globals (new_server cfg t)) s"
    using assms(2) by (auto simp: running_def)
  then show ?thesis
  proof (induction rule: rtranclp_induct)
    case base
    show ?case by (simp add: new_server_def distinct_observers_def empty_observer_def)
  next
    case (step s1 s2)
    from step.hyps(2) show ?case
    proof cases
      case (step_begin port ok)
      with step.IH show ?thesis
        by (auto simp: server_begin_def addResource_def Let_def split: if_splits)
    next
      case step_api
      with api_step_distinct step.IH show ?thesis by blast
    next
      case (step_network inbox results)
      with step.IH show ?thesis by simp
    next
      case (step_poll now)
      then show ?thesis
        using server_tick_distinct [of "s1\<lparr>sv_lastNowMs := now\<rparr>" cfg now] step.IH
        by (auto simp: server_poll_def Let_def split_def
            intro: handle_datagram_distinct [OF assms(1), rotated])
    qed
  qed
qed

end
