(* ===== verification/Coap_Transfer.thy ===== *)
theory Coap_Transfer
  imports Coap_Exchange
begin

text \<open>
  Bodies that do not travel in one exchange: separate responses to deferred requests,
  Block1 uploads that the server reassembles, and Block2 responses that it slices.
\<close>

section \<open>Deferred requests\<close>

definition separate_response ::
    "deferred_request \<Rightarrow> u16 \<Rightarrow> u8 \<Rightarrow> bytes option \<Rightarrow> u16 \<Rightarrow> message" where
  "separate_response d mid code payload fmt =
     \<lparr>msg_type = (if df_wasConfirmable d then Confirmable else NonConfirmable),
      msg_code = code, msg_messageId = mid, msg_token = df_token d,
      msg_options = reply_options fmt (- 1) payload, msg_lastOptionNumber = 0,
      msg_payload = reply_payload payload\<rparr>"

lemma respond_refused:
  assumes "max_deferred cfg \<le> unat h \<or> \<not> df_active (sv_deferred s ! unat h)"
  shows "respond cfg h code p fmt s = (False, s)"
  using assms by (auto simp: respond_def Let_def)

lemma respond_message:
  assumes "length (df_token d) \<le> max_token_len cfg" "1 \<le> max_options cfg"
    and "m1 = (snd (setToken cfg (df_token d) (reset_message\<lparr>msg_type :=
          (if df_wasConfirmable d then Confirmable else NonConfirmable), msg_messageId := mid\<rparr>)))
          \<lparr>msg_code := code\<rparr>"
  shows "encode (case p of None \<Rightarrow> m1 | Some b \<Rightarrow> if b = [] then m1
            else setPayload (Some b) (snd (addOptionUint cfg Opt_ContentFormat (ucast fmt) m1))) cap =
         encode (separate_response d mid code p fmt) cap"
proof -
  have m1: "m1 = \<lparr>msg_type = (if df_wasConfirmable d then Confirmable else NonConfirmable),
      msg_code = code, msg_messageId = mid, msg_token = df_token d, msg_options = [],
      msg_lastOptionNumber = 0, msg_payload = None\<rparr>"
    using assms(1) by (simp add: assms(3) setToken_def reset_message_def)
  have c: "addOptionUint cfg Opt_ContentFormat v m1 =
      (True, m1\<lparr>msg_options := [uint_option Opt_ContentFormat v],
                 msg_lastOptionNumber := Opt_ContentFormat\<rparr>)" for v
    using addOptionUint_append [of m1 cfg Opt_ContentFormat v] assms(2) by (simp add: m1)
  show ?thesis
  proof (cases "p = None \<or> p = Some []")
    case True
    then show ?thesis
      by (auto simp: m1 separate_response_def reply_options_def reply_payload_def)
  next
    case False
    then obtain b where b: "p = Some b" "b \<noteq> []" by auto
    have "setPayload (Some b) (snd (addOptionUint cfg Opt_ContentFormat (ucast fmt) m1)) =
        (separate_response d mid code p fmt)\<lparr>msg_lastOptionNumber := Opt_ContentFormat\<rparr>"
      unfolding c using b
      by (simp add: m1 separate_response_def reply_options_def reply_payload_def setPayload_def)
    with b show ?thesis by (simp add: encode_last_option)
  qed
qed

lemma respond_spec:
  assumes "unat h < max_deferred cfg" and d: "d = sv_deferred s ! unat h" "df_active d"
    and tok: "length (df_token d) \<le> max_token_len cfg" "1 \<le> max_options cfg"
    and buf: "buf = encode (separate_response d (sv_nextMessageId s) code p fmt) (max_msg_size cfg)"
    and run: "respond cfg h code p fmt s = (ok, s')"
  shows "ok \<longleftrightarrow> buf \<noteq> []"
    and "tp_sent (sv_transport s') =
      tp_sent (sv_transport s) @ (if buf = [] then [] else [(df_remote d, buf)])"
    and "sv_deferred s' = (sv_deferred s)[unat h := release_deferred d]"
    and "sv_txPool s' = (if buf \<noteq> [] \<and> df_wasConfirmable d
      then snd (tx_start cfg (df_remote d) (sv_nextMessageId s) (df_token d) buf
                  (sv_lastNowMs s) (sv_txPool s))
      else sv_txPool s)"
proof -
  note e = respond_message [OF tok refl, where p = p and fmt = fmt and code = code
      and mid = "sv_nextMessageId s" and cap = "max_msg_size cfg", folded buf]
  show "ok \<longleftrightarrow> buf \<noteq> []"
    and "tp_sent (sv_transport s') =
      tp_sent (sv_transport s) @ (if buf = [] then [] else [(df_remote d, buf)])"
    and "sv_deferred s' = (sv_deferred s)[unat h := release_deferred d]"
    and "sv_txPool s' = (if buf \<noteq> [] \<and> df_wasConfirmable d
      then snd (tx_start cfg (df_remote d) (sv_nextMessageId s) (df_token d) buf
                  (sv_lastNowMs s) (sv_txPool s))
      else sv_txPool s)"
    using run assms(1) d(2)
    by (auto simp: respond_def Let_def d(1) [symmetric] e frame_simps split: if_splits)
qed

text \<open>The deferred slots before and after a request that is answered at once.\<close>

lemma reserve_unreserve_occupancy:
  assumes "reserve_deferred from m s = (d, s1)" "sv_deferred s2 = sv_deferred s1"
  shows "occupancy df_active (sv_deferred (unreserve_deferred d s2)) = occupancy df_active (sv_deferred s)"
proof (cases "allocateDeferred (sv_deferred s)")
  case None
  with assms show ?thesis by (auto simp: reserve_deferred_def unreserve_deferred_def)
next
  case (Some i)
  then have c: "claim_slot df_active (fill_deferred from m) (sv_deferred s) =
      Some (i, (sv_deferred s)[i := fill_deferred from m (sv_deferred s ! i)])"
    by (simp add: claim_slot_def allocateDeferred_def)
  have "d = Some i" "sv_deferred s2 = (sv_deferred s)[i := fill_deferred from m (sv_deferred s ! i)]"
    using assms Some by (auto simp: reserve_deferred_def)
  moreover have "claim_slot df_active (case (from, m) of (f, m) \<Rightarrow> fill_deferred f m) (sv_deferred s) =
      Some (i, (sv_deferred s)[i := fill_deferred from m (sv_deferred s ! i)])"
    using c by simp
  from deferred_table.claim_then_release [OF this]
  have "occupancy df_active ((sv_deferred s)[i := fill_deferred from m (sv_deferred s ! i),
      i := release_deferred ((sv_deferred s)[i := fill_deferred from m (sv_deferred s ! i)] ! i)]) =
      occupancy df_active (sv_deferred s)" .
  ultimately show ?thesis by (simp add: unreserve_deferred_def)
qed

section \<open>Block1: reassembly\<close>

text \<open>Slot \<open>k\<close> holds the upload of that peer and token: \<open>n\<close> blocks, whose bytes are \<open>buf\<close>.\<close>

definition uploading :: "endpoint \<Rightarrow> bytes \<Rightarrow> nat \<Rightarrow> nat \<Rightarrow> bytes \<Rightarrow> 'w server_scheme \<Rightarrow> bool" where
  "uploading remote token k n buf s \<longleftrightarrow>
     findBlock1Session remote token (sv_block1sessions s) = Some k \<and>
     b1_nextExpectedNum (sv_block1sessions s ! k) = of_nat n \<and>
     b1_buffer (sv_block1sessions s ! k) = buf"

lemma first_slot_update:
  assumes "first_slot P xs = Some k" "P y"
  shows "first_slot P (xs[k := y]) = Some k"
proof -
  note k = first_slot_SomeD [OF assms(1)]
  then show ?thesis using assms(2) by (intro first_slot_unique) auto
qed

lemma uploading_advance:
  assumes "uploading remote token k n buf s"
    and "sess' = (sv_block1sessions s ! k)\<lparr>b1_buffer := buf', b1_nextExpectedNum := of_nat n'\<rparr>"
  shows "uploading remote token k n' buf' (s\<lparr>sv_block1sessions := (sv_block1sessions s)[k := sess']\<rparr>)"
proof -
  have f: "first_slot (session_matches remote token) (sv_block1sessions s) = Some k"
    using assms(1) by (simp add: uploading_def findBlock1Session_def)
  note k = first_slot_SomeD [OF f]
  then have "session_matches remote token sess'" by (simp add: assms(2) session_matches_def)
  from first_slot_update [OF f this] k show ?thesis
    by (simp add: uploading_def findBlock1Session_def assms(2))
qed

lemma uploading_cong:
  "sv_block1sessions s' = sv_block1sessions s \<Longrightarrow>
   uploading remote token k n buf s' = uploading remote token k n buf s"
  by (simp add: uploading_def)

lemma handle_block1_more:
  assumes up: "uploading from (msg_token m) k n buf s"
    and opt: "fromOption opt = Some b1" "blk_num b1 = of_nat n" "blk_m b1"
    and fits: "length buf + length (payload_bytes m) \<le> block1_max_body cfg"
  shows "uploading from (msg_token m) k (Suc n) (buf @ payload_bytes m)
    (handle_block1 cfg env i ps m from obs opt s)"
proof -
  let ?sess = "sv_block1sessions s ! k"
  let ?sess' = "?sess\<lparr>b1_buffer := buf @ payload_bytes m, b1_nextExpectedNum := of_nat (Suc n)\<rparr>"
  let ?s1 = "s\<lparr>sv_block1sessions := (sv_block1sessions s)[k := ?sess']\<rparr>"
  have "handle_block1 cfg env i ps m from obs opt s =
      sendContinue cfg m from (toOptionValue (blk_num b1) False (blk_szx b1)) ?s1"
    using up opt fits
    by (simp add: handle_block1_def uploading_def accept_block1_def Let_def payloadLength_bytes
        payload_bytes_def [symmetric] add.commute [of _ 1])
  then show ?thesis
    using uploading_advance [OF up refl, where buf' = "buf @ payload_bytes m" and n' = "Suc n"]
    by (simp add: uploading_cong [OF sendContinue_frame(7)])
qed

text \<open>
  The first block opens a session when there is a free slot; \<open>uploading\<close> with no block yet
  describes the state in between.
\<close>

lemma handle_block1_open:
  assumes none: "findBlock1Session from (msg_token m) (sv_block1sessions s) = None"
    and free: "allocateBlock1Session from (msg_token m) (sv_block1sessions s) = Some (k, bs)"
    and opt: "fromOption opt = Some b1" "blk_num b1 = 0"
  shows "uploading from (msg_token m) k 0 [] (s\<lparr>sv_block1sessions := bs\<rparr>)"
    and "handle_block1 cfg env i ps m from obs opt s =
      handle_block1 cfg env i ps m from obs opt (s\<lparr>sv_block1sessions := bs\<rparr>)"
proof -
  note c = claim_slot_SomeD [OF free [unfolded allocateBlock1Session_def]]
  have none': "\<not> session_matches from (msg_token m) (sv_block1sessions s ! j)"
    if "j < length (sv_block1sessions s)" for j
    using none that by (auto simp: findBlock1Session_def first_slot_None_iff)
  have f: "findBlock1Session from (msg_token m) bs = Some k"
    unfolding findBlock1Session_def
  proof (rule first_slot_unique)
    show "k < length bs" using c by simp
    show "session_matches from (msg_token m) (bs ! k)"
      using c by (simp add: session_matches_def fill_block1_def)
    show "\<not> session_matches from (msg_token m) (bs ! j)" if "j < k" for j
      using none' [of j] that c by simp
  qed
  then show "uploading from (msg_token m) k 0 [] (s\<lparr>sv_block1sessions := bs\<rparr>)"
    using c by (simp add: uploading_def fill_block1_def)
  show "handle_block1 cfg env i ps m from obs opt s =
      handle_block1 cfg env i ps m from obs opt (s\<lparr>sv_block1sessions := bs\<rparr>)"
    using none free opt f by (simp add: handle_block1_def)
qed

text \<open>The final block runs the handler on everything received.\<close>

lemma handle_block1_last:
  assumes up: "uploading from (msg_token m) k n buf s"
    and opt: "fromOption opt = Some b1" "blk_num b1 = of_nat n" "\<not> blk_m b1"
    and fits: "length buf + length (payload_bytes m) \<le> block1_max_body cfg"
  obtains s1 where "uploading from (msg_token m) k (Suc n) (buf @ payload_bytes m) s1"
    "handle_block1 cfg env i ps m from obs opt s = finish_block1 cfg env i k ps m from obs s1"
    "sv_resources s1 = sv_resources s"
proof -
  let ?sess = "sv_block1sessions s ! k"
  let ?sess' = "?sess\<lparr>b1_buffer := buf @ payload_bytes m, b1_nextExpectedNum := of_nat (Suc n)\<rparr>"
  let ?s1 = "s\<lparr>sv_block1sessions := (sv_block1sessions s)[k := ?sess']\<rparr>"
  have "handle_block1 cfg env i ps m from obs opt s = finish_block1 cfg env i k ps m from obs ?s1"
    using up opt fits
    by (simp add: handle_block1_def uploading_def accept_block1_def Let_def payloadLength_bytes
        payload_bytes_def [symmetric] add.commute [of _ 1])
  moreover have "uploading from (msg_token m) k (Suc n) (buf @ payload_bytes m) ?s1"
    by (rule uploading_advance [OF up refl])
  ultimately show thesis using that [of ?s1] by simp
qed

text \<open>A block out of order changes no session and runs no handler.\<close>

lemma handle_block1_unexpected:
  assumes up: "uploading from (msg_token m) k n buf s"
    and opt: "fromOption opt = Some b1" "blk_num b1 \<noteq> of_nat n"
  shows "handle_block1 cfg env i ps m from obs opt s =
    sendContinue cfg m from (toOptionValue (of_nat n - 1) True (blk_szx b1)) s"
  using up opt by (simp add: handle_block1_def uploading_def accept_block1_def Let_def)

section \<open>A whole upload\<close>

text \<open>The server's view of the blocks of one upload, in order, from block \<open>n\<close> on.\<close>

fun feed ::
    "config \<Rightarrow> 'w handler_env \<Rightarrow> nat \<Rightarrow> path_param list \<Rightarrow> endpoint \<Rightarrow> u32 \<Rightarrow> message list \<Rightarrow> 'w server_scheme \<Rightarrow> 'w server_scheme" where
  "feed cfg env i ps from obs [] s = s"
| "feed cfg env i ps from obs (m # ms) s =
     feed cfg env i ps from obs ms
       (case findOption Opt_Block1 m of
          None \<Rightarrow> s
        | Some opt \<Rightarrow> handle_block1 cfg env i ps m from obs opt s)"

definition is_block :: "bytes \<Rightarrow> nat \<Rightarrow> bool \<Rightarrow> message \<Rightarrow> bool" where
  "is_block token n hasMore m \<longleftrightarrow> msg_token m = token \<and>
     (case findOption Opt_Block1 m of
        None \<Rightarrow> False
      | Some opt \<Rightarrow>
          (case fromOption opt of
             None \<Rightarrow> False
           | Some b \<Rightarrow> blk_num b = of_nat n \<and> blk_m b = hasMore))"

fun in_order :: "bytes \<Rightarrow> nat \<Rightarrow> message list \<Rightarrow> bool" where
  "in_order token n [] \<longleftrightarrow> True"
| "in_order token n (m # ms) \<longleftrightarrow> is_block token n True m \<and> in_order token (Suc n) ms"

lemma feed_append: "feed cfg env i ps from obs (xs @ ys) s =
    feed cfg env i ps from obs ys (feed cfg env i ps from obs xs s)"
  by (induction xs arbitrary: s) auto

lemma feed_blocks:
  assumes "in_order token n ms" "uploading from token k n buf s"
    "length buf + length (body_of ms) \<le> block1_max_body cfg"
  shows "uploading from token k (n + length ms) (buf @ body_of ms) (feed cfg env i ps from obs ms s)"
  using assms
proof (induction ms arbitrary: n buf s)
  case Nil
  then show ?case by simp
next
  case (Cons m ms)
  then obtain opt b1 where opt: "findOption Opt_Block1 m = Some opt" "fromOption opt = Some b1"
      "blk_num b1 = of_nat n" "blk_m b1" and tok: "msg_token m = token"
    by (auto simp: is_block_def split: option.splits)
  let ?s = "handle_block1 cfg env i ps m from obs opt s"
  have up: "uploading from (msg_token m) k n buf s" using Cons.prems(2) tok by simp
  have "uploading from (msg_token m) k (Suc n) (buf @ payload_bytes m) ?s"
    by (rule handle_block1_more [OF up opt(2-4)]) (use Cons.prems(3) in simp)
  then have "uploading from token k (Suc n) (buf @ payload_bytes m) ?s" by (simp add: tok)
  from Cons.IH [OF _ this] Cons.prems opt(1) show ?case by simp
qed

lemma feed_one:
  "findOption Opt_Block1 m = Some opt \<Longrightarrow>
   feed cfg env i ps from obs [m] s = handle_block1 cfg env i ps m from obs opt s"
  by simp

text \<open>Opening the session first makes no difference to the run.\<close>

lemma feed_open:
  assumes none: "findBlock1Session from token (sv_block1sessions s) = None"
    and free: "occupancy b1_active (sv_block1sessions s) < length (sv_block1sessions s)"
    and blk: "is_block token 0 hasMore m"
  obtains k bs where "uploading from token k 0 [] (s\<lparr>sv_block1sessions := bs\<rparr>)"
    "feed cfg env i ps from obs (m # ms) s =
     feed cfg env i ps from obs (m # ms) (s\<lparr>sv_block1sessions := bs\<rparr>)"
proof -
  have "claim_slot b1_active (fill_block1 from token) (sv_block1sessions s) \<noteq> None"
    using free by (simp add: claim_slot_None_iff)
  then obtain k bs where c: "allocateBlock1Session from token (sv_block1sessions s) = Some (k, bs)"
    by (auto simp: allocateBlock1Session_def)
  obtain opt b where o': "findOption Opt_Block1 m = Some opt" "fromOption opt = Some b"
      "blk_num b = 0" and tok: "token = msg_token m"
    using blk by (auto simp: is_block_def split: option.splits)
  note op = handle_block1_open [OF none [unfolded tok] c [unfolded tok] o'(2,3)]
  show thesis
    using that [OF op(1) [folded tok]] op(2) o'(1) by simp
qed

lemma feed_upload:
  assumes none: "findBlock1Session from token (sv_block1sessions s) = None"
    and free: "occupancy b1_active (sv_block1sessions s) < length (sv_block1sessions s)"
    and ms: "in_order token 0 ms" and last: "is_block token (length ms) False m"
    and fits: "length (body_of (ms @ [m])) \<le> block1_max_body cfg"
  obtains k s1 where "feed cfg env i ps from obs (ms @ [m]) s = finish_block1 cfg env i k ps m from obs s1"
    "b1_buffer (sv_block1sessions s1 ! k) = body_of (ms @ [m])"
proof -
  obtain hasMore where "is_block token 0 hasMore (hd (ms @ [m]))"
    using ms last by (cases ms) auto
  moreover have "ms @ [m] = hd (ms @ [m]) # tl (ms @ [m])" by (cases ms) auto
  ultimately obtain k bs where up: "uploading from token k 0 [] (s\<lparr>sv_block1sessions := bs\<rparr>)"
    and eq: "feed cfg env i ps from obs (ms @ [m]) s =
      feed cfg env i ps from obs (ms @ [m]) (s\<lparr>sv_block1sessions := bs\<rparr>)"
    using feed_open [OF none free] by metis
  let ?s = "feed cfg env i ps from obs ms (s\<lparr>sv_block1sessions := bs\<rparr>)"
  have up': "uploading from token k (length ms) (body_of ms) ?s"
    using feed_blocks [OF ms up] fits by simp
  obtain opt b where o': "findOption Opt_Block1 m = Some opt" "fromOption opt = Some b"
      "blk_num b = of_nat (length ms)" "\<not> blk_m b" and tok: "token = msg_token m"
    using last by (auto simp: is_block_def split: option.splits)
  have fits': "length (body_of ms) + length (payload_bytes m) \<le> block1_max_body cfg"
    using fits by simp
  obtain s1 where s1: "uploading from (msg_token m) k (Suc (length ms)) (body_of ms @ payload_bytes m) s1"
    "handle_block1 cfg env i ps m from obs opt ?s = finish_block1 cfg env i k ps m from obs s1"
    using handle_block1_last [OF up' [unfolded tok] o'(2-4) fits'] by metis
  show thesis
    using that [of k s1] s1 eq o'(1) by (simp add: feed_append uploading_def)
qed

section \<open>Block2 replies\<close>

definition block2_message ::
    "message \<Rightarrow> u16 \<Rightarrow> u8 \<Rightarrow> bytes \<Rightarrow> u16 \<Rightarrow> u32 \<Rightarrow> u32 \<Rightarrow> u8 \<Rightarrow> message" where
  "block2_message m fresh code p fmt observeValue num szx =
     (let sz = unat (shift_size szx)
      in answer m code fresh
           ((if 0 \<le> sint observeValue then [uint_option Opt_Observe observeValue] else []) @
            [uint_option Opt_ContentFormat (ucast fmt),
             uint_option Opt_Block2 (toOptionValue num (unat num * sz + sz < length p) szx)])
           (Some (slice p sz (unat num))))"

lemma sendBlock2Response_encoded:
  assumes m: "length (msg_token m) \<le> max_token_len cfg" "3 \<le> max_options cfg"
    and n: "unat num * unat (shift_size szx) < length p"
    and more: "hasMore = (unat (shift_size szx) < length p - unat num * unat (shift_size szx))"
  shows "sendBlock2Response cfg m to code p fmt obs num hasMore szx s =
    send_encoded cfg (block2_message m (sv_nextMessageId s) code p fmt obs num szx) to
      (s\<lparr>sv_nextMessageId := next_id m (sv_nextMessageId s)\<rparr>)"
proof -
  let ?sz = "unat (shift_size szx)"
  let ?m0 = "answer m code (sv_nextMessageId s) [] None"
  let ?m1 = "add_observe_option cfg obs ?m0"
  let ?opts = "if 0 \<le> sint obs then [uint_option Opt_Observe obs] else []"
  have m1: "?m1 = ?m0\<lparr>msg_options := ?opts,
      msg_lastOptionNumber := (if 0 \<le> sint obs then Opt_Observe else 0)\<rparr>"
    using m(2) addOptionUint_append [of ?m0 cfg Opt_Observe obs]
    by (auto simp: add_observe_option_def answer_def)
  have m1o: "msg_options ?m1 = ?opts" and m1l: "msg_lastOptionNumber ?m1 \<le> Opt_Observe"
    by (simp_all add: m1)
  let ?m2 = "?m1\<lparr>msg_options := ?opts @ [uint_option Opt_ContentFormat (ucast fmt)],
                msg_lastOptionNumber := Opt_ContentFormat\<rparr>"
  have c: "addOptionUint cfg Opt_ContentFormat (ucast fmt) ?m1 = (True, ?m2)"
  proof -
    have "Opt_Observe \<le> Opt_ContentFormat" by (simp add: opt_defs)
    then have "msg_lastOptionNumber ?m1 \<le> Opt_ContentFormat" using m1l by (rule order_trans [rotated])
    with m(2) m1o show ?thesis by (subst addOptionUint_append) auto
  qed
  let ?b = "toOptionValue num hasMore szx"
  have b: "addOptionUint cfg Opt_Block2 ?b ?m2 = (True, ?m2\<lparr>msg_options :=
      msg_options ?m2 @ [uint_option Opt_Block2 ?b], msg_lastOptionNumber := Opt_Block2\<rparr>)"
    using m(2) by (intro addOptionUint_append) (auto simp: opt_defs)
  have len: "(if length p - unat num * ?sz > ?sz then ?sz else length p - unat num * ?sz) =
      min ?sz (length p - unat num * ?sz)" by simp
  have sl: "take (min ?sz (length p - unat num * ?sz)) (drop (unat num * ?sz) p) = slice p ?sz (unat num)"
    by (simp add: slice_def min_def)
  have mo: "hasMore = (unat num * ?sz + ?sz < length p)" using more n by linarith
  have "setPayload (Some (slice p ?sz (unat num))) (snd (addOptionUint cfg Opt_Block2 ?b ?m2)) =
      (block2_message m (sv_nextMessageId s) code p fmt obs num szx)\<lparr>msg_lastOptionNumber := Opt_Block2\<rparr>"
    unfolding b by (subst m1) (simp add: block2_message_def Let_def answer_def setPayload_def mo)
  then show ?thesis
    using n by (simp add: sendBlock2Response_def reply_message_answer [OF m(1)] Let_def c len sl
        send_encoded_def encode_last_option not_le)
qed

text \<open>What the reply to a GET is, for a payload longer than one block.\<close>

definition requested_block :: "config \<Rightarrow> message \<Rightarrow> u32 \<times> u8" where
  "requested_block cfg m =
     (case findOption Opt_Block2 m of
        None \<Rightarrow> (0, block_szx cfg)
      | Some opt \<Rightarrow> (case fromOption opt of None \<Rightarrow> (0, block_szx cfg) | Some b \<Rightarrow> (blk_num b, blk_szx b)))"

lemma reply_plain_block2:
  assumes m: "wf_message cfg m" "valid_config cfg" "enable_blockwise cfg"
    and r: "requested_block cfg m = (num, szx)"
    and p: "res_payload res = Some p" "unat (shift_size szx) < length p"
    and n: "unat num * unat (shift_size szx) < length p"
  shows "reply_plain cfg m from obs res s =
    send_encoded cfg (block2_message m (sv_nextMessageId s) (res_code res) p (res_contentFormat res)
        obs num szx) from (s\<lparr>sv_nextMessageId := next_id m (sv_nextMessageId s)\<rparr>)"
proof -
  have "length (msg_token m) \<le> max_token_len cfg" "3 \<le> max_options cfg"
    using m by (simp_all add: wf_message_def valid_config_def)
  from sendBlock2Response_encoded [OF this n refl, of "from" "res_code res" "res_contentFormat res" obs s]
  show ?thesis
    using m(3) p r n
    by (auto simp: reply_plain_def requested_block_def Let_def split: option.splits)
qed

lemma reply_plain_past_end:
  assumes m: "enable_blockwise cfg"
    and r: "findOption Opt_Block2 m = Some opt" "fromOption opt = Some b"
    and p: "res_payload res = Some p" "p \<noteq> []"
    and n: "length p \<le> unat (blk_num b) * unat (shift_size (blk_szx b))"
  shows "reply_plain cfg m from obs res s = send_error cfg m from Code_BadRequest s"
  using assms by (simp add: reply_plain_def Let_def)

end
