(* ===== verification/Props_Server.thy ===== *)
theory Props_Server
  imports Coap_Observe Coap_Transfer
begin

text \<open>
  The properties of the server. The concrete instances use a server with one observable
  resource \<^verbatim>\<open>/temp\<close> (GET, PUT), a handler that answers ''21'', and a GET request for it.
\<close>

definition idle_network :: transport where
  "idle_network = \<lparr>tp_begin_ok = True, tp_send_results = [], tp_sent = [], tp_inbox = []\<rparr>"

definition temp_path :: bytes where
  "temp_path = str ''/temp''"

definition temp_env :: "'w handler_env" where
  "temp_env h ctx req res s = (res\<lparr>res_payload := Some [0x32, 0x31]\<rparr>, s)"

definition temp_server :: "config \<Rightarrow> server" where
  "temp_server cfg = snd (addResource cfg (Some temp_path) (MethodGet OR MethodPut)
     (Some (AppHandler 0)) 0 True (new_server cfg idle_network))"

definition client_a :: endpoint where
  "client_a = empty_endpoint\<lparr>ep_ip := [10, 0, 0, 1], ep_port := 40000\<rparr>"

definition get_temp :: message where
  "get_temp = \<lparr>msg_type = Confirmable, msg_code = Code_Get, msg_messageId = 0x1234,
     msg_token = [0xAB], msg_options = [uint_option Opt_Observe 0,
       \<lparr>opt_number = 11, opt_length = 4, opt_value = Some (str ''temp'')\<rparr>],
     msg_lastOptionNumber = 0, msg_payload = None\<rparr>"

definition get_nope :: message where
  "get_nope = get_temp\<lparr>msg_options :=
     [\<lparr>opt_number = 11, opt_length = 4, opt_value = Some (str ''nope'')\<rparr>]\<rparr>"

lemma temp_handlers_ok: "handlers_ok cfg temp_env"
  by (simp add: handlers_ok_def temp_env_def)

lemma temp_server_inv: "server_inv default_config (temp_server default_config)"
proof -
  have "wf_path default_config temp_path" by code_simp
  with addResource_inv [OF new_server_inv [OF default_config_valid]] show ?thesis
    by (simp add: temp_server_def)
qed

lemma get_temp_wf: "wf_message default_config get_temp"
  by code_simp

lemma get_nope_wf: "wf_message default_config get_nope"
  by code_simp

lemma temp_lookup:
  "refusal default_config (sv_resources (temp_server default_config)) get_temp = None"
  "refusal default_config (sv_resources (temp_server default_config)) get_nope = Some Code_NotFound"
  "joinUriPath get_temp (max_uri_path_len default_config) = Some temp_path"
  "route default_config (sv_resources (temp_server default_config)) (cstr temp_path) = Some (0, [])"
  by code_simp+

section \<open>Properties\<close>



text \<open>
  C9: resource lookup is exact-before-template in registration order, and a template
  matches exactly the paths with the same number of segments where every literal segment
  is equal and every parameter segment is not empty; the parameters handed to the handler
  are the captured segments, cut to the size of their buffers.
\<close>

theorem lookup_refines_route:
  assumes "list_all (wf_resource cfg) rs" "max_path_params cfg \<le> 255"
  shows "findResource cfg rs path True =
    (case route cfg rs path of None \<Rightarrow> NotFound | Some (i, ps) \<Rightarrow> Found i ps)"
  using assms by (rule findResource_route)

definition sensor_resources :: "resource list" where
  "sensor_resources = [\<lparr>rs_path = str ''/s/:id/:kind'', rs_methods = MethodGet, rs_handler = AppHandler 1,
     rs_userContext = 0, rs_observable = False, rs_isTemplate = True, rs_observeSequence = 0,
     rs_resourceType = None\<rparr>]"

theorem lookup_refines_route_witness:
  "findResource default_config sensor_resources (str ''/s/42/hum'') True =
     Found 0 [\<lparr>pp_name = str ''id'', pp_value = str ''42''\<rparr>,
              \<lparr>pp_name = str ''kind'', pp_value = str ''hum''\<rparr>]"
proof -
  have "list_all (wf_resource default_config) sensor_resources" by code_simp
  moreover have "max_path_params default_config \<le> 255" by (simp add: default_config_def)
  moreover have "route default_config sensor_resources (str ''/s/42/hum'') =
      Some (0, [\<lparr>pp_name = str ''id'', pp_value = str ''42''\<rparr>,
                \<lparr>pp_name = str ''kind'', pp_value = str ''hum''\<rparr>])"
    by code_simp
  ultimately show ?thesis using lookup_refines_route by simp
qed

text \<open>
  C22: a request that cannot be served is answered by exactly one datagram, the error of
  its class (4.02 path too long, 4.04 no resource, 5.01 unknown method, 4.05 method not
  allowed) as an ACK with the request's message ID for a CON and as a NON otherwise, with
  the request's token and nothing else; no handler runs and no table changes.
\<close>

theorem request_refused:
  assumes "server_inv cfg s" "valid_config cfg" "wf_message cfg m"
    and "refusal cfg (sv_resources s) m = Some code"
  shows "handleRequest cfg env m from s =
      Some (sv_send from (wire (answer m code (sv_nextMessageId s) [] None))
             (s\<lparr>sv_nextMessageId := next_id m (sv_nextMessageId s)\<rparr>)) \<and>
    decode cfg (wire (answer m code (sv_nextMessageId s) [] None)) =
      Decoded (answer m code (sv_nextMessageId s) [] None)"
  using handleRequest_refused [OF assms] decode_answer [OF assms(3), of "[]" None] assms(2)
  by (simp add: valid_config_def)

theorem request_refused_witness:
  "tp_sent (sv_transport (the (handleRequest default_config temp_env get_nope client_a
       (temp_server default_config)))) =
   [(client_a, [0x61, 0x84, 0x12, 0x34, 0xAB])]"
proof -
  have w: "wire (answer get_nope Code_NotFound n [] None) = [0x61, 0x84, 0x12, 0x34, 0xAB]" for n
    by (simp add: answer_def get_nope_def get_temp_def wire_def wire_header_def wire_payload_def
        header_byte_def msg_tokenLength_def kVersion_def hi_byte_def lo_byte_def code_defs)
  have e: "tp_sent (sv_transport (temp_server default_config)) = []" by code_simp
  show ?thesis
    using request_refused [OF temp_server_inv default_config_valid get_nope_wf temp_lookup(2)]
    by (simp add: w frame_simps e)
qed

text \<open>
  C3: an accepted request runs the routed resource's handler exactly once, on the state
  after the Observe step, with the captured parameters; unless the handler defers or its
  payload needs more than one block, its response goes out in one datagram that a peer decodes to the handler's code, payload and
  content format under the request's token (and, for a CON, its message ID in an ACK), and
  the reserved deferred slot is free again.
\<close>

theorem request_served:
  assumes "server_inv cfg s" "valid_config cfg" "wf_message cfg m"
    and "\<not> enable_blockwise cfg \<or> findOption Opt_Block1 m = None \<or>
      (msg_code m \<noteq> Code_Put \<and> msg_code m \<noteq> Code_Post)"
    and "fits_one_block cfg m (res_payload res)"
    and "refusal cfg (sv_resources s) m = None"
    and "joinUriPath m (max_uri_path_len cfg) = Some p"
    and "route cfg (sv_resources s) (cstr p) = Some (i, ps)"
    and "handle_observe i m from s = (obs, s1)"
    and "reserve_deferred from m s1 = (d, s2)"
    and "run_handler cfg env (sv_resources s2 ! i) (make_request m from d None ps) s2 = (res, s3)"
    and "\<not> res_deferred res \<or> d = None"
    and "reply = response_to m (sv_nextMessageId s3) (res_code res) (res_payload res)
           (res_contentFormat res) obs"
    and "encode reply (max_msg_size cfg) \<noteq> []"
  shows "handleRequest cfg env m from s =
      Some (sv_send from (encode reply (max_msg_size cfg))
             ((unreserve_deferred d s3)\<lparr>sv_nextMessageId := next_id m (sv_nextMessageId s3)\<rparr>)) \<and>
    decode cfg (encode reply (max_msg_size cfg)) = Decoded reply \<and>
    msg_token reply = msg_token m \<and> msg_code reply = res_code res \<and>
    msg_payload reply = reply_payload (res_payload res)"
proof -
  have "handleRequest cfg env m from s = Some (handle_plain cfg env i ps m from obs s1)"
    using handleRequest_accepted [OF assms(1,2,6,4,7-9)] by simp
  moreover have "handle_plain cfg env i ps m from obs s1 = send_encoded cfg reply from
      ((unreserve_deferred d s3)\<lparr>sv_nextMessageId := next_id m (sv_nextMessageId s3)\<rparr>)"
    unfolding assms(13) by (rule handle_plain_immediate [OF assms(3,2,5,10-12)])
  moreover have "length (reply_options f v q) \<le> max_options cfg" for f v q
    using assms(2) by (simp add: reply_options_def valid_config_def)
  moreover have "list_all wf_option (reply_options f v q)" for f v q
    by (simp add: reply_options_def wf_uint_option)
  moreover have "reply_payload q \<noteq> Some []" for q by (simp add: reply_payload_def)
  ultimately show ?thesis
    using assms(2,14) encode_eq_wire [OF assms(14)]
      decode_answer [OF assms(3), of "reply_options (res_contentFormat res) obs (res_payload res)"
        "reply_payload (res_payload res)" "res_code res" "sv_nextMessageId s3"]
    by (simp add: send_encoded_def valid_config_def assms(13) response_to_def)
      (simp add: answer_def)
qed

text \<open>The exchange of the instance, step by step.\<close>

definition temp_observed :: "u32 \<times> server" where
  "temp_observed = handle_observe 0 get_temp client_a (temp_server default_config)"

definition temp_reserved :: "nat option \<times> server" where
  "temp_reserved = reserve_deferred client_a get_temp (snd temp_observed)"

definition temp_ran :: "response \<times> server" where
  "temp_ran = run_handler default_config temp_env (sv_resources (snd temp_reserved) ! 0)
     (make_request get_temp client_a (fst temp_reserved) None []) (snd temp_reserved)"

definition temp_reply :: message where
  "temp_reply = response_to get_temp (sv_nextMessageId (snd temp_ran)) (res_code (fst temp_ran))
     (res_payload (fst temp_ran)) (res_contentFormat (fst temp_ran)) (fst temp_observed)"

lemma temp_reply_bytes:
  "encode temp_reply 256 = [0x61, 0x45, 0x12, 0x34, 0xAB, 0x60, 0x60, 0xFF, 0x32, 0x31]"
  by code_simp

theorem request_served_witness:
  "\<exists>s'. handleRequest default_config temp_env get_temp client_a (temp_server default_config) = Some s' \<and>
     tp_sent (sv_transport s') =
       [(client_a, [0x61, 0x45, 0x12, 0x34, 0xAB, 0x60, 0x60, 0xFF, 0x32, 0x31])] \<and>
     decode default_config [0x61, 0x45, 0x12, 0x34, 0xAB, 0x60, 0x60, 0xFF, 0x32, 0x31] =
       Decoded temp_reply"
proof -
  have c: "\<not> enable_blockwise default_config" "max_msg_size default_config = 256"
    by (simp_all add: default_config_def)
  have small: "fits_one_block default_config get_temp (res_payload (fst temp_ran))"
    by (simp add: fits_one_block_def c)
  have nd: "\<not> res_deferred (fst temp_ran) \<or> fst temp_reserved = None" by code_simp
  have ne: "encode temp_reply (max_msg_size default_config) \<noteq> []" by (simp add: c temp_reply_bytes)
  have sent: "tp_sent (sv_transport (unreserve_deferred (fst temp_reserved) (snd temp_ran))) = []"
    by code_simp
  have st: "handle_observe 0 get_temp client_a (temp_server default_config) =
        (fst temp_observed, snd temp_observed)"
      "reserve_deferred client_a get_temp (snd temp_observed) = (fst temp_reserved, snd temp_reserved)"
      "run_handler default_config temp_env (sv_resources (snd temp_reserved) ! 0)
        (make_request get_temp client_a (fst temp_reserved) None []) (snd temp_reserved) =
        (fst temp_ran, snd temp_ran)"
    by (simp_all add: temp_observed_def temp_reserved_def temp_ran_def)
  show ?thesis
    using request_served [OF temp_server_inv default_config_valid get_temp_wf disjI1 [OF c(1)] small temp_lookup(1,3,4)
        st nd temp_reply_def ne]
    by (simp add: c temp_reply_bytes frame_simps sent)
qed

text \<open>
  Discovery. When the complete CoRE Link Format listing of the resources (without the
  discovery resource itself, entries separated by commas, each with its rt and obs
  attributes) fits the buffer, the body is exactly that listing; and whatever the
  resources are, the text and its terminating NUL fit the buffer.
\<close>

theorem discovery_body:
  "(length (link_entries True rs) < cap \<longrightarrow>
      buildLinkFormat_loop cap rs True [] = link_entries True rs) \<and>
   (0 < cap \<longrightarrow> length (buildLinkFormat_loop cap rs True []) < cap)"
  using buildLinkFormat_loop_complete [of "[]" True rs cap] buildLinkFormat_loop_bound [of "[]" cap rs True]
  by simp

theorem discovery_body_witness:
  "buildLinkFormat_loop 256 (sv_resources (temp_server default_config)) True [] = str ''</temp>;obs''"
proof -
  have "link_entries True (sv_resources (temp_server default_config)) = str ''</temp>;obs''"
    by code_simp
  then show ?thesis
    using discovery_body [of "sv_resources (temp_server default_config)" 256] by simp
qed


definition observed_server :: server where
  "observed_server = (temp_server default_config)\<lparr>sv_observers :=
     registerObserver 0 client_a [0xAB] (sv_observers (temp_server default_config))\<rparr>"


end
