(* ===== verification/Props_Lifecycle.thy ===== *)
theory Props_Lifecycle
  imports Props_Server
begin

text \<open>
  Properties of what lives longer than one exchange: observations, separate responses,
  uploads and downloads in blocks.
\<close>

text \<open>
  C37: in every state of a running server no peer observes twice under one token: two
  active observer entries differ in the endpoint or in the token, whatever was registered,
  refreshed, deregistered, reset, notified or given up before.
\<close>

theorem observers_unique:
  assumes "handlers_ok cfg env" "running cfg env s"
  shows "distinct_observers (sv_observers s)"
  using assms by (rule running_distinct)

theorem observers_unique_witness:
  "distinct_observers (sv_observers (new_server default_config idle_network))"
proof -
  have "running default_config temp_env (new_server default_config idle_network)"
    by (auto simp: running_def)
  from observers_unique [OF temp_handlers_ok this] show ?thesis .
qed

text \<open>
  Registration is exact: after \<^verbatim>\<open>registerObserver\<close> the peer and token are in the table for
  that resource whenever they were there before or a slot was free, and otherwise the table
  is unchanged; deregistration leaves no active entry of that peer and token.
\<close>

theorem registration_exact:
  "((\<exists>ob \<in> set obs. observes remote token ob) \<or> occupancy ob_active obs < length obs \<longrightarrow>
      (\<exists>ob \<in> set (registerObserver idx remote token obs).
         observes remote token ob \<and> ob_resourceIndex ob = idx)) \<and>
   ((\<forall>ob \<in> set obs. \<not> observes remote token ob) \<and> occupancy ob_active obs = length obs \<longrightarrow>
      registerObserver idx remote token obs = obs) \<and>
   (\<forall>ob \<in> set (removeObserver remote token obs). \<not> observes remote token ob)"
  using registerObserver_registers registerObserver_full removeObserver_removes by blast

theorem registration_exact_witness:
  "\<exists>ob \<in> set (registerObserver 0 client_a [0xAB] (replicate 2 empty_observer)).
     observes client_a [0xAB] ob \<and> ob_resourceIndex ob = 0"
proof -
  have "occupancy ob_active (replicate 2 empty_observer) < length (replicate 2 empty_observer)"
    by code_simp
  then show ?thesis
    using registration_exact [where obs = "replicate 2 empty_observer" and idx = 0 and
        remote = client_a and token = "[0xAB]"] by blast
qed

text \<open>
  C34: what one tick of the server does to the outside: it resends the stored bytes of
  exactly the transactions that are due for a retransmission, in slot order, every slot
  takes its own timer step, and an observer entry is dropped exactly when a transaction
  with its peer and token is given up (dead-peer detection of RFC 7641 section 4.5).
\<close>

theorem server_tick_effect:
  "let s' = tx_tick cfg sv_txPool put_sv_pool separateResend observeTimeout now s
   in tp_sent (sv_transport s') =
        tp_sent (sv_transport s) @ concat (map (tick_resends cfg now) (sv_txPool s)) \<and>
      sv_txPool s' = map (\<lambda>t. fst (tick_tx cfg now t)) (sv_txPool s) \<and>
      sv_observers s' = map (\<lambda>ob. if \<exists>t \<in> set (sv_txPool s). gives_up_on cfg now t ob
                                  then drop_observer ob else ob) (sv_observers s)"
  by (simp only: Let_def sv_sending.tick_sent sv_quiet.tick_pool server_tick_observers simp_thms)

text \<open>
  How a datagram that is no request is consumed: garbage and unknown codes change
  nothing; a Reset drops only the first active observer of that peer whose last message had
  that ID; an acknowledgement completes the transaction it names and nothing else.
\<close>

theorem datagram_dispatch:
  "(data = [] \<longrightarrow> handle_datagram cfg env from data s = Some s) \<and>
   (\<forall>e m. decode cfg data = DecodeFailed e m \<longrightarrow> handle_datagram cfg env from data s = Some s) \<and>
   (\<forall>m. data \<noteq> [] \<and> decode cfg data = Decoded m \<longrightarrow>
      (msg_type m = Reset \<longrightarrow> handle_datagram cfg env from data s =
         Some (s\<lparr>sv_observers := handle_reset from (msg_messageId m) (sv_observers s)\<rparr>)) \<and>
      (msg_type m = Acknowledgement \<longrightarrow> handle_datagram cfg env from data s =
         Some (s\<lparr>sv_txPool := snd (tx_complete from (msg_messageId m) (sv_txPool s))\<rparr>)) \<and>
      (msg_type m \<in> {Confirmable, NonConfirmable} \<and> \<not> isMethodCode (msg_code m) \<longrightarrow>
         handle_datagram cfg env from data s = Some s)) \<and>
   (\<forall>obs i. i < length obs \<and> reset_matches from mid (obs ! i) \<and>
      (\<forall>j < i. \<not> reset_matches from mid (obs ! j)) \<longrightarrow>
      handle_reset from mid obs = obs[i := drop_observer (obs ! i)]) \<and>
   (\<forall>obs. (\<forall>ob \<in> set obs. \<not> reset_matches from mid ob) \<longrightarrow> handle_reset from mid obs = obs)"
proof -
  have "handle_reset from mid obs = obs[i := drop_observer (obs ! i)]"
    if "i < length obs" "reset_matches from mid (obs ! i)" "\<forall>j < i. \<not> reset_matches from mid (obs ! j)"
    for obs i
    using first_slot_unique [of i obs "reset_matches from mid"] that by (simp add: handle_reset_def)
  moreover have "handle_reset from mid obs = obs" if "\<forall>ob \<in> set obs. \<not> reset_matches from mid ob" for obs
    using that first_slot_None_iff [of "reset_matches from mid" obs] by (simp add: handle_reset_def)
  ultimately show ?thesis by (auto simp: handle_datagram_def)
qed

theorem datagram_dispatch_witness:
  "handle_datagram default_config temp_env client_a [0x70, 0x00, 0x00, 0x07] observed_server =
     Some (observed_server\<lparr>sv_observers := handle_reset client_a 7 (sv_observers observed_server)\<rparr>)"
proof -
  have d: "decode default_config [0x70, 0x00, 0x00, 0x07] =
      Decoded (reset_message\<lparr>msg_type := Reset, msg_messageId := 7\<rparr>)" by code_simp
  show ?thesis
    using datagram_dispatch [of "[0x70, 0x00, 0x00, 0x07]" default_config temp_env client_a observed_server]
      d by simp
qed

text \<open>
  A deferred request is answered at most once. \<^verbatim>\<open>respond\<close> on a live handle sends one
  message with the stored token to the stored peer, Confirmable and tracked exactly when the
  request was, and frees the slot; the same handle is refused afterwards (as is any handle
  out of range) without changing the server.
\<close>

theorem respond_once:
  assumes "unat h < max_deferred cfg" "d = sv_deferred s ! unat h" "df_active d"
    and "server_inv cfg s" "valid_config cfg"
    and "buf = encode (separate_response d (sv_nextMessageId s) code p fmt) (max_msg_size cfg)"
    and "respond cfg h code p fmt s = (ok, s')"
  shows "(ok \<longleftrightarrow> buf \<noteq> []) \<and>
    tp_sent (sv_transport s') =
      tp_sent (sv_transport s) @ (if buf = [] then [] else [(df_remote d, buf)]) \<and>
    sv_deferred s' = (sv_deferred s)[unat h := release_deferred d] \<and>
    sv_txPool s' = (if buf \<noteq> [] \<and> df_wasConfirmable d
      then snd (tx_start cfg (df_remote d) (sv_nextMessageId s) (df_token d) buf
                  (sv_lastNowMs s) (sv_txPool s))
      else sv_txPool s) \<and>
    respond cfg h code2 p2 fmt2 s' = (False, s')"
proof -
  have l: "unat h < length (sv_deferred s)" using assms(1,4) by (simp add: server_inv_def)
  have "length (df_token d) \<le> max_token_len cfg" "1 \<le> max_options cfg"
    using assms(2-5) l by (auto simp: server_inv_def list_all_length wf_deferred_def valid_config_def)
  note r = respond_spec [OF assms(1-3) this assms(6,7)]
  have "\<not> df_active (sv_deferred s' ! unat h)"
    using r(3) l by (simp add: release_deferred_def)
  with r respond_refused show ?thesis by blast
qed

definition deferring_server :: server where
  "deferring_server = snd (reserve_deferred client_a get_temp (temp_server default_config))"

theorem respond_once_witness:
  "respond default_config 0 Code_Content (Some [0x37]) CF_TextPlain
     (snd (respond default_config 0 Code_Content (Some [0x37]) CF_TextPlain deferring_server)) =
   (False, snd (respond default_config 0 Code_Content (Some [0x37]) CF_TextPlain deferring_server))"
proof -
  let ?r = "respond default_config 0 Code_Content (Some [0x37]) CF_TextPlain deferring_server"
  have inv: "server_inv default_config deferring_server"
    using reserve_deferred_keeps [OF temp_server_inv get_temp_wf] by (simp add: deferring_server_def)
  have act: "df_active (sv_deferred deferring_server ! unat (0 :: u8))" by code_simp
  have lt: "unat (0 :: u8) < max_deferred default_config" by (simp add: default_config_def)
  have "?r = (fst ?r, snd ?r)" by simp
  from respond_once [OF lt refl act inv default_config_valid refl this] show ?thesis by blast
qed

text \<open>
  A request that the handler answers at once costs no deferred slot: the slot
  reserved before the handler runs is released, so the number of active slots is what it was.
\<close>

theorem immediate_reply_frees_slot:
  assumes "reserve_deferred from m s = (d, s1)" "sv_deferred s2 = sv_deferred s1"
  shows "occupancy df_active (sv_deferred (unreserve_deferred d s2)) = occupancy df_active (sv_deferred s)"
  using assms by (rule reserve_unreserve_occupancy)

theorem immediate_reply_frees_slot_witness:
  "occupancy df_active (sv_deferred (unreserve_deferred (Some 0) deferring_server)) = 0"
proof -
  have r: "reserve_deferred client_a get_temp (temp_server default_config) = (Some 0, deferring_server)"
    by (simp add: deferring_server_def prod_eq_iff) code_simp
  have "occupancy df_active (sv_deferred (temp_server default_config)) = 0" by code_simp
  with immediate_reply_frees_slot [OF r refl] show ?thesis by simp
qed

text \<open>
  C10: a Block1 upload is reassembled exactly: when a peer without a session sends blocks
  0, 1, ..., n in order under one token and the body fits PULSECOAP_BLOCK1_MAX_BODY, then the
  blocks before the last open one session and fill it without running the handler, and the
  last one runs the final step on a session that holds the concatenation of all payloads.
\<close>

theorem upload_reassembled:
  assumes "findBlock1Session from token (sv_block1sessions s) = None"
    and "occupancy b1_active (sv_block1sessions s) < length (sv_block1sessions s)"
    and "in_order token 0 ms" "is_block token (length ms) False m"
    and "length (body_of (ms @ [m])) \<le> block1_max_body cfg"
  shows "\<exists>k s1. feed cfg env i ps from obs (ms @ [m]) s = finish_block1 cfg env i k ps m from obs s1 \<and>
    b1_buffer (sv_block1sessions s1 ! k) = body_of (ms @ [m])"
proof -
  obtain k s1 where "feed cfg env i ps from obs (ms @ [m]) s = finish_block1 cfg env i k ps m from obs s1"
    "b1_buffer (sv_block1sessions s1 ! k) = body_of (ms @ [m])"
    by (rule feed_upload [OF assms])
  then show ?thesis by blast
qed

definition put_block :: "u32 \<Rightarrow> bool \<Rightarrow> bytes \<Rightarrow> message" where
  "put_block num hasMore p = get_temp\<lparr>msg_code := Code_Put,
     msg_options := [\<lparr>opt_number = 11, opt_length = 4, opt_value = Some (str ''temp'')\<rparr>,
                     uint_option Opt_Block1 (toOptionValue num hasMore 0)],
     msg_payload := Some p\<rparr>"

theorem upload_reassembled_witness:
  "\<exists>k s1. feed default_config temp_env 0 [] client_a (- 1)
       [put_block 0 True (replicate 16 0x61), put_block 1 False [0x62, 0x63]]
       (temp_server default_config) =
     finish_block1 default_config temp_env 0 k [] (put_block 1 False [0x62, 0x63]) client_a (- 1) s1 \<and>
    b1_buffer (sv_block1sessions s1 ! k) = replicate 16 0x61 @ [0x62, 0x63]"
proof -
  let ?m0 = "put_block 0 True (replicate 16 0x61)" and ?m1 = "put_block 1 False [0x62, 0x63]"
  have f: "findBlock1Session client_a [0xAB] (sv_block1sessions (temp_server default_config)) = None"
    by code_simp
  have o': "occupancy b1_active (sv_block1sessions (temp_server default_config)) <
      length (sv_block1sessions (temp_server default_config))" by code_simp
  have i: "in_order [0xAB] 0 [?m0]" by code_simp
  have l: "is_block [0xAB] (length [?m0]) False ?m1" by code_simp
  have b: "body_of ([?m0] @ [?m1]) = replicate 16 0x61 @ [0x62, 0x63]" by code_simp
  then have "length (body_of ([?m0] @ [?m1])) \<le> block1_max_body default_config"
    by (simp add: default_config_def)
  from upload_reassembled [OF f o' i l this, of temp_env 0 "[]" "- 1"]
  show ?thesis unfolding b unfolding append.simps .
qed

text \<open>
  A block out of order does no harm: it changes no session and runs no handler; the
  server only answers 2.31 with the number of the last block it has.
\<close>

theorem upload_out_of_order:
  assumes "uploading from (msg_token m) k n buf s"
    and "fromOption opt = Some b1" "blk_num b1 \<noteq> of_nat n"
  shows "handle_block1 cfg env i ps m from obs opt s =
      sendContinue cfg m from (toOptionValue (of_nat n - 1) True (blk_szx b1)) s \<and>
    sv_block1sessions (handle_block1 cfg env i ps m from obs opt s) = sv_block1sessions s"
  using handle_block1_unexpected [OF assms] by (simp add: frame_simps)

definition uploading_server :: server where
  "uploading_server = feed default_config temp_env 0 [] client_a (- 1)
     [put_block 0 True (replicate 16 0x61)] (temp_server default_config)"

theorem upload_out_of_order_witness:
  "sv_block1sessions (handle_block1 default_config temp_env 0 [] (put_block 5 True [0x64]) client_a (- 1)
     (uint_option Opt_Block1 (toOptionValue 5 True 0)) uploading_server) =
   sv_block1sessions uploading_server"
proof -
  have t: "msg_token (put_block 5 True [0x64]) = [0xAB]" by code_simp
  have u: "uploading client_a (msg_token (put_block 5 True [0x64])) 0 1 (replicate 16 0x61) uploading_server"
    unfolding t by code_simp
  have f: "fromOption (uint_option Opt_Block1 (toOptionValue 5 True 0)) =
      Some \<lparr>blk_num = 5, blk_m = True, blk_szx = 0\<rparr>" by code_simp
  have n: "blk_num \<lparr>blk_num = 5, blk_m = True, blk_szx = 0\<rparr> \<noteq> of_nat 1" by simp
  from upload_out_of_order [OF u f n] show ?thesis by blast
qed

text \<open>
  A long payload is served in Block2 slices: the reply to a GET for block \<open>num\<close> (0 if
  the request names none) carries exactly bytes [num*size, num*size+size) of the payload, a
  Block2 option with that number and the more flag set exactly when bytes remain; and the
  slices of all blocks up to the end concatenate to the payload.
\<close>

theorem download_sliced:
  assumes "wf_message cfg m" "valid_config cfg" "enable_blockwise cfg"
    and "requested_block cfg m = (num, szx)"
    and "res_payload res = Some p" "unat (shift_size szx) < length p"
    and "unat num * unat (shift_size szx) < length p"
  shows "reply_plain cfg m from obs res s =
      send_encoded cfg (block2_message m (sv_nextMessageId s) (res_code res) p (res_contentFormat res)
          obs num szx) from (s\<lparr>sv_nextMessageId := next_id m (sv_nextMessageId s)\<rparr>) \<and>
    (length p \<le> k * unat (shift_size szx) \<longrightarrow>
       concat (map (slice p (unat (shift_size szx))) [0..<k]) = p)"
  using reply_plain_block2 [OF assms] slices_concat by blast

definition block_config :: config where
  "block_config = default_config\<lparr>enable_blockwise := True, block_szx := 0\<rparr>"

theorem download_sliced_witness:
  "reply_plain block_config get_temp client_a (- 1)
      (default_response\<lparr>res_payload := Some (replicate 40 0x61)\<rparr>) (temp_server block_config) =
   send_encoded block_config (block2_message get_temp (sv_nextMessageId (temp_server block_config))
      Code_Content (replicate 40 0x61) CF_TextPlain (- 1) 0 0) client_a
      ((temp_server block_config)\<lparr>sv_nextMessageId :=
         next_id get_temp (sv_nextMessageId (temp_server block_config))\<rparr>)"
proof -
  let ?res = "default_response\<lparr>res_payload := Some (replicate 40 0x61)\<rparr>"
  have w: "wf_message block_config get_temp" "valid_config block_config" "enable_blockwise block_config"
    subgoal by code_simp
    subgoal by (simp add: valid_config_def block_config_def default_config_def)
    subgoal by (simp add: block_config_def)
    done
  have b: "requested_block block_config get_temp = (0, 0)" by code_simp
  have p: "res_payload ?res = Some (replicate 40 0x61)" by simp
  have l: "unat (shift_size 0) < length (replicate 40 (0x61 :: u8))"
    "unat (0 :: u32) * unat (shift_size 0) < length (replicate 40 (0x61 :: u8))"
    by code_simp+
  show ?thesis
    using download_sliced [OF w b p l, of client_a "- 1" "temp_server block_config" 3]
    by (simp add: default_response_def)
qed

section \<open>What the code does against its documentation\<close>

definition five_params :: bytes where
  "five_params = str ''/:a/:b/:c/:d/:e''"

text \<open>
  The limit on template parameters is not enforced: \<^verbatim>\<open>addResource\<close> accepts a template with
  one parameter more than PULSECOAP_MAX_PATH_PARAMS (4), and a request that matches it makes
  \<^verbatim>\<open>findResource\<close> copy past the end of its arrays.
\<close>

theorem template_overflow:
  "fst (addResource default_config (Some five_params) MethodGet (Some (AppHandler 0)) 0 False
      (new_server default_config idle_network)) \<and>
   findResource default_config (sv_resources (snd (addResource default_config (Some five_params) MethodGet
      (Some (AppHandler 0)) 0 False (new_server default_config idle_network))))
      (str ''/1/2/3/4/5'') True = FindFault"
  by code_simp

text \<open>A Reset from the peer does not stop the retransmission of the notification it rejects.\<close>

lemma reset_keeps_retransmitting:
  assumes "decode cfg data = Decoded m" "msg_type m = Reset"
    "handle_datagram cfg env from data s = Some s'"
  shows "sv_txPool s' = sv_txPool s"
  using assms by (auto simp: handle_datagram_def split: if_splits)

text \<open>With the observer table full the reply still carries an Observe option.\<close>

lemma full_table_still_observes:
  assumes "findOption Opt_Observe m = Some opt" "optionAsUint opt = kObserveRegister"
    and "rs_observable (sv_resources s ! i)" "msg_code m = Code_Get"
  shows "fst (handle_observe i m from s) = rs_observeSequence (sv_resources s ! i)"
  using assms by (simp add: handle_observe_def Let_def)

end
