(* ===== verification/Coap_Client.thy ===== *)
theory Coap_Client
  imports Coap_Uri Coap_Reliability Coap_Blockwise
begin

text \<open>
  \<^verbatim>\<open>PulseCoAPClient.h\<close>, \<^verbatim>\<open>PulseCoAPClient.cpp\<close> and the client states of
  \<^verbatim>\<open>PulseCoAPBlockwise.h\<close>. The pool that the constructor is given is the field \<open>cl_pool\<close>. A
  callback pointer or user context is \<open>None\<close> when null and otherwise a number that names
  it; what the callbacks do is the environment \<open>env\<close>, transformers of the client state, since a
  callback may call the client again. A path argument is a non-null C string.
\<close>

section \<open>State\<close>

record pending_request =
  pd_active :: bool
  pd_server :: endpoint
  pd_token :: bytes
  pd_onResponse :: "nat option"
  pd_userContext :: "nat option"
  pd_observing :: bool
  pd_path :: bytes

definition empty_pending :: pending_request where
  "empty_pending = \<lparr>pd_active = False, pd_server = empty_endpoint, pd_token = [],
     pd_onResponse = None, pd_userContext = None, pd_observing = False, pd_path = []\<rparr>"

record discover_slot =
  ds_active :: bool
  ds_token :: bytes
  ds_onDiscover :: "nat option"
  ds_userContext :: "nat option"
  ds_issuedAt :: u32

definition empty_discover :: discover_slot where
  "empty_discover = \<lparr>ds_active = False, ds_token = [], ds_onDiscover = None,
     ds_userContext = None, ds_issuedAt = 0\<rparr>"

record block1_upload =
  up_active :: bool
  up_fullPayload :: bytes
  up_nextNum :: u32
  up_szx :: u8
  up_contentFormat :: u16
  up_method :: u8
  up_server :: endpoint
  up_path :: bytes
  up_token :: u8
  up_waitingForContinue :: bool

definition empty_upload :: "config \<Rightarrow> block1_upload" where
  "empty_upload cfg = \<lparr>up_active = False, up_fullPayload = [], up_nextNum = 0,
     up_szx = block_szx cfg, up_contentFormat = CF_TextPlain, up_method = Code_Put,
     up_server = empty_endpoint, up_path = [], up_token = 0, up_waitingForContinue = False\<rparr>"

text \<open>The assembled bytes are \<^verbatim>\<open>buffer[0..assembledLen)\<close>.\<close>

record block2_recv =
  rv_active :: bool
  rv_nextNum :: u32
  rv_szx :: u8
  rv_buffer :: bytes
  rv_contentFormat :: u16
  rv_server :: endpoint
  rv_path :: bytes

definition empty_recv :: "config \<Rightarrow> block2_recv" where
  "empty_recv cfg = \<lparr>rv_active = False, rv_nextNum = 0, rv_szx = block_szx cfg, rv_buffer = [],
     rv_contentFormat = CF_TextPlain, rv_server = empty_endpoint, rv_path = []\<rparr>"

record client_response =
  cr_code :: u8
  cr_payload :: "bytes option"
  cr_contentFormat :: u16

record client =
  cl_transport :: transport
  cl_pool :: pool
  cl_pending :: "pending_request list"
  cl_discovers :: "discover_slot list"
  cl_nextMessageId :: u16
  cl_nextTokenByte :: u8
  cl_lastNowMs :: u32
  cl_onTimeout :: "nat option"
  cl_uploads :: "block1_upload list"
  cl_recvs :: "block2_recv list"

definition new_client :: "config \<Rightarrow> transport \<Rightarrow> pool \<Rightarrow> client" where
  "new_client cfg t p = \<lparr>cl_transport = t, cl_pool = p,
     cl_pending = replicate (max_transactions cfg) empty_pending,
     cl_discovers = replicate (max_discovers cfg) empty_discover,
     cl_nextMessageId = 1, cl_nextTokenByte = 1, cl_lastNowMs = 0, cl_onTimeout = None,
     cl_uploads = replicate (max_transactions cfg) (empty_upload cfg),
     cl_recvs = replicate (max_transactions cfg) (empty_recv cfg)\<rparr>"

text \<open>
  A client together with the globals of the application it runs in, which are the
  extension of the record: the library never touches them, callbacks may.
\<close>

definition install :: "'c \<Rightarrow> client \<Rightarrow> 'c client_scheme" where
  "install globals c = client.extend c globals"

lemma install_frame [simp]:
  "cl_transport (install g c) = cl_transport c" "cl_pool (install g c) = cl_pool c"
  "cl_pending (install g c) = cl_pending c" "cl_discovers (install g c) = cl_discovers c"
  "cl_nextMessageId (install g c) = cl_nextMessageId c" "cl_nextTokenByte (install g c) = cl_nextTokenByte c"
  "cl_lastNowMs (install g c) = cl_lastNowMs c" "cl_onTimeout (install g c) = cl_onTimeout c"
  "cl_uploads (install g c) = cl_uploads c" "cl_recvs (install g c) = cl_recvs c"
  "client.more (install g c) = g"
  by (simp_all add: install_def client.defs)

lemma install_unit [simp]: "install () c = c"
  by (simp add: install_def client.defs)

record 'c client_env =
  ce_response :: "nat \<Rightarrow> client_response \<Rightarrow> nat option \<Rightarrow> 'c client_scheme \<Rightarrow> 'c client_scheme"
  ce_timeout :: "nat \<Rightarrow> nat option \<Rightarrow> 'c client_scheme \<Rightarrow> 'c client_scheme"
  ce_discover :: "nat \<Rightarrow> endpoint \<Rightarrow> bytes option \<Rightarrow> nat option \<Rightarrow> 'c client_scheme \<Rightarrow> 'c client_scheme"

text \<open>Slot updates in place.\<close>

definition upd_pending :: "nat \<Rightarrow> (pending_request \<Rightarrow> pending_request) \<Rightarrow> 'c client_scheme \<Rightarrow> 'c client_scheme" where
  "upd_pending i f c = c\<lparr>cl_pending := (cl_pending c)[i := f (cl_pending c ! i)]\<rparr>"

definition upd_upload :: "nat \<Rightarrow> (block1_upload \<Rightarrow> block1_upload) \<Rightarrow> 'c client_scheme \<Rightarrow> 'c client_scheme" where
  "upd_upload i f c = c\<lparr>cl_uploads := (cl_uploads c)[i := f (cl_uploads c ! i)]\<rparr>"

definition upd_recv :: "nat \<Rightarrow> (block2_recv \<Rightarrow> block2_recv) \<Rightarrow> 'c client_scheme \<Rightarrow> 'c client_scheme" where
  "upd_recv i f c = c\<lparr>cl_recvs := (cl_recvs c)[i := f (cl_recvs c ! i)]\<rparr>"

definition release_pending :: "pending_request \<Rightarrow> pending_request" where
  "release_pending p = p\<lparr>pd_active := False\<rparr>"

section \<open>Slots and tokens\<close>

definition fresh_pending :: "pending_request \<Rightarrow> pending_request" where
  "fresh_pending p = empty_pending\<lparr>pd_active := True\<rparr>"

definition allocatePending :: "'c client_scheme \<Rightarrow> (nat \<times> 'c client_scheme) option" where
  "allocatePending c =
     (case claim_slot pd_active fresh_pending (cl_pending c) of
        None \<Rightarrow> None
      | Some (i, ps) \<Rightarrow> Some (i, c\<lparr>cl_pending := ps\<rparr>))"

definition pending_matches :: "bytes \<Rightarrow> pending_request \<Rightarrow> bool" where
  "pending_matches token p \<longleftrightarrow> pd_active p \<and> pd_token p = token"

definition findPendingByToken :: "bytes \<Rightarrow> 'c client_scheme \<Rightarrow> nat option" where
  "findPendingByToken token c = first_slot (pending_matches token) (cl_pending c)"

definition nextToken :: "'c client_scheme \<Rightarrow> u8 \<times> 'c client_scheme" where
  "nextToken c = (cl_nextTokenByte c, c\<lparr>cl_nextTokenByte := cl_nextTokenByte c + 1\<rparr>)"

definition cl_send :: "endpoint \<Rightarrow> bytes \<Rightarrow> 'c client_scheme \<Rightarrow> bool \<times> 'c client_scheme" where
  "cl_send to data c =
     (let (ok, t) = transport_send to data (cl_transport c) in (ok, c\<lparr>cl_transport := t\<rparr>))"

definition cl_track :: "config \<Rightarrow> endpoint \<Rightarrow> u16 \<Rightarrow> bytes \<Rightarrow> bytes \<Rightarrow> 'c client_scheme \<Rightarrow> 'c client_scheme" where
  "cl_track cfg to mid token buf c =
     c\<lparr>cl_pool := snd (tx_start cfg to mid token buf (cl_lastNowMs c) (cl_pool c))\<rparr>"

definition client_begin :: "u16 \<Rightarrow> 'c client_scheme \<Rightarrow> bool" where
  "client_begin localPort c = transport_begin localPort (cl_transport c)"

text \<open>The path as a fixed-size buffer keeps it: empty when it does not fit.\<close>

definition stored_path :: "config \<Rightarrow> bytes \<Rightarrow> bytes" where
  "stored_path cfg path = (if length path < max_uri_path_len cfg then path else [])"

section \<open>Requests\<close>

definition request_message ::
    "config \<Rightarrow> bool \<Rightarrow> u16 \<Rightarrow> u8 \<Rightarrow> u8 \<Rightarrow> bool \<Rightarrow> bool \<Rightarrow> message" where
  "request_message cfg confirmable mid token method observeRegister observeDeregister =
     (let m0 = reset_message\<lparr>msg_type := (if confirmable then Confirmable else NonConfirmable),
                             msg_messageId := mid\<rparr>;
          m1 = (snd (setToken cfg [token] m0))\<lparr>msg_code := method\<rparr>
      in if observeRegister then snd (addOptionUint cfg Opt_Observe kObserveRegister m1)
         else if observeDeregister then snd (addOptionUint cfg Opt_Observe kObserveDeregister m1)
         else m1)"

definition sendRequest ::
    "config \<Rightarrow> endpoint \<Rightarrow> bytes \<Rightarrow> u8 \<Rightarrow> bytes option \<Rightarrow> u16 \<Rightarrow> bool \<Rightarrow> bool \<Rightarrow> bool \<Rightarrow>
     nat option \<Rightarrow> nat option \<Rightarrow> bool \<Rightarrow> 'c client_scheme \<Rightarrow> bool \<times> 'c client_scheme" where
  "sendRequest cfg server path method payload contentFormat confirmable observeRegister
       observeDeregister onResponse userContext markObserving c =
     (case allocatePending c of
        None \<Rightarrow> (False, c)
      | Some (slot, c1) \<Rightarrow>
          let (token, c2) = nextToken c1;
              mid = cl_nextMessageId c2;
              c3 = c2\<lparr>cl_nextMessageId := mid + 1\<rparr>;
              m1 = request_message cfg confirmable mid token method observeRegister observeDeregister;
              (pathOk, m2) = addUriPathOptions cfg m1 (Some path)
          in if \<not> pathOk then (False, upd_pending slot release_pending c3)
             else
               let m3 = (case payload of
                           None \<Rightarrow> m2
                         | Some p \<Rightarrow>
                             if p = [] then m2
                             else setPayload (Some p)
                                    (snd (addOptionUint cfg Opt_ContentFormat (ucast contentFormat) m2)));
                   buf = encode m3 (max_msg_size cfg)
               in if buf = [] then (False, upd_pending slot release_pending c3)
                  else
                    let (sent, c4) = cl_send server buf c3
                    in if \<not> sent then (False, upd_pending slot release_pending c4)
                       else
                         let c5 = (if confirmable then cl_track cfg server mid [token] buf c4 else c4);
                             c6 = upd_pending slot (\<lambda>p. p\<lparr>pd_server := server, pd_token := [token],
                                    pd_onResponse := onResponse, pd_userContext := userContext,
                                    pd_observing := markObserving,
                                    pd_path := stored_path cfg path\<rparr>) c5;
                             c7 = (if enable_blockwise cfg
                                   then upd_recv slot (\<lambda>r. r\<lparr>rv_active := False,
                                            rv_path := stored_path cfg path\<rparr>)
                                          (upd_upload slot (\<lambda>u. u\<lparr>up_active := False\<rparr>) c6)
                                   else c6)
                         in (True, c7))"

section \<open>Block-wise requests\<close>

definition sendBlock1 :: "config \<Rightarrow> nat \<Rightarrow> 'c client_scheme \<Rightarrow> bool \<times> 'c client_scheme" where
  "sendBlock1 cfg slot c =
     (let up = cl_uploads c ! slot;
          sz = unat (shift_size (up_szx up));
          offset = unat (up_nextNum up) * sz
      in if length (up_fullPayload up) \<le> offset then (False, c)
         else
           let remaining = length (up_fullPayload up) - offset;
               blockLen = (if remaining > sz then sz else remaining);
               hasMore = (remaining > sz);
               mid = cl_nextMessageId c;
               c1 = c\<lparr>cl_nextMessageId := mid + 1\<rparr>;
               m1 = request_message cfg True mid (up_token up) (up_method up) False False;
               (pathOk, m2) = addUriPathOptions cfg m1 (Some (up_path up))
           in if \<not> pathOk then (False, c1)
              else
                let m3 = snd (addOptionUint cfg Opt_ContentFormat (ucast (up_contentFormat up)) m2);
                    m4 = snd (addOptionUint cfg Opt_Block1
                                (toOptionValue (up_nextNum up) hasMore (up_szx up)) m3);
                    m5 = setPayload (Some (take blockLen (drop offset (up_fullPayload up)))) m4;
                    buf = encode m5 (max_msg_size cfg)
                in if buf = [] then (False, c1)
                   else
                     let (sent, c2) = cl_send (up_server up) buf c1
                     in if \<not> sent then (False, c2)
                        else (True, upd_upload slot (\<lambda>u. u\<lparr>up_waitingForContinue := True\<rparr>)
                                      (cl_track cfg (up_server up) mid [up_token up] buf c2)))"

definition sendBlock2Request :: "config \<Rightarrow> nat \<Rightarrow> 'c client_scheme \<Rightarrow> bool \<times> 'c client_scheme" where
  "sendBlock2Request cfg slot c =
     (let recv = cl_recvs c ! slot;
          p = cl_pending c ! slot;
          mid = cl_nextMessageId c;
          c1 = c\<lparr>cl_nextMessageId := mid + 1\<rparr>;
          m0 = reset_message\<lparr>msg_type := Confirmable, msg_messageId := mid\<rparr>;
          m1 = (snd (setToken cfg (pd_token p) m0))\<lparr>msg_code := Code_Get\<rparr>;
          (pathOk, m2) = addUriPathOptions cfg m1 (Some (rv_path recv))
      in if \<not> pathOk then (False, c1)
         else
           let m3 = snd (addOptionUint cfg Opt_Block2
                           (toOptionValue (rv_nextNum recv) False (rv_szx recv)) m2);
               buf = encode m3 (max_msg_size cfg)
           in if buf = [] then (False, c1)
              else
                let (sent, c2) = cl_send (rv_server recv) buf c1
                in if \<not> sent then (False, c2)
                   else (True, cl_track cfg (rv_server recv) mid (pd_token p) buf c2))"

text \<open>The large-body branch that \<^verbatim>\<open>put\<close> and \<^verbatim>\<open>post\<close> share, with the method as argument.\<close>

definition start_upload ::
    "config \<Rightarrow> endpoint \<Rightarrow> bytes \<Rightarrow> u8 \<Rightarrow> bytes \<Rightarrow> u16 \<Rightarrow> nat option \<Rightarrow> nat option \<Rightarrow> 'c client_scheme \<Rightarrow>
     bool \<times> 'c client_scheme" where
  "start_upload cfg server path method payload contentFormat onResponse userContext c =
     (case allocatePending c of
        None \<Rightarrow> (False, c)
      | Some (slot, c1) \<Rightarrow>
          let (tok, c2) = nextToken c1;
              c3 = upd_pending slot (\<lambda>p. p\<lparr>pd_server := server, pd_token := [tok],
                     pd_onResponse := onResponse, pd_userContext := userContext,
                     pd_observing := False\<rparr>) c2;
              c4 = upd_upload slot (\<lambda>u. u\<lparr>up_active := True, up_fullPayload := payload,
                     up_nextNum := 0, up_szx := block_szx cfg, up_contentFormat := contentFormat,
                     up_method := method, up_server := server, up_token := tok\<rparr>) c3
          in if max_uri_path_len cfg \<le> length path
             then (False, upd_upload slot (\<lambda>u. u\<lparr>up_active := False\<rparr>)
                            (upd_pending slot release_pending c4))
             else
               let c5 = upd_recv slot (\<lambda>r. r\<lparr>rv_active := False\<rparr>)
                          (upd_pending slot (\<lambda>p. p\<lparr>pd_path := path\<rparr>)
                            (upd_upload slot (\<lambda>u. u\<lparr>up_path := path\<rparr>) c4));
                   (ok, c6) = sendBlock1 cfg slot c5
               in if ok then (True, c6)
                  else (False, upd_upload slot (\<lambda>u. u\<lparr>up_active := False\<rparr>)
                                 (upd_pending slot release_pending c6)))"

definition client_get where
  "client_get cfg server path onResponse userContext confirmable c =
     sendRequest cfg server path Code_Get None CF_TextPlain confirmable False False
       onResponse userContext False c"

definition client_put where
  "client_put cfg server path payload contentFormat onResponse userContext confirmable c =
     (if enable_blockwise cfg \<and> unat (shift_size (block_szx cfg)) < length payload
      then start_upload cfg server path Code_Put payload contentFormat onResponse userContext c
      else sendRequest cfg server path Code_Put (Some payload) contentFormat confirmable False False
             onResponse userContext False c)"

definition client_post where
  "client_post cfg server path payload contentFormat onResponse userContext confirmable c =
     (if enable_blockwise cfg \<and> unat (shift_size (block_szx cfg)) < length payload
      then start_upload cfg server path Code_Post payload contentFormat onResponse userContext c
      else sendRequest cfg server path Code_Post (Some payload) contentFormat confirmable False False
             onResponse userContext False c)"

definition client_del where
  "client_del cfg server path onResponse userContext confirmable c =
     sendRequest cfg server path Code_Delete None CF_TextPlain confirmable False False
       onResponse userContext False c"

definition client_observe where
  "client_observe cfg server path onResponse userContext c =
     sendRequest cfg server path Code_Get None CF_TextPlain True True False
       onResponse userContext True c"

definition observing_match :: "endpoint \<Rightarrow> bytes \<Rightarrow> pending_request \<Rightarrow> bool" where
  "observing_match server path p \<longleftrightarrow>
     pd_active p \<and> pd_observing p \<and> ep_eq (pd_server p) server \<and> pd_path p = path"

definition cancelObserve :: "config \<Rightarrow> endpoint \<Rightarrow> bytes \<Rightarrow> 'c client_scheme \<Rightarrow> bool \<times> 'c client_scheme" where
  "cancelObserve cfg server path c =
     (case first_slot (observing_match server path) (cl_pending c) of
        None \<Rightarrow> (False, c)
      | Some i \<Rightarrow>
          let p = cl_pending c ! i
          in sendRequest cfg server path Code_Get None CF_TextPlain True False True
               (pd_onResponse p) (pd_userContext p) False (upd_pending i release_pending c))"

section \<open>Discovery\<close>

definition allNodesEndpoint :: "u16 \<Rightarrow> endpoint" where
  "allNodesEndpoint port = empty_endpoint\<lparr>ep_ip := [224, 0, 1, 187], ep_port := port, ep_isV6 := False\<rparr>"

definition discover ::
    "config \<Rightarrow> endpoint \<Rightarrow> nat option \<Rightarrow> nat option \<Rightarrow> 'c client_scheme \<Rightarrow> bool \<times> 'c client_scheme" where
  "discover cfg multicastEp onDiscover userContext c =
     (case first_slot (\<lambda>d. \<not> ds_active d) (cl_discovers c) of
        None \<Rightarrow> (False, c)
      | Some slot \<Rightarrow>
          let (token, c1) = nextToken c;
              mid = cl_nextMessageId c1;
              c2 = c1\<lparr>cl_nextMessageId := mid + 1\<rparr>;
              m1 = request_message cfg False mid token Code_Get False False;
              (pathOk, m2) = addUriPathOptions cfg m1 (Some (str ''/.well-known/core''))
          in if \<not> pathOk then (False, c2)
             else
               let buf = encode m2 (max_msg_size cfg)
               in if buf = [] then (False, c2)
                  else
                    let (sent, c3) = cl_send multicastEp buf c2
                    in if \<not> sent then (False, c3)
                       else (True, c3\<lparr>cl_discovers := (cl_discovers c3)[slot :=
                               \<lparr>ds_active = True, ds_token = [token], ds_onDiscover = onDiscover,
                                ds_userContext = userContext, ds_issuedAt = cl_lastNowMs c3\<rparr>]\<rparr>))"

definition discover_port where
  "discover_port cfg onDiscover userContext port c =
     discover cfg (allNodesEndpoint port) onDiscover userContext c"

definition setTimeoutHandler :: "nat option \<Rightarrow> 'c client_scheme \<Rightarrow> 'c client_scheme" where
  "setTimeoutHandler onTimeout c = c\<lparr>cl_onTimeout := onTimeout\<rparr>"

section \<open>Callbacks into the application\<close>

definition fire_timeout :: "'c client_env \<Rightarrow> nat option \<Rightarrow> 'c client_scheme \<Rightarrow> 'c client_scheme" where
  "fire_timeout env ctx c = (case cl_onTimeout c of None \<Rightarrow> c | Some h \<Rightarrow> ce_timeout env h ctx c)"

definition fire_response :: "'c client_env \<Rightarrow> nat \<Rightarrow> client_response \<Rightarrow> 'c client_scheme \<Rightarrow> 'c client_scheme" where
  "fire_response env slot res c =
     (case pd_onResponse (cl_pending c ! slot) of
        None \<Rightarrow> c
      | Some h \<Rightarrow> ce_response env h res (pd_userContext (cl_pending c ! slot)) c)"

text \<open>Line 522: after the callback, whatever request the slot then holds.\<close>

definition finish_slot :: "nat \<Rightarrow> 'c client_scheme \<Rightarrow> 'c client_scheme" where
  "finish_slot slot c =
     (if \<not> pd_observing (cl_pending c ! slot) then upd_pending slot release_pending c else c)"

definition clientResend :: "endpoint \<Rightarrow> bytes \<Rightarrow> 'c client_scheme \<Rightarrow> 'c client_scheme" where
  "clientResend remote message c = snd (cl_send remote message c)"

definition clientTimeout :: "'c client_env \<Rightarrow> endpoint \<Rightarrow> bytes \<Rightarrow> 'c client_scheme \<Rightarrow> 'c client_scheme" where
  "clientTimeout env remote token c =
     (case findPendingByToken token c of
        None \<Rightarrow> fire_timeout env None c
      | Some slot \<Rightarrow>
          fire_timeout env (pd_userContext (cl_pending c ! slot)) (upd_pending slot release_pending c))"

section \<open>Responses\<close>

definition response_format :: "message \<Rightarrow> u16" where
  "response_format m =
     (case findOption Opt_ContentFormat m of
        None \<Rightarrow> CF_TextPlain
      | Some opt \<Rightarrow> ucast (optionAsUint opt))"

definition deliver_response :: "'c client_env \<Rightarrow> nat \<Rightarrow> message \<Rightarrow> 'c client_scheme \<Rightarrow> 'c client_scheme" where
  "deliver_response env slot m c =
     finish_slot slot
       (fire_response env slot
          \<lparr>cr_code = msg_code m, cr_payload = msg_payload m, cr_contentFormat = response_format m\<rparr> c)"

definition continue_upload :: "config \<Rightarrow> 'c client_env \<Rightarrow> nat \<Rightarrow> 'c client_scheme \<Rightarrow> 'c client_scheme" where
  "continue_upload cfg env slot c =
     (let c1 = upd_upload slot (\<lambda>u. u\<lparr>up_nextNum := up_nextNum u + 1,
                                      up_waitingForContinue := False\<rparr>) c;
          (ok, c2) = sendBlock1 cfg slot c1
      in if ok then c2
         else fire_timeout env (pd_userContext (cl_pending c2 ! slot))
                (upd_pending slot release_pending (upd_upload slot (\<lambda>u. u\<lparr>up_active := False\<rparr>) c2)))"

definition open_recv :: "message \<Rightarrow> endpoint \<Rightarrow> block_option \<Rightarrow> block2_recv \<Rightarrow> block2_recv" where
  "open_recv m from b2 r =
     (if rv_active r then r
      else r\<lparr>rv_active := True, rv_nextNum := 0, rv_szx := blk_szx b2, rv_buffer := [],
             rv_server := from, rv_contentFormat := response_format m\<rparr>)"

definition absorb_block :: "config \<Rightarrow> message \<Rightarrow> block_option \<Rightarrow> block2_recv \<Rightarrow> block2_recv" where
  "absorb_block cfg m b2 r =
     (if blk_num b2 = rv_nextNum r
      then r\<lparr>rv_buffer := rv_buffer r @
               take (block2_max_body cfg - length (rv_buffer r))
                    (case msg_payload m of None \<Rightarrow> [] | Some p \<Rightarrow> p),
             rv_nextNum := rv_nextNum r + 1\<rparr>
      else r)"

definition handle_block2 ::
    "config \<Rightarrow> 'c client_env \<Rightarrow> nat \<Rightarrow> message \<Rightarrow> endpoint \<Rightarrow> block_option \<Rightarrow> 'c client_scheme \<Rightarrow> 'c client_scheme" where
  "handle_block2 cfg env slot m from b2 c =
     (let c1 = upd_recv slot (absorb_block cfg m b2 \<circ> open_recv m from b2) c
      in if blk_m b2 then snd (sendBlock2Request cfg slot c1)
         else
           let recv = cl_recvs c1 ! slot
           in finish_slot slot
                (upd_recv slot (\<lambda>r. r\<lparr>rv_active := False\<rparr>)
                  (fire_response env slot
                     \<lparr>cr_code = msg_code m, cr_payload = Some (rv_buffer recv),
                      cr_contentFormat = rv_contentFormat recv\<rparr> c1)))"

definition dispatch_pending ::
    "config \<Rightarrow> 'c client_env \<Rightarrow> nat \<Rightarrow> message \<Rightarrow> endpoint \<Rightarrow> 'c client_scheme \<Rightarrow> 'c client_scheme" where
  "dispatch_pending cfg env slot m from c =
     (if \<not> enable_blockwise cfg then deliver_response env slot m c
      else if msg_code m = Code_Continue \<and> up_active (cl_uploads c ! slot)
        then continue_upload cfg env slot c
      else
        let c1 = upd_upload slot (\<lambda>u. u\<lparr>up_active := False\<rparr>) c
        in case (case findOption Opt_Block2 m of None \<Rightarrow> None | Some opt \<Rightarrow> fromOption opt) of
             None \<Rightarrow> deliver_response env slot m c1
           | Some b2 \<Rightarrow> handle_block2 cfg env slot m from b2 c1)"

definition discover_matches :: "bytes \<Rightarrow> discover_slot \<Rightarrow> bool" where
  "discover_matches token d \<longleftrightarrow> ds_active d \<and> ds_token d = token"

definition handle_response ::
    "config \<Rightarrow> 'c client_env \<Rightarrow> message \<Rightarrow> endpoint \<Rightarrow> 'c client_scheme \<Rightarrow> 'c client_scheme" where
  "handle_response cfg env m from c =
     (let ack = encode (reset_message\<lparr>msg_type := Acknowledgement, msg_code := Code_Empty,
                                      msg_messageId := msg_messageId m\<rparr>) (max_msg_size cfg);
          c1 = (if msg_type m = Confirmable \<and> ack \<noteq> [] then snd (cl_send from ack c) else c)
      in case first_slot (discover_matches (msg_token m)) (cl_discovers c1) of
           Some i \<Rightarrow>
             (case ds_onDiscover (cl_discovers c1 ! i) of
                None \<Rightarrow> c1
              | Some h \<Rightarrow> ce_discover env h from (msg_payload m) (ds_userContext (cl_discovers c1 ! i)) c1)
         | None \<Rightarrow>
             (case findPendingByToken (msg_token m) c1 of
                None \<Rightarrow> c1
              | Some slot \<Rightarrow> dispatch_pending cfg env slot m from c1))"

definition handle_rst :: "'c client_env \<Rightarrow> message \<Rightarrow> endpoint \<Rightarrow> 'c client_scheme \<Rightarrow> 'c client_scheme" where
  "handle_rst env m from c =
     (let token = (case tx_getToken from (msg_messageId m) (cl_pool c) of None \<Rightarrow> [] | Some t \<Rightarrow> t);
          c1 = c\<lparr>cl_pool := snd (tx_complete from (msg_messageId m) (cl_pool c))\<rparr>
      in if token = [] then c1
         else case findPendingByToken token c1 of
                None \<Rightarrow> c1
              | Some slot \<Rightarrow>
                  fire_timeout env (pd_userContext (cl_pending c1 ! slot))
                    (upd_pending slot release_pending c1))"

section \<open>The poll loop\<close>

definition put_cl_pool :: "pool \<Rightarrow> 'c client_scheme \<Rightarrow> 'c client_scheme" where
  "put_cl_pool p c = c\<lparr>cl_pool := p\<rparr>"

definition expired :: "config \<Rightarrow> u32 \<Rightarrow> discover_slot \<Rightarrow> bool" where
  "expired cfg nowMs d \<longleftrightarrow> ds_active d \<and> discover_timeout_ms cfg \<le> nowMs - ds_issuedAt d"

definition expire_discovers :: "config \<Rightarrow> u32 \<Rightarrow> 'c client_scheme \<Rightarrow> 'c client_scheme" where
  "expire_discovers cfg nowMs c =
     c\<lparr>cl_discovers := map (\<lambda>d. if expired cfg nowMs d then d\<lparr>ds_active := False\<rparr> else d)
                          (cl_discovers c)\<rparr>"

definition poll_timers :: "config \<Rightarrow> 'c client_env \<Rightarrow> u32 \<Rightarrow> 'c client_scheme \<Rightarrow> 'c client_scheme" where
  "poll_timers cfg env nowMs c =
     tx_tick cfg cl_pool put_cl_pool clientResend (clientTimeout env) nowMs
       (expire_discovers cfg nowMs c)"

definition client_poll :: "config \<Rightarrow> 'c client_env \<Rightarrow> u32 \<Rightarrow> 'c client_scheme \<Rightarrow> 'c client_scheme option" where
  "client_poll cfg env nowMs c =
     (let ((from, data), t) = transport_receive (max_msg_size cfg) (cl_transport c);
          c1 = c\<lparr>cl_lastNowMs := nowMs, cl_transport := t\<rparr>
      in if data = [] then Some (poll_timers cfg env nowMs c1)
         else case decode cfg data of
                OutOfBounds \<Rightarrow> None
              | DecodeFailed e m \<Rightarrow> Some (poll_timers cfg env nowMs c1)
              | Decoded m \<Rightarrow>
                  if msg_type m = Reset then Some (handle_rst env m from c1)
                  else
                    let c2 = (if msg_type m = Acknowledgement
                              then c1\<lparr>cl_pool := snd (tx_complete from (msg_messageId m) (cl_pool c1))\<rparr>
                              else c1);
                        c3 = (if msg_code m \<noteq> Code_Empty \<and> \<not> isMethodCode (msg_code m)
                              then handle_response cfg env m from c2 else c2)
                    in Some (poll_timers cfg env nowMs c3))"

end
