(* ===== verification/Coap_Client_Inv.thy ===== *)
theory Coap_Client_Inv
  imports Coap_Client
begin

text \<open>
  The client's tables and invariant: the pending requests as a slot table, the client as the
  owner of the pool it shares, and every public call and poll keeping the tables in bounds.
\<close>

section \<open>Tables\<close>

interpretation pending_table: slot_table pd_active "\<lambda>_ :: unit. fresh_pending" release_pending
  by unfold_locales (simp_all add: fresh_pending_def release_pending_def)

lemma upd_frame [frame_simps]:
  "cl_transport (upd_pending i f c) = cl_transport c"
  "cl_pool (upd_pending i f c) = cl_pool c"
  "cl_pending (upd_pending i f c) = (cl_pending c)[i := f (cl_pending c ! i)]"
  "cl_discovers (upd_pending i f c) = cl_discovers c"
  "cl_nextMessageId (upd_pending i f c) = cl_nextMessageId c"
  "cl_nextTokenByte (upd_pending i f c) = cl_nextTokenByte c"
  "cl_lastNowMs (upd_pending i f c) = cl_lastNowMs c"
  "cl_onTimeout (upd_pending i f c) = cl_onTimeout c"
  "cl_uploads (upd_pending i f c) = cl_uploads c"
  "cl_recvs (upd_pending i f c) = cl_recvs c"
  "cl_transport (upd_upload i u c) = cl_transport c"
  "cl_pool (upd_upload i u c) = cl_pool c"
  "cl_pending (upd_upload i u c) = cl_pending c"
  "cl_discovers (upd_upload i u c) = cl_discovers c"
  "cl_nextMessageId (upd_upload i u c) = cl_nextMessageId c"
  "cl_lastNowMs (upd_upload i u c) = cl_lastNowMs c"
  "cl_onTimeout (upd_upload i u c) = cl_onTimeout c"
  "cl_uploads (upd_upload i u c) = (cl_uploads c)[i := u (cl_uploads c ! i)]"
  "cl_recvs (upd_upload i u c) = cl_recvs c"
  "cl_transport (upd_recv i r c) = cl_transport c"
  "cl_pool (upd_recv i r c) = cl_pool c"
  "cl_pending (upd_recv i r c) = cl_pending c"
  "cl_discovers (upd_recv i r c) = cl_discovers c"
  "cl_nextMessageId (upd_recv i r c) = cl_nextMessageId c"
  "cl_lastNowMs (upd_recv i r c) = cl_lastNowMs c"
  "cl_onTimeout (upd_recv i r c) = cl_onTimeout c"
  "cl_uploads (upd_recv i r c) = cl_uploads c"
  "cl_recvs (upd_recv i r c) = (cl_recvs c)[i := r (cl_recvs c ! i)]"
  by (simp_all add: upd_pending_def upd_upload_def upd_recv_def)

lemma send_track_frame [frame_simps]:
  "cl_pool (snd (cl_send to d c)) = cl_pool c"
  "cl_pending (snd (cl_send to d c)) = cl_pending c"
  "cl_discovers (snd (cl_send to d c)) = cl_discovers c"
  "cl_nextMessageId (snd (cl_send to d c)) = cl_nextMessageId c"
  "cl_lastNowMs (snd (cl_send to d c)) = cl_lastNowMs c"
  "cl_onTimeout (snd (cl_send to d c)) = cl_onTimeout c"
  "cl_uploads (snd (cl_send to d c)) = cl_uploads c"
  "cl_recvs (snd (cl_send to d c)) = cl_recvs c"
  "tp_sent (cl_transport (snd (cl_send to d c))) = tp_sent (cl_transport c) @ [(to, d)]"
  "cl_transport (cl_track cfg to mid tok b c) = cl_transport c"
  "cl_pending (cl_track cfg to mid tok b c) = cl_pending c"
  "cl_discovers (cl_track cfg to mid tok b c) = cl_discovers c"
  "cl_nextMessageId (cl_track cfg to mid tok b c) = cl_nextMessageId c"
  "cl_lastNowMs (cl_track cfg to mid tok b c) = cl_lastNowMs c"
  "cl_onTimeout (cl_track cfg to mid tok b c) = cl_onTimeout c"
  "cl_uploads (cl_track cfg to mid tok b c) = cl_uploads c"
  "cl_recvs (cl_track cfg to mid tok b c) = cl_recvs c"
  by (simp_all add: cl_send_def cl_track_def split_def Let_def)

lemma length_track [len_simps]: "length (cl_pool (cl_track cfg to mid tok b c)) = length (cl_pool c)"
  by (simp add: cl_track_def len_simps)

section \<open>The invariant\<close>

definition wf_pending :: "config \<Rightarrow> pending_request \<Rightarrow> bool" where
  "wf_pending cfg p \<longleftrightarrow> length (pd_token p) \<le> max_token_len cfg"

definition wf_recv :: "config \<Rightarrow> block2_recv \<Rightarrow> bool" where
  "wf_recv cfg r \<longleftrightarrow> length (rv_buffer r) \<le> block2_max_body cfg"

definition client_inv :: "config \<Rightarrow> 'c client_scheme \<Rightarrow> bool" where
  "client_inv cfg c \<longleftrightarrow>
     length (cl_pending c) = max_transactions cfg \<and>
     length (cl_uploads c) = max_transactions cfg \<and>
     length (cl_recvs c) = max_transactions cfg \<and>
     length (cl_discovers c) = max_discovers cfg \<and>
     list_all (wf_pending cfg) (cl_pending c) \<and>
     list_all (wf_recv cfg) (cl_recvs c) \<and>
     wf_pool cfg (cl_pool c)"

lemma new_client_inv: "wf_pool cfg p \<Longrightarrow> client_inv cfg (new_client cfg t p)"
  by (simp add: client_inv_def new_client_def list_all_iff wf_pending_def empty_pending_def
      wf_recv_def empty_recv_def)

lemma install_inv [simp]: "client_inv cfg (install globals c) = client_inv cfg c"
  by (simp add: client_inv_def)

lemma inv_globals [simp]: "client_inv cfg (client.more_update f c) = client_inv cfg c"
  by (simp add: client_inv_def)

lemma list_all_update_nth:
  "list_all P xs \<Longrightarrow> (P (xs ! i) \<Longrightarrow> P (f (xs ! i))) \<Longrightarrow> list_all P (xs[i := f (xs ! i)])"
  by (cases "i < length xs") (auto intro: list_all_update list_all_nth simp: list_update_beyond)

lemma inv_upd_pending:
  "client_inv cfg c \<Longrightarrow> (\<And>p. wf_pending cfg p \<Longrightarrow> wf_pending cfg (f p)) \<Longrightarrow>
   client_inv cfg (upd_pending i f c)"
  by (auto simp: client_inv_def frame_simps intro!: list_all_update_nth)

lemma inv_release [simp]: "client_inv cfg c \<Longrightarrow> client_inv cfg (upd_pending i release_pending c)"
  by (rule inv_upd_pending) (simp_all add: release_pending_def wf_pending_def)

lemma inv_upd_upload [simp]: "client_inv cfg c \<Longrightarrow> client_inv cfg (upd_upload i u c)"
  by (simp add: client_inv_def frame_simps)

lemma inv_upd_recv:
  "client_inv cfg c \<Longrightarrow> (\<And>r. wf_recv cfg r \<Longrightarrow> wf_recv cfg (f r)) \<Longrightarrow>
   client_inv cfg (upd_recv i f c)"
  by (auto simp: client_inv_def frame_simps intro!: list_all_update_nth)

lemma inv_send [simp]: "client_inv cfg c \<Longrightarrow> client_inv cfg (snd (cl_send to d c))"
  by (simp add: client_inv_def frame_simps)

lemma inv_track [simp]: "client_inv cfg c \<Longrightarrow> client_inv cfg (cl_track cfg to mid tok b c)"
  by (simp add: client_inv_def frame_simps) (simp add: cl_track_def wf_pool_start)

lemma inv_counter [simp]:
  "client_inv cfg (c\<lparr>cl_nextMessageId := n\<rparr>) = client_inv cfg c"
  "client_inv cfg (c\<lparr>cl_nextTokenByte := t\<rparr>) = client_inv cfg c"
  by (simp_all add: client_inv_def)

lemma inv_nextToken [simp]: "client_inv cfg (snd (nextToken c)) = client_inv cfg c"
  by (simp add: nextToken_def)

lemma inv_allocatePending:
  "client_inv cfg c \<Longrightarrow> allocatePending c = Some (i, c') \<Longrightarrow> client_inv cfg c'"
  by (auto simp: allocatePending_def client_inv_def wf_pending_def fresh_pending_def empty_pending_def
      split: option.splits dest!: claim_slot_SomeD(3) intro!: list_all_update)

section \<open>Public calls\<close>

lemma sendRequest_inv:
  assumes "client_inv cfg c" "1 \<le> max_token_len cfg"
  shows "client_inv cfg (snd (sendRequest cfg server path meth payload fmt con reg dereg h ctx mark c))"
proof (cases "allocatePending c")
  case None
  with assms show ?thesis by (simp add: sendRequest_def)
next
  case (Some ic)
  obtain i c1 where ic: "ic = (i, c1)" by fastforce
  have c1: "client_inv cfg c1" using inv_allocatePending assms(1) Some ic by blast
  have pend: "client_inv cfg (upd_pending i (\<lambda>p. p\<lparr>pd_server := server, pd_token := [tok],
      pd_onResponse := h, pd_userContext := ctx, pd_observing := mark, pd_path := sp\<rparr>) c')"
    if "client_inv cfg c'" for c' :: "'a client_scheme" and tok sp
    using that assms(2) by (intro inv_upd_pending) (simp_all add: wf_pending_def)
  have recv: "client_inv cfg (upd_recv i (\<lambda>r. r\<lparr>rv_active := False, rv_path := sp\<rparr>) c')"
    if "client_inv cfg c'" for c' :: "'a client_scheme" and sp
    using that by (intro inv_upd_recv) (simp_all add: wf_recv_def)
  show ?thesis
    using c1 by (auto simp: sendRequest_def Some ic Let_def split_def pend recv)
qed

lemma sendBlock1_inv [simp]:
  "client_inv cfg c \<Longrightarrow> client_inv cfg (snd (sendBlock1 cfg slot c))"
  by (simp add: sendBlock1_def Let_def split_def)

lemma sendBlock2Request_inv [simp]:
  "client_inv cfg c \<Longrightarrow> client_inv cfg (snd (sendBlock2Request cfg slot c))"
  by (simp add: sendBlock2Request_def Let_def split_def)

lemma start_upload_inv:
  assumes "client_inv cfg c" "1 \<le> max_token_len cfg"
  shows "client_inv cfg (snd (start_upload cfg server path meth payload fmt h ctx c))"
proof (cases "allocatePending c")
  case None
  with assms show ?thesis by (simp add: start_upload_def)
next
  case (Some ic)
  obtain i c1 where ic: "ic = (i, c1)" by fastforce
  have c1: "client_inv cfg c1" using inv_allocatePending assms(1) Some ic by blast
  have pend: "client_inv cfg (upd_pending i (\<lambda>p. p\<lparr>pd_server := server, pd_token := [tok],
      pd_onResponse := h, pd_userContext := ctx, pd_observing := False\<rparr>) c')"
    and path: "client_inv cfg (upd_pending i (\<lambda>p. p\<lparr>pd_path := path\<rparr>) c')"
    if "client_inv cfg c'" for c' :: "'a client_scheme" and tok
    using that assms(2) by (intro inv_upd_pending; simp add: wf_pending_def)+
  have recv: "client_inv cfg (upd_recv i (\<lambda>r. r\<lparr>rv_active := False\<rparr>) c')"
    if "client_inv cfg c'" for c' :: "'a client_scheme"
    using that by (intro inv_upd_recv) (simp_all add: wf_recv_def)
  show ?thesis
    using c1 by (auto simp: start_upload_def Some ic Let_def split_def pend recv path)
qed

lemma cancelObserve_inv:
  "client_inv cfg c \<Longrightarrow> 1 \<le> max_token_len cfg \<Longrightarrow> client_inv cfg (snd (cancelObserve cfg server path c))"
  by (auto simp: cancelObserve_def Let_def intro!: sendRequest_inv split: option.split)

lemma discover_inv:
  assumes "client_inv cfg c"
  shows "client_inv cfg (snd (discover cfg ep h ctx c))"
proof -
  have "client_inv cfg (c'\<lparr>cl_discovers := (cl_discovers c')[i := d]\<rparr>)" if "client_inv cfg c'" for c' :: "'a client_scheme" and i d
    using that by (simp add: client_inv_def)
  with assms show ?thesis
    by (auto simp: discover_def Let_def split_def split: option.split)
qed

lemma inv_timeout_handler: "client_inv cfg (setTimeoutHandler h c) = client_inv cfg c"
  by (simp add: client_inv_def setTimeoutHandler_def)

text \<open>What application code can do to the client and its own globals, from a callback or between polls.\<close>

inductive client_api :: "config \<Rightarrow> 'c client_scheme \<Rightarrow> 'c client_scheme \<Rightarrow> bool" for cfg where
  c_get: "client_api cfg c (snd (client_get cfg server path h ctx con c))"
| c_put: "client_api cfg c (snd (client_put cfg server path payload fmt h ctx con c))"
| c_post: "client_api cfg c (snd (client_post cfg server path payload fmt h ctx con c))"
| c_del: "client_api cfg c (snd (client_del cfg server path h ctx con c))"
| c_observe: "client_api cfg c (snd (client_observe cfg server path h ctx c))"
| c_cancel: "client_api cfg c (snd (cancelObserve cfg server path c))"
| c_discover: "client_api cfg c (snd (discover cfg ep h ctx c))"
| c_timeout: "client_api cfg c (setTimeoutHandler h c)"
| c_globals: "client_api cfg c (client.more_update f c)"

lemma client_api_inv:
  assumes "client_api cfg c c'" "client_inv cfg c" "1 \<le> max_token_len cfg"
  shows "client_inv cfg c'"
  using assms
  by cases
    (auto simp: client_get_def client_put_def client_post_def client_del_def client_observe_def
      sendRequest_inv start_upload_inv cancelObserve_inv discover_inv inv_timeout_handler)

lemma client_api_reach_inv:
  "(client_api cfg)\<^sup>*\<^sup>* c c' \<Longrightarrow> client_inv cfg c \<Longrightarrow> 1 \<le> max_token_len cfg \<Longrightarrow> client_inv cfg c'"
  by (induction rule: rtranclp_induct) (auto intro: client_api_inv)

section \<open>The pool the client shares\<close>

text \<open>No public call changes the number of transaction slots.\<close>

lemma allocatePending_pool: "allocatePending c = Some (i, c') \<Longrightarrow> cl_pool c' = cl_pool c"
  by (auto simp: allocatePending_def split: option.splits)

lemma nextToken_frame [frame_simps]:
  "cl_pool (snd (nextToken c)) = cl_pool c" "cl_pending (snd (nextToken c)) = cl_pending c"
  "cl_transport (snd (nextToken c)) = cl_transport c"
  "cl_nextMessageId (snd (nextToken c)) = cl_nextMessageId c"
  by (simp_all add: nextToken_def)

lemma sendRequest_pool_length [len_simps]:
  "length (cl_pool (snd (sendRequest cfg server path meth payload fmt con reg dereg h ctx mark c))) =
   length (cl_pool c)"
  by (auto simp: sendRequest_def Let_def split_def frame_simps len_simps
      dest: allocatePending_pool split: option.split)

lemma sendBlock1_pool_length [len_simps]:
  "length (cl_pool (snd (sendBlock1 cfg slot c))) = length (cl_pool c)"
  by (simp add: sendBlock1_def Let_def split_def frame_simps len_simps)

lemma start_upload_pool_length [len_simps]:
  "length (cl_pool (snd (start_upload cfg server path meth payload fmt h ctx c))) = length (cl_pool c)"
  by (auto simp: start_upload_def Let_def split_def frame_simps len_simps
      dest: allocatePending_pool split: option.split)

lemma client_api_pool_length:
  assumes "client_api cfg c c'"
  shows "length (cl_pool c') = length (cl_pool c)"
  using assms
  by cases
    (auto simp: client_get_def client_put_def client_post_def client_del_def client_observe_def
      cancelObserve_def discover_def setTimeoutHandler_def Let_def split_def frame_simps len_simps
      split: option.split)

lemma client_api_reach_pool_length:
  "(client_api cfg)\<^sup>*\<^sup>* c c' \<Longrightarrow> length (cl_pool c') = length (cl_pool c)"
  by (induction rule: rtranclp_induct) (auto dest: client_api_pool_length)

definition callbacks_ok :: "config \<Rightarrow> 'c client_env \<Rightarrow> bool" where
  "callbacks_ok cfg env \<longleftrightarrow>
     (\<forall>h res ctx c. (client_api cfg)\<^sup>*\<^sup>* c (ce_response env h res ctx c)) \<and>
     (\<forall>h ctx c. (client_api cfg)\<^sup>*\<^sup>* c (ce_timeout env h ctx c)) \<and>
     (\<forall>h ep p ctx c. (client_api cfg)\<^sup>*\<^sup>* c (ce_discover env h ep p ctx c))"

lemma callbacks_reach:
  assumes "callbacks_ok cfg env"
  shows "(client_api cfg)\<^sup>*\<^sup>* c (ce_response env h res ctx c)"
    and "(client_api cfg)\<^sup>*\<^sup>* c (ce_timeout env h ctx c)"
    and "(client_api cfg)\<^sup>*\<^sup>* c (ce_discover env h ep p ctx c)"
  using assms by (simp_all add: callbacks_ok_def)

lemmas callback_inv = callbacks_reach [THEN client_api_reach_inv]
lemmas callback_pool_length = callbacks_reach [THEN client_api_reach_pool_length]

lemma fire_timeout_inv:
  "callbacks_ok cfg env \<Longrightarrow> client_inv cfg c \<Longrightarrow> 1 \<le> max_token_len cfg \<Longrightarrow>
   client_inv cfg (fire_timeout env ctx c)"
  by (simp add: fire_timeout_def callback_inv split: option.split)

lemma fire_response_inv:
  "callbacks_ok cfg env \<Longrightarrow> client_inv cfg c \<Longrightarrow> 1 \<le> max_token_len cfg \<Longrightarrow>
   client_inv cfg (fire_response env slot res c)"
  by (simp add: fire_response_def callback_inv split: option.split)

lemma clientTimeout_inv:
  "callbacks_ok cfg env \<Longrightarrow> client_inv cfg c \<Longrightarrow> 1 \<le> max_token_len cfg \<Longrightarrow>
   client_inv cfg (clientTimeout env remote tok c)"
  by (auto simp: clientTimeout_def intro!: fire_timeout_inv split: option.split)

lemma clientTimeout_pool_length:
  assumes "callbacks_ok cfg env"
  shows "length (cl_pool (clientTimeout env remote tok c)) = length (cl_pool c)"
proof -
  have "length (cl_pool (fire_timeout env ctx c')) = length (cl_pool c')" for ctx and c' :: "'a client_scheme"
    using assms by (simp add: fire_timeout_def callback_pool_length split: option.split)
  then show ?thesis by (simp add: clientTimeout_def frame_simps split: option.split)
qed

lemma client_pool_owner:
  "callbacks_ok cfg env \<Longrightarrow> pool_owner cl_pool put_cl_pool clientResend (clientTimeout env)"
  by unfold_locales
    (simp_all add: put_cl_pool_def clientResend_def frame_simps clientTimeout_pool_length)

text \<open>
  Callbacks as programs: any application whose callbacks make a list of public calls that
  depends on their arguments is such an environment.
\<close>

datatype client_call =
    CallGet endpoint bytes "nat option" "nat option" bool
  | CallPut endpoint bytes bytes u16 "nat option" "nat option" bool
  | CallPost endpoint bytes bytes u16 "nat option" "nat option" bool
  | CallDel endpoint bytes "nat option" "nat option" bool
  | CallObserve endpoint bytes "nat option" "nat option"
  | CallCancel endpoint bytes
  | CallDiscover endpoint "nat option" "nat option"
  | CallTimeoutHandler "nat option"

fun run_call :: "config \<Rightarrow> client_call \<Rightarrow> 'c client_scheme \<Rightarrow> 'c client_scheme" where
  "run_call cfg (CallGet ep p h ctx con) c = snd (client_get cfg ep p h ctx con c)"
| "run_call cfg (CallPut ep p b f h ctx con) c = snd (client_put cfg ep p b f h ctx con c)"
| "run_call cfg (CallPost ep p b f h ctx con) c = snd (client_post cfg ep p b f h ctx con c)"
| "run_call cfg (CallDel ep p h ctx con) c = snd (client_del cfg ep p h ctx con c)"
| "run_call cfg (CallObserve ep p h ctx) c = snd (client_observe cfg ep p h ctx c)"
| "run_call cfg (CallCancel ep p) c = snd (cancelObserve cfg ep p c)"
| "run_call cfg (CallDiscover ep h ctx) c = snd (discover cfg ep h ctx c)"
| "run_call cfg (CallTimeoutHandler h) c = setTimeoutHandler h c"

definition scripted_env ::
    "config \<Rightarrow> (nat \<Rightarrow> client_response \<Rightarrow> nat option \<Rightarrow> client_call list) \<Rightarrow>
     (nat \<Rightarrow> nat option \<Rightarrow> client_call list) \<Rightarrow>
     (nat \<Rightarrow> endpoint \<Rightarrow> bytes option \<Rightarrow> nat option \<Rightarrow> client_call list) \<Rightarrow> 'c client_env" where
  "scripted_env cfg onR onT onD = \<lparr>
     ce_response = (\<lambda>h res ctx. fold (run_call cfg) (onR h res ctx)),
     ce_timeout = (\<lambda>h ctx. fold (run_call cfg) (onT h ctx)),
     ce_discover = (\<lambda>h ep p ctx. fold (run_call cfg) (onD h ep p ctx))\<rparr>"

lemma run_call_api: "client_api cfg c (run_call cfg k c)"
  by (cases k) (auto intro: client_api.intros)

lemma run_calls_reach: "(client_api cfg)\<^sup>*\<^sup>* c (fold (run_call cfg) ks c)"
  by (induction ks arbitrary: c) (auto intro: converse_rtranclp_into_rtranclp run_call_api)

lemma scripted_callbacks_ok: "callbacks_ok cfg (scripted_env cfg onR onT onD)"
  by (simp add: callbacks_ok_def scripted_env_def run_calls_reach)

interpretation scripted_owner: pool_owner cl_pool put_cl_pool clientResend
    "clientTimeout (scripted_env cfg onR onT onD)" for cfg onR onT onD
  by (rule client_pool_owner [OF scripted_callbacks_ok])

section \<open>The poll\<close>

lemma finish_slot_inv: "client_inv cfg c \<Longrightarrow> client_inv cfg (finish_slot slot c)"
  by (simp add: finish_slot_def)

lemma deliver_response_inv:
  "callbacks_ok cfg env \<Longrightarrow> client_inv cfg c \<Longrightarrow> 1 \<le> max_token_len cfg \<Longrightarrow>
   client_inv cfg (deliver_response env slot m c)"
  by (simp add: deliver_response_def finish_slot_inv fire_response_inv)

lemma continue_upload_inv:
  assumes "callbacks_ok cfg env" "client_inv cfg c" "1 \<le> max_token_len cfg"
  shows "client_inv cfg (continue_upload cfg env slot c)"
  using assms by (auto simp: continue_upload_def Let_def split_def intro!: fire_timeout_inv)

lemma absorb_block_wf:
  "wf_recv cfg r \<Longrightarrow> wf_recv cfg ((absorb_block cfg m b2 \<circ> open_recv m from b2) r)"
  by (auto simp: wf_recv_def absorb_block_def open_recv_def min_def)

lemma handle_block2_inv:
  assumes "callbacks_ok cfg env" "client_inv cfg c" "1 \<le> max_token_len cfg"
  shows "client_inv cfg (handle_block2 cfg env slot m from b2 c)"
proof -
  have "client_inv cfg (upd_recv slot (absorb_block cfg m b2 \<circ> open_recv m from b2) c)"
    using assms(2) by (rule inv_upd_recv) (rule absorb_block_wf)
  then show ?thesis
    using assms(1,3)
    by (auto simp: handle_block2_def Let_def wf_recv_def
        intro!: finish_slot_inv inv_upd_recv fire_response_inv)
qed

lemma dispatch_pending_inv:
  assumes "callbacks_ok cfg env" "client_inv cfg c" "1 \<le> max_token_len cfg"
  shows "client_inv cfg (dispatch_pending cfg env slot m from c)"
  using assms
  by (auto simp: dispatch_pending_def Let_def
      intro!: deliver_response_inv continue_upload_inv handle_block2_inv split: option.split)

lemma handle_response_inv:
  assumes "callbacks_ok cfg env" "client_inv cfg c" "1 \<le> max_token_len cfg"
  shows "client_inv cfg (handle_response cfg env m from c)"
proof -
  have d: "client_inv cfg (ce_discover env h ep p ctx c')" if "client_inv cfg c'" for h ep p ctx and c' :: "'a client_scheme"
    using callback_inv(3) [OF assms(1) that assms(3)] .
  show ?thesis
    using assms
    by (auto simp: handle_response_def Let_def intro!: dispatch_pending_inv d split: option.split)
qed

lemma handle_rst_inv:
  assumes "callbacks_ok cfg env" "client_inv cfg c" "1 \<le> max_token_len cfg"
  shows "client_inv cfg (handle_rst env m from c)"
proof -
  have "client_inv cfg (c\<lparr>cl_pool := snd (tx_complete from (msg_messageId m) (cl_pool c))\<rparr>)"
    using assms(2) by (simp add: client_inv_def wf_pool_complete)
  with assms show ?thesis
    by (auto simp: handle_rst_def Let_def intro!: fire_timeout_inv split: option.split)
qed

lemma poll_timers_inv:
  assumes "callbacks_ok cfg env" "client_inv cfg c" "valid_config cfg"
  shows "client_inv cfg (poll_timers cfg env now c)"
  unfolding poll_timers_def
proof (rule pool_owner.tick_inv [OF client_pool_owner [OF assms(1)]])
  show "client_inv cfg (expire_discovers cfg now c)"
    using assms(2) by (simp add: expire_discovers_def client_inv_def)
next
  fix i t and c' :: "'a client_scheme"
  assume I: "client_inv cfg c'" and i: "i < length (cl_pool c')"
    and t: "tick_tx cfg now (cl_pool c' ! i) = (t, Resent)"
  then have "wf_pool cfg ((cl_pool c')[i := t])"
    using wf_pool_tick_update [of cfg "cl_pool c'" i now] assms(3)
    by (simp add: client_inv_def valid_config_def)
  with I show "client_inv cfg (clientResend (tx_remote (cl_pool c' ! i)) (tx_message (cl_pool c' ! i))
      (put_cl_pool ((cl_pool c')[i := t]) c'))"
    unfolding clientResend_def put_cl_pool_def by (intro inv_send) (simp add: client_inv_def)
next
  fix i t and c' :: "'a client_scheme"
  assume I: "client_inv cfg c'" and i: "i < length (cl_pool c')"
    and t: "tick_tx cfg now (cl_pool c' ! i) = (t, GaveUp)"
  then have "wf_pool cfg ((cl_pool c')[i := t])"
    using wf_pool_tick_update [of cfg "cl_pool c'" i now] assms(3)
    by (simp add: client_inv_def valid_config_def)
  with I have "client_inv cfg (put_cl_pool ((cl_pool c')[i := t]) c')"
    by (simp add: put_cl_pool_def client_inv_def)
  then show "client_inv cfg (clientTimeout env (tx_remote (cl_pool c' ! i)) (tx_token (cl_pool c' ! i))
      (put_cl_pool ((cl_pool c')[i := t]) c'))"
    using assms(1,3) by (intro clientTimeout_inv) (simp_all add: valid_config_def)
qed

lemma client_poll_inv:
  assumes "callbacks_ok cfg env" "client_inv cfg c" "valid_config cfg"
  shows "\<exists>c'. client_poll cfg env now c = Some c' \<and> client_inv cfg c'"
proof -
  obtain src data t where r: "transport_receive (max_msg_size cfg) (cl_transport c) = ((src, data), t)"
    by (metis prod.exhaust)
  let ?c1 = "c\<lparr>cl_lastNowMs := now, cl_transport := t\<rparr>"
  have tok: "1 \<le> max_token_len cfg" using assms(3) by (simp add: valid_config_def)
  have c1: "client_inv cfg ?c1" using assms(2) by (simp add: client_inv_def)
  then have ack: "client_inv cfg (?c1\<lparr>cl_pool := snd (tx_complete src mid (cl_pool ?c1))\<rparr>)" for mid
    by (simp add: client_inv_def wf_pool_complete)
  note timers = poll_timers_inv [OF assms(1) _ assms(3)]
  note response = handle_response_inv [OF assms(1) _ tok]
  show ?thesis
  proof (cases "decode cfg data")
    case (Decoded m)
    show ?thesis
      using r Decoded c1 ack handle_rst_inv [OF assms(1) c1 tok] timers response
      by (auto simp: client_poll_def Let_def)
  qed (use r c1 timers decode_no_fault in \<open>simp_all add: client_poll_def Let_def\<close>)
qed

inductive client_step :: "config \<Rightarrow> 'c client_env \<Rightarrow> 'c client_scheme \<Rightarrow> 'c client_scheme \<Rightarrow> bool" for cfg env where
  cstep_api: "client_api cfg c c' \<Longrightarrow> client_step cfg env c c'"
| cstep_network: "client_step cfg env c
    (c\<lparr>cl_transport := (cl_transport c)\<lparr>tp_inbox := inbox, tp_send_results := results\<rparr>\<rparr>)"
| cstep_pool: "wf_pool cfg p \<Longrightarrow> client_step cfg env c (c\<lparr>cl_pool := p\<rparr>)"
| cstep_poll: "client_poll cfg env now c = Some c' \<Longrightarrow> client_step cfg env c c'"

inductive_cases client_stepE [elim]: "client_step cfg env c c'"

definition client_running :: "config \<Rightarrow> 'c client_env \<Rightarrow> 'c client_scheme \<Rightarrow> bool" where
  "client_running cfg env c \<longleftrightarrow>
     (\<exists>t globals. (client_step cfg env)\<^sup>*\<^sup>* (install globals (new_client cfg t (reset_pool cfg))) c)"

lemma client_running_inv:
  assumes "callbacks_ok cfg env" "valid_config cfg" "client_running cfg env c"
  shows "client_inv cfg c"
proof -
  obtain t globals where "(client_step cfg env)\<^sup>*\<^sup>* (install globals (new_client cfg t (reset_pool cfg))) c"
    using assms(3) by (auto simp: client_running_def)
  then show ?thesis
  proof (induction rule: rtranclp_induct)
    case base
    show ?case by (simp add: new_client_inv wf_pool_reset)
  next
    case (step c1 c2)
    from step.hyps(2) show ?case
    proof cases
      case cstep_api
      from client_api_inv [OF this step.IH] assms(2) show ?thesis by (simp add: valid_config_def)
    next
      case (cstep_network inbox results)
      with step.IH show ?thesis by (simp add: client_inv_def)
    next
      case (cstep_pool p)
      with step.IH show ?thesis by (simp add: client_inv_def)
    next
      case (cstep_poll now)
      with client_poll_inv [OF assms(1) step.IH assms(2), of now] show ?thesis by auto
    qed
  qed
qed

end
