(* ===== verification/Coap_Client_Request.thy ===== *)
theory Coap_Client_Request
  imports Coap_Client_Inv
begin

text \<open>
  What the client puts on the wire: the message of a request and of an upload block, the
  bookkeeping of a call that succeeds or fails, and the deregistration of an observation.
\<close>

section \<open>The message of a request\<close>

definition request_of ::
    "bool \<Rightarrow> u16 \<Rightarrow> u8 \<Rightarrow> u8 \<Rightarrow> coap_option list \<Rightarrow> bytes option \<Rightarrow> message" where
  "request_of con mid token method options payload =
     \<lparr>msg_type = (if con then Confirmable else NonConfirmable), msg_code = method,
      msg_messageId = mid, msg_token = [token], msg_options = options, msg_lastOptionNumber = 0,
      msg_payload = payload\<rparr>"

definition observe_options :: "bool \<Rightarrow> bool \<Rightarrow> coap_option list" where
  "observe_options reg dereg =
     (if reg then [uint_option Opt_Observe kObserveRegister]
      else if dereg then [uint_option Opt_Observe kObserveDeregister] else [])"

text \<open>The Content-Format is left out when the path has used up the option slots.\<close>

definition request_options ::
    "config \<Rightarrow> bool \<Rightarrow> bool \<Rightarrow> bytes \<Rightarrow> bytes option \<Rightarrow> u16 \<Rightarrow> coap_option list" where
  "request_options cfg reg dereg path payload fmt =
     (let opts = observe_options reg dereg @ map uri_option (segments path)
      in if payload = None \<or> payload = Some [] \<or> max_options cfg \<le> length opts then opts
         else opts @ [uint_option Opt_ContentFormat (ucast fmt)])"

definition request_payload :: "bytes option \<Rightarrow> bytes option" where
  "request_payload p = (if p = Some [] then None else p)"

definition short_path :: "bytes \<Rightarrow> bool" where
  "short_path path \<longleftrightarrow> list_all (\<lambda>s. length s < 65536) (segments path)"

lemma request_message_eq:
  assumes "1 \<le> max_token_len cfg" "1 \<le> max_options cfg"
  shows "request_message cfg con mid token meth reg dereg =
    (request_of con mid token meth (observe_options reg dereg) None)
      \<lparr>msg_lastOptionNumber := (if reg \<or> dereg then Opt_Observe else 0)\<rparr>"
proof -
  let ?m0 = "request_of con mid token meth [] None"
  have m0: "snd (setToken cfg [token] (reset_message\<lparr>msg_type := (if con then Confirmable else NonConfirmable),
      msg_messageId := mid\<rparr>))\<lparr>msg_code := meth\<rparr> = ?m0"
    using assms(1) by (simp add: setToken_def reset_message_def request_of_def)
  have "addOptionUint cfg Opt_Observe v ?m0 = (True, ?m0\<lparr>msg_options := [uint_option Opt_Observe v],
      msg_lastOptionNumber := Opt_Observe\<rparr>)" for v
    using assms(2) addOptionUint_append [of ?m0 cfg Opt_Observe v] by (simp add: request_of_def)
  then show ?thesis
    by (simp add: request_message_def Let_def m0 [simplified] observe_options_def)
      (simp add: request_of_def)
qed

lemma request_path:
  assumes "1 \<le> max_token_len cfg" "1 \<le> max_options cfg" "short_path path"
    and "addUriPathOptions cfg (request_message cfg con mid token meth reg dereg) (Some path) = (ok, m)"
  shows "ok \<longleftrightarrow> length (observe_options reg dereg) + length (segments path) \<le> max_options cfg"
    and "ok \<Longrightarrow> \<exists>n \<le> Opt_UriPath. m = (request_of con mid token meth
      (observe_options reg dereg @ map uri_option (segments path)) None)\<lparr>msg_lastOptionNumber := n\<rparr>"
proof -
  let ?m1 = "request_message cfg con mid token meth reg dereg"
  note m1 = request_message_eq [OF assms(1,2), of con mid token meth reg dereg]
  have o1: "msg_options ?m1 = observe_options reg dereg" by (simp add: m1 request_of_def)
  have "msg_lastOptionNumber ?m1 \<le> Opt_UriPath" by (simp add: m1 opt_defs)
  moreover have l: "length (observe_options reg dereg) \<le> max_options cfg"
    using assms(2) by (simp add: observe_options_def)
  moreover have "length s < 2 ^ 16" if "s \<in> set (segments path)" for s
    using assms(3) that by (simp add: short_path_def list_all_iff)
  ultimately have s: "addUriPath_loop cfg ?m1 path =
    (let n = length (segments path); free = max_options cfg - length (observe_options reg dereg)
     in (n \<le> free, if n = 0 \<or> free = 0 then ?m1
         else ?m1\<lparr>msg_options := observe_options reg dereg @ map uri_option (take free (segments path)),
                msg_lastOptionNumber := Opt_UriPath\<rparr>))"
    using addUriPath_loop_spec [of path ?m1 cfg] o1 by (simp add: Let_def)
  then have ok': "ok \<longleftrightarrow> length (segments path) \<le> max_options cfg - length (observe_options reg dereg)"
    using assms(4) by (auto simp: addUriPathOptions_def Let_def)
  with l show "ok \<longleftrightarrow> length (observe_options reg dereg) + length (segments path) \<le> max_options cfg"
    by linarith
  assume ok
  with ok' have le: "length (segments path) \<le> max_options cfg - length (observe_options reg dereg)" by blast
  have m: "m = (if segments path = [] then ?m1
      else ?m1\<lparr>msg_options := observe_options reg dereg @ map uri_option (segments path),
             msg_lastOptionNumber := Opt_UriPath\<rparr>)"
    using assms(4) s le by (auto simp: addUriPathOptions_def Let_def split: if_splits)
  show "\<exists>n \<le> Opt_UriPath. m = (request_of con mid token meth
      (observe_options reg dereg @ map uri_option (segments path)) None)\<lparr>msg_lastOptionNumber := n\<rparr>"
    using m by (cases "segments path = []")
      (auto simp: m1 request_of_def opt_defs intro!: exI [of _ "msg_lastOptionNumber m"])
qed

lemma request_body:
  assumes "n \<le> Opt_UriPath"
  shows "\<exists>k. (case payload of None \<Rightarrow> (request_of con mid token meth opts None)\<lparr>msg_lastOptionNumber := n\<rparr>
       | Some p \<Rightarrow> if p = [] then (request_of con mid token meth opts None)\<lparr>msg_lastOptionNumber := n\<rparr>
           else setPayload (Some p) (snd (addOptionUint cfg Opt_ContentFormat (ucast fmt)
                  ((request_of con mid token meth opts None)\<lparr>msg_lastOptionNumber := n\<rparr>)))) =
     (request_of con mid token meth
        (if payload = None \<or> payload = Some [] \<or> max_options cfg \<le> length opts then opts
         else opts @ [uint_option Opt_ContentFormat (ucast fmt)]) (request_payload payload))
       \<lparr>msg_lastOptionNumber := k\<rparr>"
proof -
  let ?m = "(request_of con mid token meth opts None)\<lparr>msg_lastOptionNumber := n\<rparr>"
  have full: "addOptionUint cfg Opt_ContentFormat v ?m = (False, ?m)" if "max_options cfg \<le> length opts" for v
    using that by (simp add: addOptionUint_def addOption_def Let_def request_of_def)
  have fit: "addOptionUint cfg Opt_ContentFormat v ?m =
      (True, ?m\<lparr>msg_options := opts @ [uint_option Opt_ContentFormat v], msg_lastOptionNumber := Opt_ContentFormat\<rparr>)"
    if "\<not> max_options cfg \<le> length opts" for v
    using addOptionUint_append [of ?m cfg Opt_ContentFormat v] that assms
    by (simp add: request_of_def opt_defs word_le_nat_alt)
  show ?thesis
    by (cases "max_options cfg \<le> length opts"; cases payload)
      (simp_all add: full fit setPayload_def request_payload_def, auto simp: request_of_def)
qed

lemma request_options_wf:
  assumes "short_path path"
  shows "list_all wf_option (request_options cfg reg dereg path payload fmt)"
proof -
  have "list_all wf_option (map uri_option (segments path))"
    using assms segments_ok by (auto simp: list_all_iff short_path_def intro!: wf_uri_option)
  then show ?thesis
    by (simp add: request_options_def observe_options_def Let_def wf_uint_option)
qed

lemma request_of_wf:
  assumes "short_path path" "1 \<le> max_token_len cfg"
    "length (observe_options reg dereg) + length (segments path) \<le> max_options cfg"
  shows "wf_message cfg (request_of con mid token meth (request_options cfg reg dereg path payload fmt)
    (request_payload payload))"
  using assms request_options_wf [OF assms(1)]
  by (simp add: wf_message_def request_of_def request_payload_def)
    (simp add: request_options_def Let_def)

lemma request_uri_segments:
  assumes "short_path path"
  shows "uri_segments (request_of con mid token meth (request_options cfg reg dereg path payload fmt) b) =
    segments path"
proof -
  have "filter (\<lambda>o'. opt_number o' = Opt_UriPath) (map uri_option (segments path)) =
      map uri_option (segments path)"
    by (simp add: filter_map comp_def uri_option_def)
  moreover have "map opt_bytes (map uri_option (segments path)) = segments path"
    using assms by (simp add: short_path_def list_all_iff opt_bytes_uri map_idI)
  ultimately show ?thesis
    by (simp add: uri_segments_def request_of_def request_options_def observe_options_def Let_def opt_defs)
qed

section \<open>A call that sends a request\<close>

definition sent_request ::
    "config \<Rightarrow> bytes \<Rightarrow> u8 \<Rightarrow> bytes option \<Rightarrow> u16 \<Rightarrow> bool \<Rightarrow> bool \<Rightarrow> bool \<Rightarrow> 'c client_scheme \<Rightarrow> message" where
  "sent_request cfg path meth payload fmt con reg dereg c =
     request_of con (cl_nextMessageId c) (cl_nextTokenByte c) meth
       (request_options cfg reg dereg path payload fmt) (request_payload payload)"

definition pending_entry ::
    "endpoint \<Rightarrow> u8 \<Rightarrow> nat option \<Rightarrow> nat option \<Rightarrow> bool \<Rightarrow> bytes \<Rightarrow> pending_request" where
  "pending_entry server tok h ctx mark sp =
     \<lparr>pd_active = True, pd_server = server, pd_token = [tok], pd_onResponse = h,
      pd_userContext = ctx, pd_observing = mark, pd_path = sp\<rparr>"

lemma sendRequest_built:
  assumes cfg: "valid_config cfg" and path: "short_path path"
    and m: "m = sent_request cfg path meth payload fmt con reg dereg c"
    and slot: "allocatePending c = Some (slot, c1)"
    and c3: "c3 = c1\<lparr>cl_nextTokenByte := cl_nextTokenByte c + 1, cl_nextMessageId := cl_nextMessageId c + 1\<rparr>"
  shows "sendRequest cfg server path meth payload fmt con reg dereg h ctx mark c =
    (if max_options cfg < length (observe_options reg dereg) + length (segments path) \<or>
        encode m (max_msg_size cfg) = []
     then (False, upd_pending slot release_pending c3)
     else let buf = encode m (max_msg_size cfg); (sent, c4) = cl_send server buf c3
       in if \<not> sent then (False, upd_pending slot release_pending c4)
          else let c5 = (if con then cl_track cfg server (msg_messageId m) (msg_token m) buf c4 else c4);
                   c6 = upd_pending slot (\<lambda>p. p\<lparr>pd_server := server, pd_token := msg_token m,
                          pd_onResponse := h, pd_userContext := ctx, pd_observing := mark,
                          pd_path := stored_path cfg path\<rparr>) c5
               in (True, if enable_blockwise cfg
                         then upd_recv slot (\<lambda>r. r\<lparr>rv_active := False, rv_path := stored_path cfg path\<rparr>)
                                (upd_upload slot (\<lambda>u. u\<lparr>up_active := False\<rparr>) c6)
                         else c6))"
proof -
  let ?mid = "cl_nextMessageId c" and ?tok = "cl_nextTokenByte c"
  let ?m1 = "request_message cfg con ?mid ?tok meth reg dereg"
  have small: "1 \<le> max_token_len cfg" "1 \<le> max_options cfg" using cfg by (simp_all add: valid_config_def)
  have c1: "cl_nextTokenByte c1 = ?tok" "cl_nextMessageId c1 = ?mid"
    using slot by (auto simp: allocatePending_def split: option.splits)
  obtain ok m2 where add: "addUriPathOptions cfg ?m1 (Some path) = (ok, m2)" by fastforce
  note rp = request_path [OF small path add]
  have tok: "msg_messageId m = ?mid" "msg_token m = [?tok]" by (simp_all add: m sent_request_def request_of_def)
  show ?thesis
  proof (cases ok)
    case False
    with rp(1) show ?thesis
      by (simp add: sendRequest_def slot nextToken_def Let_def c1 add c3)
  next
    case True
    let ?m3 = "case payload of None \<Rightarrow> m2 | Some p \<Rightarrow> if p = [] then m2
      else setPayload (Some p) (snd (addOptionUint cfg Opt_ContentFormat (ucast fmt) m2))"
    obtain n where n: "n \<le> Opt_UriPath" "m2 = (request_of con ?mid ?tok meth
        (observe_options reg dereg @ map uri_option (segments path)) None)\<lparr>msg_lastOptionNumber := n\<rparr>"
      using rp(2) [OF True] by blast
    obtain k where "?m3 = m\<lparr>msg_lastOptionNumber := k\<rparr>"
      using request_body [OF n(1), of con ?mid ?tok meth
          "observe_options reg dereg @ map uri_option (segments path)" cfg fmt payload]
      unfolding n(2) [symmetric] m sent_request_def request_options_def Let_def by blast
    then have e: "encode ?m3 (max_msg_size cfg) = encode m (max_msg_size cfg)"
      by (simp add: encode_last_option)
    obtain sent c4 where "cl_send server (encode m (max_msg_size cfg)) c3 = (sent, c4)" by fastforce
    then show ?thesis
      using True rp(1)
      by (simp add: sendRequest_def slot nextToken_def Let_def c1 add e tok c3)
  qed
qed

lemma sendRequest_success:
  assumes sent: "sendRequest cfg server path meth payload fmt con reg dereg h ctx mark c = (True, c')"
    and cfg: "valid_config cfg" and path: "short_path path"
    and m: "m = sent_request cfg path meth payload fmt con reg dereg c"
  obtains slot where "slot < length (cl_pending c)" "\<not> pd_active (cl_pending c ! slot)"
    "encode m (max_msg_size cfg) \<noteq> []" "wf_message cfg m"
    "cl_transport c' = snd (transport_send server (encode m (max_msg_size cfg)) (cl_transport c))"
    "cl_pending c' = (cl_pending c)[slot := pending_entry server (cl_nextTokenByte c) h ctx mark
                                             (stored_path cfg path)]"
    "cl_pool c' = (if con then snd (tx_start cfg server (msg_messageId m) (msg_token m)
       (encode m (max_msg_size cfg)) (cl_lastNowMs c) (cl_pool c)) else cl_pool c)"
    "cl_discovers c' = cl_discovers c" "cl_onTimeout c' = cl_onTimeout c"
    "slot < length (cl_uploads c) \<and> enable_blockwise cfg \<longrightarrow> \<not> up_active (cl_uploads c' ! slot)"
proof -
  obtain slot c1 where a: "allocatePending c = Some (slot, c1)"
    using sent by (cases "allocatePending c") (auto simp: sendRequest_def)
  then obtain ps where cl: "claim_slot pd_active fresh_pending (cl_pending c) = Some (slot, ps)"
      "c1 = c\<lparr>cl_pending := ps\<rparr>"
    by (auto simp: allocatePending_def split: option.splits)
  note c1 = cl(2) [unfolded claim_slot_SomeD(3) [OF cl(1)] fresh_pending_def] claim_slot_SomeD(1,2) [OF cl(1)]
  note b = sendRequest_built [OF cfg path m a refl, of server h ctx mark, unfolded sent]
  have small: "length (observe_options reg dereg) + length (segments path) \<le> max_options cfg"
      "encode m (max_msg_size cfg) \<noteq> []"
    using b by (auto split: if_splits simp: not_less)
  have "wf_message cfg m"
    using request_of_wf [OF path _ small(1)] cfg by (simp add: m sent_request_def valid_config_def)
  moreover have tok: "msg_token m = [cl_nextTokenByte c]" by (simp add: m sent_request_def request_of_def)
  show thesis
  proof (rule that [OF c1(2,3) small(2) \<open>wf_message cfg m\<close>])
    show "cl_pending c' = (cl_pending c)[slot := pending_entry server (cl_nextTokenByte c) h ctx mark
                                             (stored_path cfg path)]"
      using b small c1(2) by (auto simp: Let_def split_def frame_simps c1(1) tok empty_pending_def
          pending_entry_def split: if_splits)
  qed (use b small c1(2) in \<open>auto simp: Let_def split_def frame_simps c1(1) cl_send_def cl_track_def
      split: if_splits\<close>)
qed

lemma sendRequest_failure:
  assumes "sendRequest cfg server path meth payload fmt con reg dereg h ctx mark c = (False, c')"
  shows "cl_pool c' = cl_pool c" "cl_uploads c' = cl_uploads c" "cl_recvs c' = cl_recvs c"
    "cl_discovers c' = cl_discovers c"
    "\<forall>i < length (cl_pending c). pd_active (cl_pending c ! i) \<longrightarrow> cl_pending c' ! i = cl_pending c ! i"
    "occupancy pd_active (cl_pending c') = occupancy pd_active (cl_pending c)"
proof -
  have "cl_pool c' = cl_pool c \<and> cl_uploads c' = cl_uploads c \<and> cl_recvs c' = cl_recvs c \<and>
    cl_discovers c' = cl_discovers c \<and>
    (\<forall>i < length (cl_pending c). pd_active (cl_pending c ! i) \<longrightarrow> cl_pending c' ! i = cl_pending c ! i) \<and>
    occupancy pd_active (cl_pending c') = occupancy pd_active (cl_pending c)"
  proof (cases "allocatePending c")
    case None
    with assms show ?thesis by (simp add: sendRequest_def)
  next
    case (Some a)
    obtain slot c1 where a: "a = (slot, c1)" by fastforce
    with Some obtain ps where cl: "claim_slot pd_active fresh_pending (cl_pending c) = Some (slot, ps)"
      "c1 = c\<lparr>cl_pending := ps\<rparr>"
      by (auto simp: allocatePending_def split: option.splits)
    note d = claim_slot_SomeD [OF cl(1)]
    have "cl_pool c' = cl_pool c \<and> cl_uploads c' = cl_uploads c \<and> cl_recvs c' = cl_recvs c \<and>
        cl_discovers c' = cl_discovers c \<and> cl_pending c' = ps[slot := release_pending (ps ! slot)]"
      using assms by (auto simp: sendRequest_def Some a cl(2) nextToken_def Let_def split_def frame_simps
          split: if_splits)
    then show ?thesis
      using pending_table.claim_then_release [OF cl(1)] d by (auto simp: nth_list_update)
  qed
  then show "cl_pool c' = cl_pool c" "cl_uploads c' = cl_uploads c" "cl_recvs c' = cl_recvs c"
    "cl_discovers c' = cl_discovers c"
    "\<forall>i < length (cl_pending c). pd_active (cl_pending c ! i) \<longrightarrow> cl_pending c' ! i = cl_pending c ! i"
    "occupancy pd_active (cl_pending c') = occupancy pd_active (cl_pending c)"
    by blast+
qed

section \<open>A body in blocks, sent\<close>

definition block1_options :: "bytes \<Rightarrow> u16 \<Rightarrow> u32 \<Rightarrow> coap_option list" where
  "block1_options path fmt v =
     map uri_option (segments path) @
     [uint_option Opt_ContentFormat (ucast fmt), uint_option Opt_Block1 v]"

definition block1_message ::
    "u16 \<Rightarrow> u8 \<Rightarrow> u8 \<Rightarrow> bytes \<Rightarrow> u16 \<Rightarrow> bytes \<Rightarrow> u8 \<Rightarrow> nat \<Rightarrow> message" where
  "block1_message mid tok meth path fmt payload szx n =
     (let sz = unat (shift_size szx)
      in request_of True mid tok meth
           (block1_options path fmt (toOptionValue (of_nat n) (n * sz + sz < length payload) szx))
           (Some (slice payload sz n)))"

lemma addUriPath_fits:
  assumes cfg: "valid_config cfg" and path: "short_path path"
    and room: "length (segments path) + 2 \<le> max_options cfg"
  obtains n where "n \<le> Opt_UriPath"
    "addUriPathOptions cfg (request_message cfg True mid tok meth False False) (Some path) =
       (True, (request_of True mid tok meth (map uri_option (segments path)) None)\<lparr>msg_lastOptionNumber := n\<rparr>)"
proof -
  obtain ok m2 where a: "addUriPathOptions cfg (request_message cfg True mid tok meth False False) (Some path) = (ok, m2)"
    by fastforce
  have "1 \<le> max_token_len cfg" "1 \<le> max_options cfg" using cfg by (simp_all add: valid_config_def)
  note r = request_path [OF this path a]
  from r(1) room have ok by (simp add: observe_options_def)
  with r(2) that a show thesis by (auto simp: observe_options_def)
qed

lemma block1_built:
  assumes "n \<le> Opt_UriPath" "length (segments path) + 2 \<le> max_options cfg"
    and "m2 = (request_of True mid tok meth (map uri_option (segments path)) None)\<lparr>msg_lastOptionNumber := n\<rparr>"
  shows "\<exists>k. snd (addOptionUint cfg Opt_Block1 v (snd (addOptionUint cfg Opt_ContentFormat (ucast fmt) m2))) =
    (request_of True mid tok meth (block1_options path fmt v) None)\<lparr>msg_lastOptionNumber := k\<rparr>"
proof -
  have "addOptionUint cfg Opt_ContentFormat w m2 = (True, m2\<lparr>msg_options := msg_options m2 @
      [uint_option Opt_ContentFormat w], msg_lastOptionNumber := Opt_ContentFormat\<rparr>)" for w
    using assms(1,2) by (intro addOptionUint_append)
      (simp_all add: assms(3) request_of_def opt_defs word_le_nat_alt)
  moreover have "addOptionUint cfg Opt_Block1 v (m2\<lparr>msg_options := msg_options m2 @
      [uint_option Opt_ContentFormat w], msg_lastOptionNumber := Opt_ContentFormat\<rparr>) =
    (True, m2\<lparr>msg_options := msg_options m2 @ [uint_option Opt_ContentFormat w, uint_option Opt_Block1 v],
             msg_lastOptionNumber := Opt_Block1\<rparr>)" for w
    using assms(1,2)
      addOptionUint_append [of "m2\<lparr>msg_options := msg_options m2 @
        [uint_option Opt_ContentFormat w], msg_lastOptionNumber := Opt_ContentFormat\<rparr>" cfg Opt_Block1 v]
    by (simp add: assms(3) request_of_def opt_defs)
  ultimately show ?thesis
    by (intro exI [of _ Opt_Block1]) (simp add: assms(3) request_of_def block1_options_def)
qed

lemma sendBlock1_success:
  assumes cfg: "valid_config cfg" and up: "up = cl_uploads c ! slot"
    and path: "short_path (up_path up)" "length (segments (up_path up)) + 2 \<le> max_options cfg"
    and m: "m = block1_message (cl_nextMessageId c) (up_token up) (up_method up) (up_path up)
      (up_contentFormat up) (up_fullPayload up) (up_szx up) (unat (up_nextNum up))"
    and sent: "sendBlock1 cfg slot c = (True, c')"
  shows "unat (up_nextNum up) * unat (shift_size (up_szx up)) < length (up_fullPayload up)"
    and "encode m (max_msg_size cfg) \<noteq> []"
    and "tp_sent (cl_transport c') = tp_sent (cl_transport c) @ [(up_server up, encode m (max_msg_size cfg))]"
    and "cl_pool c' = snd (tx_start cfg (up_server up) (msg_messageId m) (msg_token m)
      (encode m (max_msg_size cfg)) (cl_lastNowMs c) (cl_pool c))"
    and "cl_uploads c' = (cl_uploads c)[slot := up\<lparr>up_waitingForContinue := True\<rparr>]"
    and "cl_pending c' = cl_pending c"
proof -
  let ?sz = "unat (shift_size (up_szx up))" and ?n = "unat (up_nextNum up)" and ?p = "up_fullPayload up"
  let ?mid = "cl_nextMessageId c" and ?tok = "up_token up"
  obtain k where k: "k \<le> Opt_UriPath" and add:
    "addUriPathOptions cfg (request_message cfg True ?mid ?tok (up_method up) False False) (Some (up_path up)) =
       (True, (request_of True ?mid ?tok (up_method up) (map uri_option (segments (up_path up))) None)
          \<lparr>msg_lastOptionNumber := k\<rparr>)"
    using addUriPath_fits [OF cfg path] by metis
  let ?m2 = "(request_of True ?mid ?tok (up_method up) (map uri_option (segments (up_path up))) None)
    \<lparr>msg_lastOptionNumber := k\<rparr>"
  have lt: "?n * ?sz < length ?p"
    using sent by (auto simp: sendBlock1_def Let_def up [symmetric] not_le [symmetric] split: if_splits)
  have sl: "take (if length ?p - ?n * ?sz > ?sz then ?sz else length ?p - ?n * ?sz) (drop (?n * ?sz) ?p) =
      slice ?p ?sz ?n" by (simp add: slice_def)
  have mo: "(?sz < length ?p - ?n * ?sz) = (?n * ?sz + ?sz < length ?p)" using lt by linarith
  let ?v = "toOptionValue (up_nextNum up) (?sz < length ?p - ?n * ?sz) (up_szx up)"
  obtain j where j: "snd (addOptionUint cfg Opt_Block1 ?v
      (snd (addOptionUint cfg Opt_ContentFormat (ucast (up_contentFormat up)) ?m2))) =
    (request_of True ?mid ?tok (up_method up) (block1_options (up_path up) (up_contentFormat up) ?v) None)
      \<lparr>msg_lastOptionNumber := j\<rparr>"
    using block1_built [OF k path(2) refl] by metis
  have "setPayload (Some (slice ?p ?sz ?n)) (snd (addOptionUint cfg Opt_Block1 ?v
      (snd (addOptionUint cfg Opt_ContentFormat (ucast (up_contentFormat up)) ?m2)))) =
    m\<lparr>msg_lastOptionNumber := j\<rparr>"
    unfolding j m block1_message_def Let_def by (simp add: setPayload_def request_of_def mo)
  then have e: "encode (setPayload (Some (slice ?p ?sz ?n)) (snd (addOptionUint cfg Opt_Block1 ?v
      (snd (addOptionUint cfg Opt_ContentFormat (ucast (up_contentFormat up)) ?m2))))) (max_msg_size cfg) =
      encode m (max_msg_size cfg)"
    by (simp add: encode_last_option)
  have id: "msg_messageId m = ?mid" "msg_token m = [?tok]"
    by (simp_all add: m block1_message_def request_of_def Let_def)
  obtain ok c2 where s: "cl_send (up_server up) (encode m (max_msg_size cfg)) (c\<lparr>cl_nextMessageId := ?mid + 1\<rparr>) = (ok, c2)"
    by fastforce
  have c2: "c2 = snd (cl_send (up_server up) (encode m (max_msg_size cfg)) (c\<lparr>cl_nextMessageId := ?mid + 1\<rparr>))"
    by (simp add: s)
  have eq: "sendBlock1 cfg slot c =
    (if encode m (max_msg_size cfg) = [] then (False, c\<lparr>cl_nextMessageId := ?mid + 1\<rparr>)
     else if \<not> ok then (False, c2)
     else (True, upd_upload slot (\<lambda>u. u\<lparr>up_waitingForContinue := True\<rparr>)
                  (cl_track cfg (up_server up) ?mid [?tok] (encode m (max_msg_size cfg)) c2)))"
    using lt unfolding sendBlock1_def Let_def up [symmetric] add prod.case sl e
    by (simp add: s not_le)
  show "?n * ?sz < length ?p" by (rule lt)
  show ne: "encode m (max_msg_size cfg) \<noteq> []" using sent eq by auto
  have c': "c' = upd_upload slot (\<lambda>u. u\<lparr>up_waitingForContinue := True\<rparr>)
                  (cl_track cfg (up_server up) ?mid [?tok] (encode m (max_msg_size cfg)) c2)"
    using sent eq ne by (auto split: if_splits)
  show "tp_sent (cl_transport c') = tp_sent (cl_transport c) @ [(up_server up, encode m (max_msg_size cfg))]"
    "cl_uploads c' = (cl_uploads c)[slot := up\<lparr>up_waitingForContinue := True\<rparr>]"
    "cl_pending c' = cl_pending c"
    by (simp_all add: c' c2 frame_simps up)
  show "cl_pool c' = snd (tx_start cfg (up_server up) (msg_messageId m) (msg_token m)
      (encode m (max_msg_size cfg)) (cl_lastNowMs c) (cl_pool c))"
    by (simp add: c' c2 frame_simps cl_track_def id cl_send_def split_def Let_def)
qed

lemma block1_message_wf:
  assumes "valid_config cfg" "short_path path" "length (segments path) + 2 \<le> max_options cfg"
    and "n * unat (shift_size szx) < length payload" "szx \<le> 6"
  shows "wf_message cfg (block1_message mid tok meth path fmt payload szx n)"
proof -
  have "szx \<le> 7" using assms(5) by (rule order_trans) simp
  then have "0 < unat (shift_size szx)" by (simp only: unat_shift_size) simp
  with assms(4) have "slice payload (unat (shift_size szx)) n \<noteq> []" by (simp add: slice_def)
  moreover have "list_all wf_option (map uri_option (segments path))"
    using assms(2) segments_ok by (auto simp: list_all_iff short_path_def intro!: wf_uri_option)
  ultimately show ?thesis
    using assms(1,3) by (simp add: wf_message_def block1_message_def request_of_def block1_options_def
        Let_def wf_uint_option valid_config_def)
qed

text \<open>What a server reads from such a message.\<close>

lemma block1_message_fields:
  assumes "n < 2 ^ 20" "szx \<le> 6"
  shows "findOption Opt_Block1 (block1_message mid tok meth path fmt payload szx n) =
      Some (uint_option Opt_Block1 (toOptionValue (of_nat n)
        (n * unat (shift_size szx) + unat (shift_size szx) < length payload) szx))"
    and "fromOption (uint_option Opt_Block1 (toOptionValue (of_nat n) hasMore szx)) =
      Some \<lparr>blk_num = of_nat n, blk_m = hasMore, blk_szx = szx\<rparr>"
    and "payload_bytes (block1_message mid tok meth path fmt payload szx n) =
      slice payload (unat (shift_size szx)) n"
    and "msg_token (block1_message mid tok meth path fmt payload szx n) = [tok]"
proof -
  let ?u = "map uri_option (segments path) @ [uint_option Opt_ContentFormat (ucast fmt)]"
  show "findOption Opt_Block1 (block1_message mid tok meth path fmt payload szx n) =
      Some (uint_option Opt_Block1 (toOptionValue (of_nat n)
        (n * unat (shift_size szx) + unat (shift_size szx) < length payload) szx))"
    by (rule findOption_Some [where xs = ?u and ys = "[]"])
      (auto simp: block1_message_def request_of_def block1_options_def Let_def uri_option_def opt_defs)
  have "unat (of_nat n :: u32) = n" using assms(1) by (simp add: unat_of_nat)
  moreover have "szx \<le> 7" using assms(2) by (rule order_trans) simp
  ultimately show "fromOption (uint_option Opt_Block1 (toOptionValue (of_nat n) hasMore szx)) =
      Some \<lparr>blk_num = of_nat n, blk_m = hasMore, blk_szx = szx\<rparr>"
    using assms(1) by (intro fromOption_uint_option) simp_all
qed (simp_all add: block1_message_def request_of_def payload_bytes_def Let_def)

section \<open>Cancelling an observation\<close>

lemma cancelObserve_found:
  assumes "first_slot (observing_match server path) (cl_pending c) = Some i"
  shows "cancelObserve cfg server path c =
    sendRequest cfg server path Code_Get None CF_TextPlain True False True
      (pd_onResponse (cl_pending c ! i)) (pd_userContext (cl_pending c ! i)) False
      (upd_pending i release_pending c)"
  using assms by (simp add: cancelObserve_def Let_def)

lemma cancelObserve_success:
  assumes ok: "cancelObserve cfg server path c = (True, c')" "valid_config cfg" "short_path path"
    and m: "m = sent_request cfg path Code_Get None CF_TextPlain True False True c"
  shows "tp_sent (cl_transport c') = tp_sent (cl_transport c) @ [(server, encode m (max_msg_size cfg))]"
    and "decode cfg (encode m (max_msg_size cfg)) = Decoded m"
    and "msg_token m = [cl_nextTokenByte c]" "msg_code m = Code_Get"
    and "findOption Opt_Observe m = Some (uint_option Opt_Observe kObserveDeregister)"
    and "occupancy pd_active (cl_pending c') = occupancy pd_active (cl_pending c)"
proof -
  obtain i where i: "first_slot (observing_match server path) (cl_pending c) = Some i"
    using ok(1) by (cases "first_slot (observing_match server path) (cl_pending c)")
      (auto simp: cancelObserve_def)
  let ?c = "upd_pending i release_pending c"
  have m': "m = sent_request cfg path Code_Get None CF_TextPlain True False True ?c"
    by (simp add: m sent_request_def upd_pending_def)
  obtain slot where slot: "slot < length (cl_pending ?c)" "\<not> pd_active (cl_pending ?c ! slot)"
    "encode m (max_msg_size cfg) \<noteq> []" "wf_message cfg m"
    "cl_transport c' = snd (transport_send server (encode m (max_msg_size cfg)) (cl_transport ?c))"
    "cl_pending c' = (cl_pending ?c)[slot := pending_entry server (cl_nextTokenByte ?c)
       (pd_onResponse (cl_pending c ! i)) (pd_userContext (cl_pending c ! i)) False (stored_path cfg path)]"
    by (rule sendRequest_success [OF ok(1) [unfolded cancelObserve_found [OF i]] ok(2,3) m'])
  show "tp_sent (cl_transport c') = tp_sent (cl_transport c) @ [(server, encode m (max_msg_size cfg))]"
    by (simp add: slot(5) frame_simps)
  show "decode cfg (encode m (max_msg_size cfg)) = Decoded m"
    using decode_wire [OF slot(4)] ok(2) encode_eq_wire [OF slot(3)]
    by (simp add: valid_config_def m sent_request_def request_of_def)
  show "msg_token m = [cl_nextTokenByte c]" "msg_code m = Code_Get"
    by (simp_all add: m sent_request_def request_of_def)
  show "findOption Opt_Observe m = Some (uint_option Opt_Observe kObserveDeregister)"
    by (rule findOption_Some [where xs = "[]" and ys = "map uri_option (segments path)"])
      (simp_all add: m sent_request_def request_of_def request_options_def observe_options_def)
  have "i < length (cl_pending c)" "pd_active (cl_pending c ! i)"
    using first_slot_SomeD [OF i] by (simp_all add: observing_match_def)
  from pending_table.release_occupancy [OF this]
  have "Suc (occupancy pd_active (cl_pending ?c)) = occupancy pd_active (cl_pending c)"
    by (simp add: frame_simps)
  moreover have "occupancy pd_active (cl_pending c') = Suc (occupancy pd_active (cl_pending ?c))"
    unfolding slot(6) using occupancy_update [OF slot(1), of pd_active] slot(2)
    by (simp add: pending_entry_def)
  ultimately show "occupancy pd_active (cl_pending c') = occupancy pd_active (cl_pending c)" by simp
qed

end
