(* ===== verification/Coap_Client_Response.thy ===== *)
theory Coap_Client_Response
  imports Coap_Client_Inv
begin

text \<open>
  What the client makes of the answers: the dispatch of a response to its slot, bodies that
  arrive in blocks, polls with nothing to do, and the discover timer.
\<close>

section \<open>Dispatch of a response\<close>

definition acked :: "config \<Rightarrow> message \<Rightarrow> endpoint \<Rightarrow> 'c client_scheme \<Rightarrow> 'c client_scheme" where
  "acked cfg m from c =
     (if msg_type m = Confirmable
      then snd (cl_send from (wire (reset_message\<lparr>msg_type := Acknowledgement, msg_code := Code_Empty,
                                                  msg_messageId := msg_messageId m\<rparr>)) c)
      else c)"

lemma acked_frame [frame_simps]:
  "cl_pool (acked cfg m to c) = cl_pool c" "cl_pending (acked cfg m to c) = cl_pending c"
  "cl_discovers (acked cfg m to c) = cl_discovers c" "cl_onTimeout (acked cfg m to c) = cl_onTimeout c"
  "cl_uploads (acked cfg m to c) = cl_uploads c" "cl_recvs (acked cfg m to c) = cl_recvs c"
  by (simp_all add: acked_def frame_simps)

lemma empty_ack_encodes:
  assumes "4 \<le> cap"
  shows "encode (reset_message\<lparr>msg_type := Acknowledgement, msg_code := Code_Empty, msg_messageId := mid\<rparr>) cap =
      wire (reset_message\<lparr>msg_type := Acknowledgement, msg_code := Code_Empty, msg_messageId := mid\<rparr>)"
    "wire (reset_message\<lparr>msg_type := Acknowledgement, msg_code := Code_Empty, msg_messageId := mid\<rparr>) \<noteq> []"
  using assms
  by (simp_all add: encode_wire_gen reset_message_def wire_def wire_header_def wire_payload_def)

lemma handle_response_acked:
  assumes "4 \<le> max_msg_size cfg"
  shows "handle_response cfg env m from c =
    (let c1 = acked cfg m from c
     in case first_slot (discover_matches (msg_token m)) (cl_discovers c) of
          Some i \<Rightarrow>
            (case ds_onDiscover (cl_discovers c ! i) of
               None \<Rightarrow> c1
             | Some h \<Rightarrow> ce_discover env h from (msg_payload m) (ds_userContext (cl_discovers c ! i)) c1)
        | None \<Rightarrow>
            (case findPendingByToken (msg_token m) c of
               None \<Rightarrow> c1
             | Some slot \<Rightarrow> dispatch_pending cfg env slot m from c1))"
proof -
  have f: "findPendingByToken (msg_token m) (acked cfg m from c) = findPendingByToken (msg_token m) c"
    by (simp add: findPendingByToken_def frame_simps)
  have a: "(if msg_type m = Confirmable \<and>
        encode (reset_message\<lparr>msg_type := Acknowledgement, msg_code := Code_Empty,
          msg_messageId := msg_messageId m\<rparr>) (max_msg_size cfg) \<noteq> []
      then snd (cl_send from (encode (reset_message\<lparr>msg_type := Acknowledgement, msg_code := Code_Empty,
          msg_messageId := msg_messageId m\<rparr>) (max_msg_size cfg)) c) else c) = acked cfg m from c"
    by (simp add: acked_def empty_ack_encodes [OF assms])
  show ?thesis
    unfolding handle_response_def a Let_def frame_simps f ..
qed

definition plain_response :: "config \<Rightarrow> nat \<Rightarrow> message \<Rightarrow> 'c client_scheme \<Rightarrow> bool" where
  "plain_response cfg slot m c \<longleftrightarrow>
     \<not> enable_blockwise cfg \<or> \<not> up_active (cl_uploads c ! slot) \<and> findOption Opt_Block2 m = None"

lemma stop_idle_upload: "\<not> up_active (cl_uploads c ! slot) \<Longrightarrow> upd_upload slot (\<lambda>u. u\<lparr>up_active := False\<rparr>) c = c"
proof -
  assume "\<not> up_active (cl_uploads c ! slot)"
  then have "(cl_uploads c ! slot)\<lparr>up_active := False\<rparr> = cl_uploads c ! slot" by simp
  then show ?thesis by (simp add: upd_upload_def)
qed

lemma dispatch_plain:
  "plain_response cfg slot m c \<Longrightarrow> dispatch_pending cfg env slot m from c = deliver_response env slot m c"
  by (auto simp: plain_response_def dispatch_pending_def stop_idle_upload Let_def)

section \<open>A body in blocks, received\<close>

definition block2_of :: "message \<Rightarrow> block_option option" where
  "block2_of m = (case findOption Opt_Block2 m of None \<Rightarrow> None | Some opt \<Rightarrow> fromOption opt)"

definition is_block2 :: "nat \<Rightarrow> bool \<Rightarrow> message \<Rightarrow> bool" where
  "is_block2 n hasMore m \<longleftrightarrow>
     (case block2_of m of None \<Rightarrow> False | Some b \<Rightarrow> blk_num b = of_nat n \<and> blk_m b = hasMore)"

fun blocks2_in_order :: "nat \<Rightarrow> message list \<Rightarrow> bool" where
  "blocks2_in_order n [] \<longleftrightarrow> True"
| "blocks2_in_order n (m # ms) \<longleftrightarrow> is_block2 n True m \<and> blocks2_in_order (Suc n) ms"

text \<open>The responses for one slot, one after the other.\<close>

definition client_feed ::
    "config \<Rightarrow> 'c client_env \<Rightarrow> nat \<Rightarrow> endpoint \<Rightarrow> message list \<Rightarrow> 'c client_scheme \<Rightarrow> 'c client_scheme" where
  "client_feed cfg env slot from = fold (\<lambda>m. dispatch_pending cfg env slot m from)"

text \<open>What the slot has received: nothing before the first block.\<close>

definition received :: "nat \<Rightarrow> nat \<Rightarrow> bytes \<Rightarrow> u16 \<Rightarrow> 'c client_scheme \<Rightarrow> bool" where
  "received slot n buf fmt c \<longleftrightarrow> slot < length (cl_recvs c) \<and>
     (let r = cl_recvs c ! slot
      in if rv_active r then rv_nextNum r = of_nat n \<and> rv_buffer r = buf \<and> rv_contentFormat r = fmt
         else n = 0 \<and> buf = [])"

lemma received_cong: "cl_recvs c' = cl_recvs c \<Longrightarrow> received slot n buf fmt c' = received slot n buf fmt c"
  by (simp add: received_def)

lemma sendBlock2Request_frame [frame_simps]:
  "cl_pending (snd (sendBlock2Request cfg slot c)) = cl_pending c"
  "cl_discovers (snd (sendBlock2Request cfg slot c)) = cl_discovers c"
  "cl_onTimeout (snd (sendBlock2Request cfg slot c)) = cl_onTimeout c"
  "cl_uploads (snd (sendBlock2Request cfg slot c)) = cl_uploads c"
  "cl_recvs (snd (sendBlock2Request cfg slot c)) = cl_recvs c"
  by (simp_all add: sendBlock2Request_def Let_def split_def frame_simps)

lemma absorb_step:
  assumes "received slot n buf fmt c" "block2_of m = Some b" "blk_num b = of_nat n"
    and "length buf + length (payload_bytes m) \<le> block2_max_body cfg" "response_format m = fmt"
  shows "received slot (Suc n) (buf @ payload_bytes m) fmt (upd_recv slot (absorb_block cfg m b \<circ> open_recv m from b) c)"
    and "rv_buffer ((absorb_block cfg m b \<circ> open_recv m from b) (cl_recvs c ! slot)) = buf @ payload_bytes m"
    and "rv_contentFormat ((absorb_block cfg m b \<circ> open_recv m from b) (cl_recvs c ! slot)) = fmt"
  using assms
  by (auto simp: received_def Let_def frame_simps absorb_block_def open_recv_def payload_bytes_def
      add.commute [of _ 1] split: if_splits)

lemma dispatch_block2:
  assumes "enable_blockwise cfg" "\<not> up_active (cl_uploads c ! slot)" "block2_of m = Some b"
  shows "dispatch_pending cfg env slot m from c = handle_block2 cfg env slot m from b c"
  using assms by (simp add: dispatch_pending_def stop_idle_upload block2_of_def)

text \<open>Blocks before the last run no callback: the new state is the same for every environment.\<close>

lemma client_feed_more:
  assumes "enable_blockwise cfg" "\<not> up_active (cl_uploads c ! slot)"
    and "blocks2_in_order n ms" "received slot n buf fmt c"
    and "length buf + length (body_of ms) \<le> block2_max_body cfg"
    and "\<forall>m \<in> set ms. response_format m = fmt"
  shows "\<exists>c1. (\<forall>env. client_feed cfg env slot from ms c = c1) \<and>
    received slot (n + length ms) (buf @ body_of ms) fmt c1 \<and> cl_pending c1 = cl_pending c \<and>
    cl_uploads c1 = cl_uploads c \<and> cl_discovers c1 = cl_discovers c \<and> cl_onTimeout c1 = cl_onTimeout c"
  using assms(2-6)
proof (induction ms arbitrary: n buf c)
  case Nil
  then show ?case by (auto simp: client_feed_def)
next
  case (Cons m ms)
  from Cons.prems(2) obtain b where b: "block2_of m = Some b" "blk_num b = of_nat n" "blk_m b"
    by (auto simp: is_block2_def split: option.splits)
  let ?c = "snd (sendBlock2Request cfg slot (upd_recv slot (absorb_block cfg m b \<circ> open_recv m from b) c))"
  have step: "dispatch_pending cfg env slot m from c = ?c" for env
    using dispatch_block2 [OF assms(1) Cons.prems(1) b(1)] b(3) by (simp add: handle_block2_def)
  have "received slot (Suc n) (buf @ payload_bytes m) fmt ?c"
    using absorb_step(1) [OF Cons.prems(3) b(1,2), of cfg "from"] Cons.prems(4,5)
    by (subst received_cong) (rule sendBlock2Request_frame(5), simp)
  moreover have "\<not> up_active (cl_uploads ?c ! slot)" "blocks2_in_order (Suc n) ms"
    using Cons.prems(1,2) by (simp_all add: frame_simps)
  moreover have "length (buf @ payload_bytes m) + length (body_of ms) \<le> block2_max_body cfg"
    using Cons.prems(4) by simp
  ultimately have "\<exists>c1. (\<forall>env. client_feed cfg env slot from ms ?c = c1) \<and>
    received slot (Suc n + length ms) ((buf @ payload_bytes m) @ body_of ms) fmt c1 \<and> cl_pending c1 = cl_pending ?c \<and>
    cl_uploads c1 = cl_uploads ?c \<and> cl_discovers c1 = cl_discovers ?c \<and> cl_onTimeout c1 = cl_onTimeout ?c"
    using Cons.prems(5) by (intro Cons.IH) simp_all
  then show ?case by (simp add: client_feed_def step frame_simps)
qed

text \<open>The last block calls the callback, with everything the slot has received.\<close>

lemma client_feed_last:
  assumes "enable_blockwise cfg" "\<not> up_active (cl_uploads c ! slot)"
    and "is_block2 n False m" "received slot n buf fmt c" "response_format m = fmt"
    and "length buf + length (payload_bytes m) \<le> block2_max_body cfg"
    and "pd_onResponse (cl_pending c ! slot) = Some h"
  shows "\<exists>c1. (\<forall>env. dispatch_pending cfg env slot m from c =
      finish_slot slot (upd_recv slot (\<lambda>r. r\<lparr>rv_active := False\<rparr>)
        (ce_response env h \<lparr>cr_code = msg_code m, cr_payload = Some (buf @ payload_bytes m),
           cr_contentFormat = fmt\<rparr> (pd_userContext (cl_pending c ! slot)) c1))) \<and>
    cl_pending c1 = cl_pending c \<and> cl_discovers c1 = cl_discovers c \<and> cl_onTimeout c1 = cl_onTimeout c"
proof -
  from assms(3) obtain b where b: "block2_of m = Some b" "blk_num b = of_nat n" "\<not> blk_m b"
    by (auto simp: is_block2_def split: option.splits)
  let ?c = "upd_recv slot (absorb_block cfg m b \<circ> open_recv m from b) c"
  have l: "slot < length (cl_recvs c)" using assms(4) by (simp add: received_def)
  have "rv_buffer (cl_recvs ?c ! slot) = buf @ payload_bytes m" "rv_contentFormat (cl_recvs ?c ! slot) = fmt"
    using absorb_step(2,3) [OF assms(4) b(1,2) assms(6,5), of "from"] l by (simp_all add: frame_simps)
  then have "dispatch_pending cfg env slot m from c =
      finish_slot slot (upd_recv slot (\<lambda>r. r\<lparr>rv_active := False\<rparr>)
        (ce_response env h \<lparr>cr_code = msg_code m, cr_payload = Some (buf @ payload_bytes m),
           cr_contentFormat = fmt\<rparr> (pd_userContext (cl_pending c ! slot)) ?c))" for env
    using dispatch_block2 [OF assms(1,2) b(1)] b(3) assms(7)
    by (simp add: handle_block2_def Let_def fire_response_def frame_simps)
  then show ?thesis by (intro exI [of _ ?c] conjI allI) (auto simp: frame_simps)
qed

lemma client_download:
  assumes "enable_blockwise cfg" "\<not> up_active (cl_uploads c ! slot)" "slot < length (cl_recvs c)"
    and "\<not> rv_active (cl_recvs c ! slot)"
    and "blocks2_in_order 0 ms" "is_block2 (length ms) False m"
    and "\<forall>m' \<in> set (ms @ [m]). response_format m' = fmt"
    and "length (body_of (ms @ [m])) \<le> block2_max_body cfg"
    and "pd_onResponse (cl_pending c ! slot) = Some h"
  shows "\<exists>c1. (\<forall>env. client_feed cfg env slot from (ms @ [m]) c =
      finish_slot slot (upd_recv slot (\<lambda>r. r\<lparr>rv_active := False\<rparr>)
        (ce_response env h \<lparr>cr_code = msg_code m, cr_payload = Some (body_of (ms @ [m])),
           cr_contentFormat = fmt\<rparr> (pd_userContext (cl_pending c ! slot)) c1))) \<and>
    cl_pending c1 = cl_pending c \<and> cl_discovers c1 = cl_discovers c \<and> cl_onTimeout c1 = cl_onTimeout c"
proof -
  have r0: "received slot 0 [] fmt c" using assms(3,4) by (simp add: received_def)
  from client_feed_more [OF assms(1,2,5) r0, of "from"] assms(7,8) obtain c1 where
    c1: "\<forall>env. client_feed cfg env slot from ms c = c1" "received slot (length ms) (body_of ms) fmt c1"
      "cl_pending c1 = cl_pending c" "cl_uploads c1 = cl_uploads c" "cl_discovers c1 = cl_discovers c"
      "cl_onTimeout c1 = cl_onTimeout c" by auto
  have "client_feed cfg env slot from (ms @ [m]) c = dispatch_pending cfg env slot m from c1" for env
    using c1(1) by (simp add: client_feed_def)
  moreover have "\<not> up_active (cl_uploads c1 ! slot)" using assms(2) c1(4) by simp
  note client_feed_last [OF assms(1) this assms(6) c1(2), of h "from"]
  ultimately show ?thesis using assms(7-9) c1 by simp
qed

section \<open>Polls with nothing to do\<close>

lemma tick_idle:
  assumes "list_all (\<lambda>t. \<not> in_flight t) (get s)"
  shows "tx_tick cfg get put_pool resend onTimeout now s = s"
  unfolding tx_tick_def
proof (rule fold_inv [where P = "\<lambda>s'. s' = s"])
  fix i s' assume "i \<in> set [0..<length (get s)]" "s' = s"
  then have "\<not> in_flight (get s ! i)" using assms by (simp add: list_all_length)
  then show "tick_slot cfg get put_pool resend onTimeout now i s' = s"
    using \<open>s' = s\<close> by (simp add: tick_slot_tick_tx tick_tx_def)
qed simp

definition no_traffic :: "'c client_scheme \<Rightarrow> bool" where
  "no_traffic c \<longleftrightarrow> tp_inbox (cl_transport c) = [] \<and> list_all (\<lambda>t. \<not> in_flight t) (cl_pool c)"

lemma client_poll_idle:
  assumes "no_traffic c"
  shows "client_poll cfg env now c = Some (expire_discovers cfg now (c\<lparr>cl_lastNowMs := now\<rparr>))"
proof -
  have "transport_receive (max_msg_size cfg) (cl_transport c) = ((empty_endpoint, []), cl_transport c)"
    using assms by (simp add: transport_receive_def no_traffic_def)
  moreover have "list_all (\<lambda>t. \<not> in_flight t) (cl_pool (expire_discovers cfg now (c\<lparr>cl_lastNowMs := now\<rparr>)))"
    using assms by (simp add: no_traffic_def expire_discovers_def)
  from tick_idle [where get = cl_pool, OF this]
  have "poll_timers cfg env now (c\<lparr>cl_lastNowMs := now\<rparr>) = expire_discovers cfg now (c\<lparr>cl_lastNowMs := now\<rparr>)"
    by (simp add: poll_timers_def)
  ultimately show ?thesis by (simp add: client_poll_def)
qed

fun polls :: "config \<Rightarrow> 'c client_env \<Rightarrow> u32 list \<Rightarrow> 'c client_scheme \<Rightarrow> 'c client_scheme option" where
  "polls cfg env [] c = Some c"
| "polls cfg env (now # ts) c =
     (case client_poll cfg env now c of None \<Rightarrow> None | Some c' \<Rightarrow> polls cfg env ts c')"

lemma polls_idle:
  assumes "no_traffic c"
  shows "\<exists>c'. polls cfg env ts c = Some c' \<and> no_traffic c' \<and> cl_pending c' = cl_pending c"
  using assms
proof (induction ts arbitrary: c)
  case Nil
  then show ?case by simp
next
  case (Cons now ts)
  let ?c = "expire_discovers cfg now (c\<lparr>cl_lastNowMs := now\<rparr>)"
  have "no_traffic ?c" using Cons.prems by (simp add: no_traffic_def expire_discovers_def)
  from Cons.IH [OF this] show ?case
    by (simp add: client_poll_idle [OF Cons.prems] expire_discovers_def)
qed

lemma full_table_refuses:
  assumes "list_all pd_active (cl_pending c)"
  shows "sendRequest cfg server path meth payload fmt con reg dereg h ctx mark c = (False, c)"
proof -
  have "first_slot (\<lambda>p. \<not> pd_active p) (cl_pending c) = None"
    using assms by (simp add: first_slot_None_iff list_all_iff)
  then show ?thesis by (simp add: sendRequest_def allocatePending_def claim_slot_def)
qed

section \<open>The discover timer\<close>

lemma expired_time:
  assumes "ds_issuedAt d = of_nat T" "n < T + 2 ^ 32" "T \<le> n"
  shows "expired cfg (of_nat n) d \<longleftrightarrow> ds_active d \<and> T + unat (discover_timeout_ms cfg) \<le> n"
proof -
  have "(of_nat n :: u32) - of_nat T = of_nat (n - T)" using assms(3) by (simp add: of_nat_diff)
  moreover have "unat (of_nat (n - T) :: u32) = n - T"
    using assms(2,3) by (simp only: unat_of_nat) simp
  ultimately have "unat ((of_nat n :: u32) - of_nat T) = n - T" by simp
  then show ?thesis using assms(1,3) by (auto simp: expired_def word_le_nat_alt)
qed

end
