(* ===== verification/Coap_Client_Upload.thy ===== *)
theory Coap_Client_Upload
  imports Coap_Client
begin

text \<open>
  The rounds of a block-wise upload, one per 2.31 Continue: each sends the block after the
  last one or ends the upload, so there are no more rounds than blocks.
\<close>

section \<open>An upload ends\<close>

text \<open>
  One 2.31 after another, for as long as each brings another block out; \<open>None\<close> once one of
  them does not.
\<close>

definition next_block :: "nat \<Rightarrow> 'c client_scheme \<Rightarrow> 'c client_scheme" where
  "next_block slot = upd_upload slot (\<lambda>u. u\<lparr>up_nextNum := up_nextNum u + 1, up_waitingForContinue := False\<rparr>)"

primrec continued :: "config \<Rightarrow> nat \<Rightarrow> nat \<Rightarrow> 'c client_scheme \<Rightarrow> 'c client_scheme option" where
  "continued cfg slot 0 c = Some c"
| "continued cfg slot (Suc n) c =
     (if fst (sendBlock1 cfg slot (next_block slot c))
      then continued cfg slot n (snd (sendBlock1 cfg slot (next_block slot c))) else None)"

lemma continue_upload_next:
  "continue_upload cfg env slot c =
     (if fst (sendBlock1 cfg slot (next_block slot c)) then snd (sendBlock1 cfg slot (next_block slot c))
      else let c2 = snd (sendBlock1 cfg slot (next_block slot c))
           in fire_timeout env (pd_userContext (cl_pending c2 ! slot))
                (upd_pending slot release_pending (upd_upload slot (\<lambda>u. u\<lparr>up_active := False\<rparr>) c2)))"
  by (simp add: continue_upload_def next_block_def split_beta Let_def)

lemma continue_upload_ends:
  "sendBlock1 cfg slot (next_block slot c) = (False, c2) \<Longrightarrow>
   continue_upload cfg env slot c = fire_timeout env (pd_userContext (cl_pending c2 ! slot))
     (upd_pending slot release_pending (upd_upload slot (\<lambda>u. u\<lparr>up_active := False\<rparr>) c2))"
  by (simp add: continue_upload_next)

lemma sendBlock1_progress:
  assumes "sendBlock1 cfg slot c = (True, c')"
  shows "unat (up_nextNum (cl_uploads c ! slot)) * unat (shift_size (up_szx (cl_uploads c ! slot))) <
      length (up_fullPayload (cl_uploads c ! slot))"
    and "cl_uploads c' = (cl_uploads c)[slot := (cl_uploads c ! slot)\<lparr>up_waitingForContinue := True\<rparr>]"
  using assms
  by (auto simp: sendBlock1_def cl_send_def cl_track_def upd_upload_def Let_def split: prod.splits if_splits)

lemma continued_progress:
  assumes "continued cfg slot n c = Some c'" "slot < length (cl_uploads c)" "up = cl_uploads c ! slot"
    and "unat (up_nextNum up) + n < 2 ^ 32" "0 < n"
  shows "(unat (up_nextNum up) + n) * unat (shift_size (up_szx up)) < length (up_fullPayload up)"
  using assms
proof (induction n arbitrary: c up)
  case (Suc n)
  let ?c1 = "next_block slot c"
  obtain c2 where s: "sendBlock1 cfg slot ?c1 = (True, c2)" and rest: "continued cfg slot n c2 = Some c'"
    using Suc.prems(1) by (cases "sendBlock1 cfg slot ?c1") (auto split: if_splits)
  have one: "unat (up_nextNum up + 1) = unat (up_nextNum up) + 1"
    using Suc.prems(4) by (simp add: unat_word_ariths)
  have up1: "cl_uploads ?c1 ! slot = up\<lparr>up_nextNum := up_nextNum up + 1, up_waitingForContinue := False\<rparr>"
      "length (cl_uploads ?c1) = length (cl_uploads c)"
    using Suc.prems(2,3) by (simp_all add: next_block_def upd_upload_def)
  note p = sendBlock1_progress [OF s]
  show ?case
  proof (cases n)
    case 0
    with p(1) up1 one show ?thesis by simp
  next
    case (Suc m)
    have up2: "cl_uploads c2 ! slot = up\<lparr>up_nextNum := up_nextNum up + 1, up_waitingForContinue := True\<rparr>"
        "length (cl_uploads c2) = length (cl_uploads c)"
      using p(2) up1 Suc.prems(2) by simp_all
    from Suc.IH [OF rest] up2 one Suc.prems(2,4) Suc show ?thesis by simp
  qed
qed simp

lemma continued_None_mono: "continued cfg slot m c = None \<Longrightarrow> m \<le> n \<Longrightarrow> continued cfg slot n c = None"
proof (induction m arbitrary: n c)
  case (Suc m)
  then obtain k where "n = Suc k" "m \<le> k" by (cases n) auto
  with Suc show ?case by (auto split: if_splits)
qed simp

lemma continued_ends:
  "continued cfg slot n c = None \<Longrightarrow>
   \<exists>j c' c2. j < n \<and> continued cfg slot j c = Some c' \<and> sendBlock1 cfg slot (next_block slot c') = (False, c2)"
proof (induction n arbitrary: c)
  case (Suc n)
  obtain ok c1 where s: "sendBlock1 cfg slot (next_block slot c) = (ok, c1)" by fastforce
  show ?case
  proof (cases ok)
    case True
    with Suc.prems s have "continued cfg slot n c1 = None" by simp
    from Suc.IH [OF this] obtain j c' c2 where "j < n" "continued cfg slot j c1 = Some c'"
        "sendBlock1 cfg slot (next_block slot c') = (False, c2)" by blast
    with s True show ?thesis by (intro exI [of _ "Suc j"] exI [of _ c'] exI [of _ c2]) simp
  next
    case False
    with s show ?thesis by (intro exI [of _ 0] exI [of _ c] exI [of _ c1]) simp
  qed
qed simp

end
