(* ===== verification/Props_Client.thy ===== *)
theory Props_Client
  imports Coap_Client_Request Coap_Client_Response Coap_Client_Upload
begin

text \<open>
  The properties of the client. The concrete instances use a fresh client on an idle
  network that asks one server for \<^verbatim>\<open>/temp\<close>.
\<close>

definition quiet_network :: transport where
  "quiet_network = \<lparr>tp_begin_ok = True, tp_send_results = [], tp_sent = [], tp_inbox = []\<rparr>"

definition table_config :: "nat \<Rightarrow> config" where
  "table_config n = default_config\<lparr>max_transactions := n\<rparr>"

definition fresh_client :: "nat \<Rightarrow> client" where
  "fresh_client n = new_client (table_config n) quiet_network (reset_pool (table_config n))"

definition some_server :: endpoint where
  "some_server = empty_endpoint\<lparr>ep_ip := [10, 0, 0, 9], ep_port := 5683\<rparr>"

definition temp_uri :: bytes where
  "temp_uri = str ''/temp''"

definition silent_env :: "config \<Rightarrow> 'c client_env" where
  "silent_env cfg = scripted_env cfg (\<lambda>h res ctx. []) (\<lambda>h ctx. []) (\<lambda>h ep p ctx. [])"

definition get_message :: "bool \<Rightarrow> message" where
  "get_message con = request_of con 1 1 Code_Get (map uri_option [str ''temp'']) None"

lemma temp_uri_segments: "segments temp_uri = [str ''temp'']"
  by code_simp

lemma temp_uri_short: "short_path temp_uri"
  by (simp add: short_path_def temp_uri_segments str_def)

lemma table_config_valid: "n \<le> 255 \<Longrightarrow> valid_config (table_config n)"
  by (simp add: valid_config_def table_config_def default_config_def)

lemma table_config_simps [simp]:
  "max_msg_size (table_config n) = 256" "max_options (table_config n) = 16"
  "max_transactions (table_config n) = n" "enable_blockwise (table_config n) = False"
  by (simp_all add: table_config_def default_config_def)

lemma silent_ok: "callbacks_ok cfg (silent_env cfg)"
  by (simp add: silent_env_def scripted_callbacks_ok)

lemma fresh_client_inv: "client_inv (table_config n) (fresh_client n)"
  by (simp add: fresh_client_def new_client_inv wf_pool_reset)

lemma fresh_running: "client_running (table_config n) env (fresh_client n)"
  by (auto simp: client_running_def fresh_client_def)

lemma fresh_message:
  "sent_request (table_config n) temp_uri Code_Get None CF_TextPlain con False False (fresh_client n) =
     get_message con"
  by (simp add: sent_request_def get_message_def fresh_client_def new_client_def request_options_def
      observe_options_def request_payload_def temp_uri_segments)

lemma get_message_bytes:
  "encode (get_message True) 256 = [0x41, 0x01, 0x00, 0x01, 0x01, 0xB4, 0x74, 0x65, 0x6D, 0x70]"
  "encode (get_message False) 256 = [0x51, 0x01, 0x00, 0x01, 0x01, 0xB4, 0x74, 0x65, 0x6D, 0x70]"
  by code_simp+

lemma fresh_get:
  assumes "0 < n" "n \<le> 255"
  shows "client_get (table_config n) some_server temp_uri (Some 7) (Some 3) con (fresh_client n) =
    (True, snd (client_get (table_config n) some_server temp_uri (Some 7) (Some 3) con (fresh_client n)))"
proof -
  obtain k where n: "n = Suc k" using assms(1) by (cases n) auto
  obtain i c1 where a: "allocatePending (fresh_client n) = Some (i, c1)"
    by (simp add: allocatePending_def claim_slot_def fresh_client_def new_client_def n empty_pending_def)
  have tr: "cl_transport c1 = quiet_network"
    using a by (auto simp: allocatePending_def fresh_client_def new_client_def split: option.splits)
  have e: "encode (get_message con) 256 \<noteq> []"
    by (cases con) (simp_all add: get_message_bytes)
  have "fst (client_get (table_config n) some_server temp_uri (Some 7) (Some 3) con (fresh_client n))"
    using e by (simp add: client_get_def temp_uri_segments observe_options_def
        sendRequest_built [OF table_config_valid [OF assms(2)] temp_uri_short fresh_message [symmetric] a refl]
        cl_send_def transport_send_def tr quiet_network_def Let_def)
  then show ?thesis by (simp add: prod_eq_iff)
qed

section \<open>Properties\<close>



text \<open>
  C23: what a call that succeeds has done. One datagram has gone to the server; it decodes to
  the message with the type and method asked for, the client's next message ID and token,
  and a Uri-Path that joins to the canonical path; a Confirmable request is tracked with
  exactly those bytes; and one free slot now waits for that token with the callback and
  context of the caller. Nothing else of the tables changes.
\<close>

theorem request_on_wire:
  assumes "sendRequest cfg server path meth payload fmt con reg dereg h ctx mark c = (True, c')"
    and "valid_config cfg" "short_path path"
    and "m = sent_request cfg path meth payload fmt con reg dereg c"
  shows "tp_sent (cl_transport c') = tp_sent (cl_transport c) @ [(server, encode m (max_msg_size cfg))] \<and>
    decode cfg (encode m (max_msg_size cfg)) = Decoded m \<and>
    msg_type m = (if con then Confirmable else NonConfirmable) \<and> msg_code m = meth \<and>
    msg_messageId m = cl_nextMessageId c \<and> msg_token m = [cl_nextTokenByte c] \<and>
    (length (canonical_path path) < max_uri_path_len cfg \<longrightarrow>
       joinUriPath m (max_uri_path_len cfg) = Some (canonical_path path)) \<and>
    cl_pool c' = (if con then snd (tx_start cfg server (msg_messageId m) (msg_token m)
       (encode m (max_msg_size cfg)) (cl_lastNowMs c) (cl_pool c)) else cl_pool c) \<and>
    (\<exists>slot < length (cl_pending c). \<not> pd_active (cl_pending c ! slot) \<and>
       cl_pending c' = (cl_pending c)[slot := pending_entry server (cl_nextTokenByte c) h ctx mark
                                                (stored_path cfg path)])"
proof -
  obtain slot where s: "slot < length (cl_pending c)" "\<not> pd_active (cl_pending c ! slot)"
    "encode m (max_msg_size cfg) \<noteq> []" "wf_message cfg m"
    "cl_transport c' = snd (transport_send server (encode m (max_msg_size cfg)) (cl_transport c))"
    "cl_pending c' = (cl_pending c)[slot := pending_entry server (cl_nextTokenByte c) h ctx mark
                                             (stored_path cfg path)]"
    "cl_pool c' = (if con then snd (tx_start cfg server (msg_messageId m) (msg_token m)
       (encode m (max_msg_size cfg)) (cl_lastNowMs c) (cl_pool c)) else cl_pool c)"
    by (rule sendRequest_success [OF assms])
  have "joinUriPath m (max_uri_path_len cfg) = Some (canonical_path path)"
    if "length (canonical_path path) < max_uri_path_len cfg"
  proof -
    have u: "uri_segments m = segments path"
      by (simp add: assms(4) sent_request_def request_uri_segments [OF assms(3)])
    have w: "list_all wf_option (msg_options m)" "2 \<le> max_uri_path_len cfg"
      using s(4) assms(2) by (simp_all add: wf_message_def valid_config_def)
    show ?thesis
      using that unfolding joinUriPath_spec [OF w] u
      by (cases "segments path = []") (simp_all add: canonical_path_def, simp add: spell_def)
  qed
  moreover have "decode cfg (encode m (max_msg_size cfg)) = Decoded m"
    using decode_wire [OF s(4)] assms(2) encode_eq_wire [OF s(3)]
    by (simp add: valid_config_def assms(4) sent_request_def request_of_def)
  ultimately show ?thesis
    using s by (auto simp: assms(4)) (simp_all add: sent_request_def request_of_def)
qed

theorem request_on_wire_witness:
  "tp_sent (cl_transport (snd (client_get (table_config 4) some_server temp_uri (Some 7) (Some 3) True
     (fresh_client 4)))) =
   [(some_server, [0x41, 0x01, 0x00, 0x01, 0x01, 0xB4, 0x74, 0x65, 0x6D, 0x70])]"
proof -
  have "(0 :: nat) < 4" "(4 :: nat) \<le> 255" by simp_all
  note get = fresh_get [OF this, of True, unfolded client_get_def]
  show ?thesis
    using request_on_wire [OF get table_config_valid [OF \<open>(4 :: nat) \<le> 255\<close>] temp_uri_short
        fresh_message [symmetric]]
    by (simp add: client_get_def get_message_bytes)
      (simp add: fresh_client_def new_client_def quiet_network_def)
qed

text \<open>
  A call that fails leaves no trace in the tables: the pool, the discover slots, the
  block-wise states and every pending request are as they were, and no slot is used up.
\<close>

theorem request_failure_clean:
  assumes "sendRequest cfg server path meth payload fmt con reg dereg h ctx mark c = (False, c')"
  shows "cl_pool c' = cl_pool c \<and> cl_discovers c' = cl_discovers c \<and>
    cl_uploads c' = cl_uploads c \<and> cl_recvs c' = cl_recvs c \<and>
    (\<forall>i < length (cl_pending c). pd_active (cl_pending c ! i) \<longrightarrow> cl_pending c' ! i = cl_pending c ! i) \<and>
    occupancy pd_active (cl_pending c') = occupancy pd_active (cl_pending c)"
  using sendRequest_failure [OF assms] by blast

theorem request_failure_clean_witness:
  "occupancy pd_active (cl_pending (snd (sendRequest (table_config 0) some_server temp_uri Code_Get None
     CF_TextPlain True False False None None False (fresh_client 0)))) = 0"
proof -
  have "sendRequest (table_config 0) some_server temp_uri Code_Get None CF_TextPlain True False False
      None None False (fresh_client 0) = (False, fresh_client 0)"
    by (rule full_table_refuses) (simp add: fresh_client_def new_client_def)
  from request_failure_clean [OF this] this show ?thesis
    by (simp add: fresh_client_def new_client_def occupancy_def)
qed

text \<open>
  C27: a response is delivered to the first slot that waits for its token, once, with its
  code, payload and content format, and the slot is freed unless it observes; a response
  that nobody waits for is acknowledged when it is Confirmable and otherwise ignored.
\<close>

theorem response_delivery:
  assumes "valid_config cfg" "list_all (\<lambda>d. \<not> discover_matches (msg_token m) d) (cl_discovers c)"
  shows "(list_all (\<lambda>p. \<not> pending_matches (msg_token m) p) (cl_pending c) \<longrightarrow>
      handle_response cfg env m from c = acked cfg m from c) \<and>
    (slot < length (cl_pending c) \<and> pending_matches (msg_token m) (cl_pending c ! slot) \<and>
     (\<forall>j < slot. \<not> pending_matches (msg_token m) (cl_pending c ! j)) \<and>
     plain_response cfg slot m c \<and> pd_onResponse (cl_pending c ! slot) = Some h \<longrightarrow>
      handle_response cfg env m from c =
        (let c' = ce_response env h \<lparr>cr_code = msg_code m, cr_payload = msg_payload m,
                    cr_contentFormat = response_format m\<rparr>
                    (pd_userContext (cl_pending c ! slot)) (acked cfg m from c)
         in if pd_observing (cl_pending c' ! slot) then c' else upd_pending slot release_pending c'))"
proof -
  have d: "first_slot (discover_matches (msg_token m)) (cl_discovers c) = None"
    using assms(2) by (simp add: first_slot_None_iff list_all_iff)
  have "4 \<le> max_msg_size cfg" using assms(1) by (simp add: valid_config_def)
  note hr = handle_response_acked [OF this, of env m "from" c, unfolded d option.case Let_def]
  have "plain_response cfg slot m (acked cfg m from c) = plain_response cfg slot m c"
    by (simp add: plain_response_def frame_simps)
  moreover have "findPendingByToken (msg_token m) c = None"
    if "list_all (\<lambda>p. \<not> pending_matches (msg_token m) p) (cl_pending c)"
    using that by (simp add: findPendingByToken_def first_slot_None_iff list_all_iff)
  moreover have "findPendingByToken (msg_token m) c = Some slot"
    if "slot < length (cl_pending c)" "pending_matches (msg_token m) (cl_pending c ! slot)"
      "\<forall>j < slot. \<not> pending_matches (msg_token m) (cl_pending c ! j)"
    using that by (auto simp: findPendingByToken_def intro: first_slot_unique)
  ultimately show ?thesis
    by (auto simp: hr dispatch_plain deliver_response_def fire_response_def finish_slot_def frame_simps Let_def)
qed

definition content_21 :: message where
  "content_21 = reset_message\<lparr>msg_type := Acknowledgement, msg_code := Code_Content, msg_messageId := 1,
     msg_token := [1], msg_payload := Some [0x32, 0x31]\<rparr>"

theorem response_delivery_witness:
  "handle_response (table_config 4) (silent_env (table_config 4)) content_21 some_server (fresh_client 4) =
   fresh_client 4"
proof -
  have v: "valid_config (table_config 4)" by (rule table_config_valid) simp
  have d: "list_all (\<lambda>d. \<not> discover_matches (msg_token content_21) d) (cl_discovers (fresh_client 4))"
    by (simp add: fresh_client_def new_client_def empty_discover_def discover_matches_def list_all_iff)
  have p: "list_all (\<lambda>p. \<not> pending_matches (msg_token content_21) p) (cl_pending (fresh_client 4))"
    by (simp add: fresh_client_def new_client_def empty_pending_def pending_matches_def list_all_iff)
  have "acked (table_config 4) content_21 some_server (fresh_client 4) = fresh_client 4"
    by (simp add: acked_def content_21_def)
  with response_delivery [OF v d] p show ?thesis by simp
qed

text \<open>
  A Non-confirmable request that is never answered keeps its slot for ever. When such a
  request takes the last free slot and no datagram arrives, then after any number of polls
  at any times every further request is refused.
\<close>

theorem unanswered_requests_block:
  assumes "client_get cfg server path h ctx False c = (True, c1)"
    and "valid_config cfg" "short_path path" "no_traffic c"
    and "Suc (occupancy pd_active (cl_pending c)) = length (cl_pending c)"
  shows "\<exists>c2. polls cfg env ts c1 = Some c2 \<and>
    client_get cfg server2 path2 h2 ctx2 con c2 = (False, c2)"
proof -
  obtain slot where s: "slot < length (cl_pending c)" "\<not> pd_active (cl_pending c ! slot)"
    "cl_transport c1 = snd (transport_send server (encode (sent_request cfg path Code_Get None CF_TextPlain
       False False False c) (max_msg_size cfg)) (cl_transport c))"
    "cl_pending c1 = (cl_pending c)[slot := pending_entry server (cl_nextTokenByte c) h ctx False
                                             (stored_path cfg path)]"
    "cl_pool c1 = cl_pool c"
    by (rule sendRequest_success [OF assms(1) [unfolded client_get_def] assms(2,3) refl]) simp
  have "occupancy pd_active (cl_pending c1) = length (cl_pending c1)"
    unfolding s(4) using occupancy_update [OF s(1), of pd_active] s(2) assms(5)
    by (simp add: pending_entry_def)
  then have full: "list_all pd_active (cl_pending c1)"
    unfolding occupancy_def list_all_iff by (metis length_filter_less less_irrefl)
  have "no_traffic c1" using assms(4) s(3,5) by (simp add: no_traffic_def)
  from polls_idle [OF this, of cfg env ts] obtain c2 where
    "polls cfg env ts c1 = Some c2" "cl_pending c2 = cl_pending c1" by blast
  with full show ?thesis by (auto simp: client_get_def full_table_refuses)
qed

theorem unanswered_requests_block_witness:
  "\<exists>c2. polls (table_config 1) (silent_env (table_config 1)) [10, 60000, 0]
      (snd (client_get (table_config 1) some_server temp_uri (Some 7) (Some 3) False (fresh_client 1))) = Some c2 \<and>
    client_get (table_config 1) some_server temp_uri None None True c2 = (False, c2)"
proof -
  have n: "(0 :: nat) < 1" "(1 :: nat) \<le> 255" by simp_all
  have q: "no_traffic (fresh_client 1)"
    by (simp add: no_traffic_def fresh_client_def new_client_def quiet_network_def reset_pool_def
        empty_transaction_def in_flight_def)
  have o': "Suc (occupancy pd_active (cl_pending (fresh_client 1))) = length (cl_pending (fresh_client 1))"
    by (simp add: fresh_client_def new_client_def occupancy_def empty_pending_def)
  show ?thesis
    by (rule unanswered_requests_block [OF fresh_get [OF n] table_config_valid [OF n(2)] temp_uri_short q o'])
qed

text \<open>
  The client cuts an upload correctly: block number \<open>n\<close> goes out as one datagram that
  decodes to the upload's method, token and path with bytes [n*size, n*size+size) of the
  body and a Block1 option with number \<open>n\<close> and the more flag set exactly when bytes remain;
  it is tracked for retransmission and the upload then waits for the 2.31.
\<close>

theorem upload_block_on_wire:
  assumes "sendBlock1 cfg slot c = (True, c')" "valid_config cfg" "up = cl_uploads c ! slot"
    and "short_path (up_path up)" "length (segments (up_path up)) + 2 \<le> max_options cfg"
    and "up_szx up \<le> 6" "n = unat (up_nextNum up)"
    and "m = block1_message (cl_nextMessageId c) (up_token up) (up_method up) (up_path up)
      (up_contentFormat up) (up_fullPayload up) (up_szx up) n"
  shows "tp_sent (cl_transport c') = tp_sent (cl_transport c) @ [(up_server up, encode m (max_msg_size cfg))] \<and>
    decode cfg (encode m (max_msg_size cfg)) = Decoded m \<and>
    payload_bytes m = slice (up_fullPayload up) (unat (shift_size (up_szx up))) n \<and>
    n * unat (shift_size (up_szx up)) < length (up_fullPayload up) \<and>
    cl_pool c' = snd (tx_start cfg (up_server up) (msg_messageId m) (msg_token m)
      (encode m (max_msg_size cfg)) (cl_lastNowMs c) (cl_pool c)) \<and>
    cl_uploads c' = (cl_uploads c)[slot := up\<lparr>up_waitingForContinue := True\<rparr>]"
proof -
  note s = sendBlock1_success [OF assms(2-5) assms(8) [unfolded assms(7)] assms(1)]
  have w: "wf_message cfg m"
    unfolding assms(7,8) by (rule block1_message_wf [OF assms(2,4,5) s(1) assms(6)])
  have "decode cfg (encode m (max_msg_size cfg)) = Decoded m"
    using decode_wire [OF w] assms(2) encode_eq_wire [OF s(2)]
    by (simp add: valid_config_def assms(8) block1_message_def request_of_def Let_def)
  moreover have "payload_bytes m = slice (up_fullPayload up) (unat (shift_size (up_szx up))) n"
    by (simp add: assms(8) block1_message_def request_of_def payload_bytes_def Let_def)
  ultimately show ?thesis using s assms(7) by simp
qed

definition uploading_client :: client where
  "uploading_client = (fresh_client 1)\<lparr>cl_uploads := [(empty_upload (table_config 1))\<lparr>up_active := True,
     up_fullPayload := replicate 20 0x61, up_nextNum := 1, up_szx := 0, up_server := some_server,
     up_path := temp_uri, up_token := 1\<rparr>]\<rparr>"

theorem upload_block_on_wire_witness:
  "payload_bytes (block1_message 1 1 Code_Put temp_uri CF_TextPlain (replicate 20 0x61) 0 1) =
   slice (replicate 20 0x61) (unat (shift_size 0)) 1"
proof -
  let ?up = "cl_uploads uploading_client ! 0"
  have "fst (sendBlock1 (table_config 1) 0 uploading_client)" by code_simp
  then have sent: "sendBlock1 (table_config 1) 0 uploading_client =
      (True, snd (sendBlock1 (table_config 1) 0 uploading_client))"
    by (simp add: prod_eq_iff)
  have up: "up_path ?up = temp_uri" "up_szx ?up = 0" "up_nextNum ?up = 1" "up_token ?up = 1"
      "up_method ?up = Code_Put" "up_contentFormat ?up = CF_TextPlain"
      "up_fullPayload ?up = replicate 20 0x61" "cl_nextMessageId uploading_client = 1"
    by (simp_all add: uploading_client_def empty_upload_def fresh_client_def new_client_def)
  have v: "valid_config (table_config 1)" by (rule table_config_valid) simp
  have room: "length (segments (up_path ?up)) + 2 \<le> max_options (table_config 1)"
    by (simp add: up temp_uri_segments)
  have short: "short_path (up_path ?up)" by (simp add: up temp_uri_short)
  have szx: "up_szx ?up \<le> 6" by (simp add: up)
  from upload_block_on_wire [OF sent v refl short room szx refl refl]
  show ?thesis by (simp add: up)
qed



end
