(* ===== verification/Coap_Adapter.thy ===== *)
theory Coap_Adapter
  imports Coap_Transport
begin

text \<open>
  The contract between the protocol code and a transport adapter: what \<^verbatim>\<open>receive\<close> promises of
  the datagrams that wait. The protocol code is proved against the seam
  (\<^verbatim>\<open>transport_receive\<close>); an adapter that meets the contract behaves as the seam with its own
  waiting datagrams in the inbox.
\<close>

section \<open>Receiving\<close>

text \<open>
  A result of length 0 means that nothing was there; the caller then ignores the sender. So
  two results are as good as each other when their receipts agree.
\<close>

definition receipt :: "endpoint \<times> bytes \<Rightarrow> (endpoint \<times> bytes) option" where
  "receipt r = (if snd r = [] then None else Some r)"

locale transport_adapter =
  fixes inv :: "'s \<Rightarrow> bool"
    and waiting :: "'s \<Rightarrow> (endpoint \<times> bytes) list"
    and receive :: "nat \<Rightarrow> 's \<Rightarrow> (endpoint \<times> bytes) \<times> 's"
  assumes receive_inv: "inv s \<Longrightarrow> inv (snd (receive cap s))"
    and receive_none: "inv s \<Longrightarrow> waiting s = [] \<Longrightarrow>
      receipt (fst (receive cap s)) = None \<and> waiting (snd (receive cap s)) = []"
    and receive_first: "inv s \<Longrightarrow> waiting s = (remote, data) # rest \<Longrightarrow>
      receipt (fst (receive cap s)) = receipt (remote, take cap data) \<and>
      waiting (snd (receive cap s)) = rest"
begin

lemma refines_seam:
  assumes "inv s" "transport_receive cap (t\<lparr>tp_inbox := waiting s\<rparr>) = (r, t')"
  shows "receipt r = receipt (fst (receive cap s))"
    and "t' = t\<lparr>tp_inbox := waiting (snd (receive cap s))\<rparr>"
proof -
  have "receipt r = receipt (fst (receive cap s)) \<and> t' = t\<lparr>tp_inbox := waiting (snd (receive cap s))\<rparr>"
  proof (cases "waiting s")
    case Nil
    with receive_none [OF assms(1) Nil, of cap] assms(2) show ?thesis
      by (auto simp: transport_receive_def receipt_def)
  next
    case (Cons x rest)
    obtain remote data where x: "x = (remote, data)" by fastforce
    with Cons receive_first [OF assms(1), of remote data rest cap] assms(2) show ?thesis
      by (auto simp: transport_receive_def)
  qed
  then show "receipt r = receipt (fst (receive cap s))"
    and "t' = t\<lparr>tp_inbox := waiting (snd (receive cap s))\<rparr>" by simp_all
qed

lemma as_seam:
  assumes "inv s"
  shows "receipt (fst (receive cap s)) = receipt (fst (transport_receive cap (t\<lparr>tp_inbox := waiting s\<rparr>)))"
    and "waiting (snd (receive cap s)) = tp_inbox (snd (transport_receive cap (t\<lparr>tp_inbox := waiting s\<rparr>)))"
  using refines_seam [OF assms, of cap t] by (cases "transport_receive cap (t\<lparr>tp_inbox := waiting s\<rparr>)"; simp)+

fun drain :: "nat \<Rightarrow> nat \<Rightarrow> 's \<Rightarrow> (endpoint \<times> bytes) option list" where
  "drain cap 0 s = []"
| "drain cap (Suc n) s = receipt (fst (receive cap s)) # drain cap n (snd (receive cap s))"

lemma drain_waiting:
  "inv s \<Longrightarrow> n \<le> length (waiting s) \<Longrightarrow>
   drain cap n s = map (\<lambda>(remote, data). receipt (remote, take cap data)) (take n (waiting s))"
proof (induction n arbitrary: s)
  case (Suc n)
  then obtain remote data rest where w: "waiting s = (remote, data) # rest"
    by (cases "waiting s") auto
  note r = receive_first [OF Suc.prems(1) w, of cap]
  have "n \<le> length (waiting (snd (receive cap s)))" using Suc.prems(2) w r by simp
  from Suc.IH [OF receive_inv [OF Suc.prems(1)] this] w r show ?case by simp
qed simp

end

text \<open>The seam itself, as the protocol code sees it.\<close>

interpretation seam: transport_adapter "\<lambda>t. True" tp_inbox transport_receive
  by unfold_locales (auto simp: transport_receive_def receipt_def)

section \<open>Buffering adapters\<close>

text \<open>
  An adapter that buffers arrivals in front of \<^verbatim>\<open>receive\<close>, up to a limit, and drops the
  newest when it is full. An arrival names its sender in the adapter's own terms, which
  \<open>origin\<close> translates.
\<close>

datatype 'a net_event = Arrive 'a bytes | Receive nat

definition nonempty :: "(endpoint \<times> bytes) list \<Rightarrow> (endpoint \<times> bytes) list" where
  "nonempty = filter (\<lambda>x. snd x \<noteq> [])"

locale datagram_buffer = transport_adapter inv waiting receive
  for inv :: "'s \<Rightarrow> bool" and waiting receive +
  fixes arrive :: "'a \<Rightarrow> bytes \<Rightarrow> 's \<Rightarrow> 's" and origin :: "'a \<Rightarrow> endpoint"
    and limit :: nat and cut :: nat
  assumes arrive_inv: "inv s \<Longrightarrow> inv (arrive addr data s)"
    and arrive_waiting: "inv s \<Longrightarrow> waiting (arrive addr data s) =
      (if length (waiting s) < limit then waiting s @ [(origin addr, take cut data)] else waiting s)"
begin

text \<open>What comes out of \<^verbatim>\<open>receive\<close>, and what was taken in, over a sequence of events.\<close>

fun delivered :: "'a net_event list \<Rightarrow> 's \<Rightarrow> (endpoint \<times> bytes) list" where
  "delivered [] s = []"
| "delivered (Arrive addr data # es) s = delivered es (arrive addr data s)"
| "delivered (Receive cap # es) s =
     (case receipt (fst (receive cap s)) of None \<Rightarrow> [] | Some r \<Rightarrow> [r]) @
     delivered es (snd (receive cap s))"

fun accepted :: "'a net_event list \<Rightarrow> 's \<Rightarrow> (endpoint \<times> bytes) list" where
  "accepted [] s = []"
| "accepted (Arrive addr data # es) s =
     (if length (waiting s) < limit then [(origin addr, take cut data)] else []) @
     accepted es (arrive addr data s)"
| "accepted (Receive cap # es) s = accepted es (snd (receive cap s))"

fun final :: "'a net_event list \<Rightarrow> 's \<Rightarrow> 's" where
  "final [] s = s"
| "final (Arrive addr data # es) s = final es (arrive addr data s)"
| "final (Receive cap # es) s = final es (snd (receive cap s))"

text \<open>
  First in, first out: what was waiting and what is accepted is what is delivered and what
  still waits, in order and without repetition, when no receive cuts a datagram.
\<close>

lemma fifo:
  assumes "inv s" "\<forall>cap. Receive cap \<in> set es \<longrightarrow> cut \<le> cap" "\<forall>x \<in> set (waiting s). length (snd x) \<le> cut"
  shows "nonempty (waiting s @ accepted es s) = delivered es s @ nonempty (waiting (final es s))"
  using assms
proof (induction es s rule: final.induct)
  case (2 addr data es s)
  then show ?case by (auto simp: arrive_inv arrive_waiting)
next
  case (3 cap es s)
  note r = receive_inv [OF 3(2), of cap]
  show ?case
  proof (cases "waiting s")
    case Nil
    with 3 r receive_none [OF 3(2) Nil, of cap] show ?thesis by simp
  next
    case (Cons x rest)
    obtain remote data where x: "x = (remote, data)" by fastforce
    have f: "receipt (fst (receive cap s)) = receipt (remote, take cap data)"
        "waiting (snd (receive cap s)) = rest"
      using receive_first [OF 3(2), of remote data rest cap] Cons x by auto
    have "take cap data = data" using 3(3,4) Cons x by auto
    with 3 r f Cons x show ?thesis by (auto simp: receipt_def nonempty_def)
  qed
qed (simp add: nonempty_def)

lemma waiting_bounded:
  "inv s \<Longrightarrow> length (waiting s) \<le> limit \<Longrightarrow> length (waiting (final es s)) \<le> limit"
proof (induction es s rule: final.induct)
  case (3 cap es s)
  have "length (waiting (snd (receive cap s))) \<le> length (waiting s)"
    using receive_none [OF 3(2), of cap] receive_first [OF 3(2), of _ _ _ cap]
    by (cases "waiting s") auto
  with 3 receive_inv show ?case by simp
qed (simp_all add: arrive_inv arrive_waiting)

end

end
