(* ===== verification/Coap_Lwip.thy ===== *)
theory Coap_Lwip
  imports Coap_Adapter Coap_Config
begin

text \<open>
  \<^verbatim>\<open>PulseCoAPTransportLwIP.h\<close>: the adapter over the raw UDP interface of lwIP. lwIP itself is a
  parameter: whether its calls succeed, and how its macro \<^verbatim>\<open>IP4_ADDR\<close> packs four bytes into
  the word of an \<^verbatim>\<open>ip4_addr_t\<close> (\<open>mk4\<close>: least significant byte first on a little-endian target,
  most significant first on a big-endian one). An IPv6 address is the 16 bytes of its
  memory. A pbuf is the list of its bytes, a null pbuf \<open>None\<close>. A slot is the bytes
  \<^verbatim>\<open>data[0..length)\<close> and the sender.
\<close>

section \<open>State\<close>

datatype lwip_addr = Lw4 u32 | Lw6 bytes

record lwip_knobs =
  rx_slots :: nat
  lwip_ipv6 :: bool

record lwip_slot =
  ls_data :: bytes
  ls_from :: endpoint

record lwip =
  lw_open :: bool
  lw_slots :: "lwip_slot list"
  lw_head :: u32
  lw_tail :: u32
  lw_sent :: "(lwip_addr \<times> u16 \<times> bytes) list"

definition empty_lwip_slot :: lwip_slot where
  "empty_lwip_slot = \<lparr>ls_data = [], ls_from = empty_endpoint\<rparr>"

definition new_lwip :: "lwip_knobs \<Rightarrow> lwip" where
  "new_lwip k = \<lparr>lw_open = False, lw_slots = replicate (rx_slots k) empty_lwip_slot,
     lw_head = 0, lw_tail = 0, lw_sent = []\<rparr>"

section \<open>Operations\<close>

definition lwip_begin :: "bool \<Rightarrow> bool \<Rightarrow> lwip \<Rightarrow> bool \<times> lwip" where
  "lwip_begin new_ok bind_ok s =
     (if lw_open s then (False, s)
      else if \<not> new_ok then (False, s)
      else if \<not> bind_ok then (False, s\<lparr>lw_open := False\<rparr>)
      else (True, s\<lparr>lw_open := True\<rparr>))"

definition lwip_dest :: "lwip_knobs \<Rightarrow> (u8 \<Rightarrow> u8 \<Rightarrow> u8 \<Rightarrow> u8 \<Rightarrow> u32) \<Rightarrow> endpoint \<Rightarrow> lwip_addr" where
  "lwip_dest k mk4 to =
     (if lwip_ipv6 k \<and> ep_isV6 to then Lw6 (ep_v6 to)
      else Lw4 (mk4 (ep_ip to ! 0) (ep_ip to ! 1) (ep_ip to ! 2) (ep_ip to ! 3)))"

text \<open>
  \<open>None\<close>: \<^verbatim>\<open>pbuf_alloc\<close> is asked for the length modulo 2^16 and \<^verbatim>\<open>memcpy\<close> then writes past it.
\<close>

definition lwip_send ::
    "lwip_knobs \<Rightarrow> (u8 \<Rightarrow> u8 \<Rightarrow> u8 \<Rightarrow> u8 \<Rightarrow> u32) \<Rightarrow> bool \<Rightarrow> bool \<Rightarrow> endpoint \<Rightarrow> bytes \<Rightarrow> lwip \<Rightarrow>
     (bool \<times> lwip) option" where
  "lwip_send k mk4 alloc_ok sendto_ok to data s =
     (if \<not> lw_open s \<or> length data = 0 then Some (False, s)
      else if \<not> alloc_ok then Some (False, s)
      else if unat (of_nat (length data) :: u16) < length data then None
      else Some (sendto_ok,
                 s\<lparr>lw_sent := lw_sent s @ [(lwip_dest k mk4 to, ep_port to, data)]\<rparr>))"

definition lwip_index :: "lwip_knobs \<Rightarrow> u32 \<Rightarrow> nat" where
  "lwip_index k i = unat (i mod of_nat (rx_slots k))"

definition lwip_receive :: "lwip_knobs \<Rightarrow> nat \<Rightarrow> lwip \<Rightarrow> (endpoint \<times> bytes) \<times> lwip" where
  "lwip_receive k capacity s =
     (if lw_head s = lw_tail s then ((empty_endpoint, []), s)
      else let slot = lw_slots s ! lwip_index k (lw_head s)
           in ((ls_from slot,
                take (if length (ls_data slot) < capacity then length (ls_data slot) else capacity)
                     (ls_data slot)),
               s\<lparr>lw_head := lw_head s + 1\<rparr>))"

text \<open>The sender of a datagram; with \<^verbatim>\<open>LWIP_IPV6\<close> off every address is an \<open>Lw4\<close>.\<close>

definition lwip_source :: "lwip_addr \<Rightarrow> u16 \<Rightarrow> endpoint" where
  "lwip_source addr port =
     (case addr of
        Lw6 b \<Rightarrow> empty_endpoint\<lparr>ep_port := port, ep_v6 := b, ep_isV6 := True\<rparr>
      | Lw4 raw \<Rightarrow> empty_endpoint\<lparr>ep_port := port,
          ep_ip := [ucast (raw AND 0xFF), ucast (drop_bit 8 raw AND 0xFF),
                    ucast (drop_bit 16 raw AND 0xFF), ucast (drop_bit 24 raw AND 0xFF)],
          ep_isV6 := False\<rparr>)"

definition lwip_recvCallback ::
    "config \<Rightarrow> lwip_knobs \<Rightarrow> bytes option \<Rightarrow> lwip_addr \<Rightarrow> u16 \<Rightarrow> lwip \<Rightarrow> lwip" where
  "lwip_recvCallback cfg k p addr port s =
     (case p of
        None \<Rightarrow> s
      | Some data \<Rightarrow>
          let used = lw_tail s - lw_head s
          in if used < of_nat (rx_slots k) then
               s\<lparr>lw_slots := (lw_slots s)[lwip_index k (lw_tail s) :=
                    \<lparr>ls_data = take (if length data < max_msg_size cfg then length data
                                    else max_msg_size cfg) data,
                     ls_from = lwip_source addr port\<rparr>],
                 lw_tail := lw_tail s + 1\<rparr>
             else s)"

section \<open>The ring as a queue\<close>

definition ring_ok :: "lwip_knobs \<Rightarrow> bool" where
  "ring_ok k \<longleftrightarrow> 0 < rx_slots k \<and> rx_slots k < 2 ^ 32 \<and> 2 ^ 32 mod rx_slots k = 0"

definition lwip_inv :: "lwip_knobs \<Rightarrow> lwip \<Rightarrow> bool" where
  "lwip_inv k s \<longleftrightarrow> length (lw_slots s) = rx_slots k \<and> unat (lw_tail s - lw_head s) \<le> rx_slots k"

definition slot_datagram :: "lwip_slot \<Rightarrow> endpoint \<times> bytes" where
  "slot_datagram slot = (ls_from slot, ls_data slot)"

definition lwip_waiting :: "lwip_knobs \<Rightarrow> lwip \<Rightarrow> (endpoint \<times> bytes) list" where
  "lwip_waiting k s =
     map (\<lambda>i. slot_datagram (lw_slots s ! lwip_index k (lw_head s + of_nat i)))
         [0..<unat (lw_tail s - lw_head s)]"

lemma lwip_index_offset:
  assumes "ring_ok k"
  shows "lwip_index k (h + of_nat i) = (unat h + i) mod rx_slots k"
proof -
  have n: "unat (of_nat (rx_slots k) :: u32) = rx_slots k"
    using assms by (simp add: ring_ok_def unat_of_nat)
  have dvd: "rx_slots k dvd 4294967296" using assms by (simp add: ring_ok_def mod_eq_0_iff_dvd)
  have "unat (h + of_nat i) = (unat h + i) mod 4294967296"
    by (simp add: unat_word_ariths unat_of_nat mod_add_right_eq)
  then show ?thesis
    using dvd by (simp add: lwip_index_def unat_mod_distrib n mod_mod_cancel)
qed

lemma lwip_index_lt: "ring_ok k \<Longrightarrow> lwip_index k h < rx_slots k"
  using lwip_index_offset [of k h 0] by (simp add: ring_ok_def)

lemma mod_window:
  assumes "i < j" "j < i + (n :: nat)"
  shows "(a + i) mod n \<noteq> (a + j) mod n"
proof
  assume eq: "(a + i) mod n = (a + j) mod n"
  have "n dvd (a + j) - (a + i)"
    by (rule mod_eq_dvd_iff_nat [THEN iffD1]) (use assms(1) eq in simp_all)
  then have "n \<le> j - i" using assms(1) by (intro dvd_imp_le) simp_all
  with assms show False by linarith
qed

lemma length_lwip_waiting: "length (lwip_waiting k s) = unat (lw_tail s - lw_head s)"
  by (simp add: lwip_waiting_def)

lemma unat_dec:
  fixes t h :: u32
  assumes "t \<noteq> h"
  shows "unat (t - h) = Suc (unat (t - (h + 1)))"
proof -
  have ne: "t - h \<noteq> 0" using assms by simp
  have "unat (t - (h + 1)) = unat ((t - h) - 1)" by (simp add: algebra_simps)
  also have "\<dots> = unat (t - h) - 1" using ne by (rule unat_minus_one)
  finally show ?thesis using ne by (simp add: unat_gt_0)
qed

lemma lwip_waiting_none: "lwip_waiting k s = [] \<longleftrightarrow> lw_head s = lw_tail s"
  by (metis length_lwip_waiting length_0_conv unat_eq_zero right_minus_eq)

lemma lwip_waiting_first:
  assumes "lw_head s \<noteq> lw_tail s"
  shows "lwip_waiting k s = slot_datagram (lw_slots s ! lwip_index k (lw_head s)) #
    lwip_waiting k (s\<lparr>lw_head := lw_head s + 1\<rparr>)"
proof -
  let ?n = "unat (lw_tail s - (lw_head s + 1))"
  have "unat (lw_tail s - lw_head s) = Suc ?n" using assms by (intro unat_dec) simp
  then show ?thesis
    by (simp add: lwip_waiting_def map_upt_Suc algebra_simps del: upt_Suc)
qed

lemma lwip_receive_inv: "lwip_inv k s \<Longrightarrow> lwip_inv k (snd (lwip_receive k cap s))"
  using unat_dec [of "lw_tail s" "lw_head s"]
  by (auto simp: lwip_inv_def lwip_receive_def Let_def)

lemma lwip_receive_first:
  assumes "lwip_waiting k s = (remote, data) # rest"
  shows "fst (lwip_receive k cap s) = (remote, take cap data)"
    and "lwip_waiting k (snd (lwip_receive k cap s)) = rest"
proof -
  have ne: "lw_head s \<noteq> lw_tail s" using assms lwip_waiting_none [of k s] by auto
  note w = lwip_waiting_first [OF ne, of k]
  show "fst (lwip_receive k cap s) = (remote, take cap data)"
    using ne assms w by (simp add: lwip_receive_def Let_def slot_datagram_def)
  show "lwip_waiting k (snd (lwip_receive k cap s)) = rest"
    using ne assms w by (simp add: lwip_receive_def Let_def)
qed

lemma lwip_recv_full:
  assumes "ring_ok k" "\<not> unat (lw_tail s - lw_head s) < rx_slots k"
  shows "lwip_recvCallback cfg k (Some data) addr port s = s"
  using assms by (simp add: lwip_recvCallback_def Let_def word_less_nat_alt ring_ok_def unat_of_nat)

lemma lwip_recv_room:
  assumes k: "ring_ok k" and inv: "lwip_inv k s" and room: "unat (lw_tail s - lw_head s) < rx_slots k"
  shows "lwip_inv k (lwip_recvCallback cfg k (Some data) addr port s)"
    and "lwip_waiting k (lwip_recvCallback cfg k (Some data) addr port s) =
      lwip_waiting k s @ [(lwip_source addr port, take (max_msg_size cfg) data)]"
proof -
  let ?n = "unat (lw_tail s - lw_head s)" and ?t = "lwip_index k (lw_tail s)"
  let ?slot = "\<lparr>ls_data = take (max_msg_size cfg) data, ls_from = lwip_source addr port\<rparr>"
  have s': "lwip_recvCallback cfg k (Some data) addr port s =
      s\<lparr>lw_slots := (lw_slots s)[?t := ?slot], lw_tail := lw_tail s + 1\<rparr>"
    using room k by (simp add: lwip_recvCallback_def Let_def word_less_nat_alt ring_ok_def unat_of_nat)
  have "?n < 4294967295" using room k by (simp add: ring_ok_def)
  moreover have "lw_tail s + 1 - lw_head s = (lw_tail s - lw_head s) + 1" by simp
  ultimately have n': "unat (lw_tail s + 1 - lw_head s) = Suc ?n"
    by (simp only: unat_word_ariths) simp
  then show "lwip_inv k (lwip_recvCallback cfg k (Some data) addr port s)"
    unfolding s' using inv room by (simp add: lwip_inv_def)
  have tail: "?t = (unat (lw_head s) + ?n) mod rx_slots k"
    using lwip_index_offset [OF k, of "lw_head s" ?n] by simp
  have old: "lwip_index k (lw_head s + of_nat i) \<noteq> ?t" if "i < ?n" for i
    unfolding tail lwip_index_offset [OF k] using that room by (intro mod_window) auto
  have lt: "?t < length (lw_slots s)" using lwip_index_lt [OF k] inv by (simp add: lwip_inv_def)
  have "map (\<lambda>i. slot_datagram ((lw_slots s)[?t := ?slot] ! lwip_index k (lw_head s + of_nat i))) [0..<?n] =
      lwip_waiting k s"
    unfolding lwip_waiting_def using old [symmetric] by (intro map_cong) (simp_all add: nth_list_update_neq)
  moreover have "lw_head s + of_nat ?n = lw_tail s" by simp
  ultimately show "lwip_waiting k (lwip_recvCallback cfg k (Some data) addr port s) =
      lwip_waiting k s @ [(lwip_source addr port, take (max_msg_size cfg) data)]"
    unfolding s' using lt by (simp add: lwip_waiting_def n' slot_datagram_def)
qed

text \<open>The ring is a bounded queue in front of the seam.\<close>

definition lwip_arrive :: "config \<Rightarrow> lwip_knobs \<Rightarrow> lwip_addr \<times> u16 \<Rightarrow> bytes \<Rightarrow> lwip \<Rightarrow> lwip" where
  "lwip_arrive cfg k a data = lwip_recvCallback cfg k (Some data) (fst a) (snd a)"

definition lwip_origin :: "lwip_addr \<times> u16 \<Rightarrow> endpoint" where
  "lwip_origin a = lwip_source (fst a) (snd a)"

lemma lwip_arrive_cases:
  assumes "ring_ok k" "lwip_inv k s"
  shows "lwip_inv k (lwip_arrive cfg k a data s)"
    and "lwip_waiting k (lwip_arrive cfg k a data s) =
      (if length (lwip_waiting k s) < rx_slots k
       then lwip_waiting k s @ [(lwip_origin a, take (max_msg_size cfg) data)] else lwip_waiting k s)"
  using assms(2) lwip_recv_room [OF assms] lwip_recv_full [OF assms(1)]
  by (cases "unat (lw_tail s - lw_head s) < rx_slots k";
      simp add: lwip_arrive_def lwip_origin_def length_lwip_waiting)+

lemma lwip_receive_none:
  "lwip_waiting k s = [] \<Longrightarrow> lwip_receive k cap s = ((empty_endpoint, []), s)"
  by (simp add: lwip_receive_def lwip_waiting_none)

interpretation lwip_ring: datagram_buffer "\<lambda>s. ring_ok k \<and> lwip_inv k s" "lwip_waiting k" "lwip_receive k"
    "lwip_arrive cfg k" lwip_origin "rx_slots k" "max_msg_size cfg" for k cfg
  by unfold_locales
    (simp_all add: lwip_receive_inv lwip_receive_first lwip_arrive_cases lwip_receive_none receipt_def)

text \<open>Receiving meets the contract in every state, whatever the counters.\<close>

interpretation lwip_plain: transport_adapter "\<lambda>s. True" "lwip_waiting k" "lwip_receive k" for k
  by unfold_locales (simp_all add: lwip_receive_first lwip_receive_none receipt_def)

lemma new_lwip_inv: "lwip_inv k (new_lwip k)" "lwip_waiting k (new_lwip k) = []"
  by (simp_all add: lwip_inv_def new_lwip_def lwip_waiting_def)

section \<open>Addresses\<close>

text \<open>How \<^verbatim>\<open>IP4_ADDR\<close> packs on the two kinds of target.\<close>

definition little_endian4 :: "u8 \<Rightarrow> u8 \<Rightarrow> u8 \<Rightarrow> u8 \<Rightarrow> u32" where
  "little_endian4 a b c d = ucast a OR push_bit 8 (ucast b) OR push_bit 16 (ucast c) OR push_bit 24 (ucast d)"

definition big_endian4 :: "u8 \<Rightarrow> u8 \<Rightarrow> u8 \<Rightarrow> u8 \<Rightarrow> u32" where
  "big_endian4 a b c d = little_endian4 d c b a"

lemma and_ff: "w AND 0xFF = take_bit 8 (w :: u32)"
proof -
  have "(0xFF :: u32) = mask 8" by (simp add: mask_eq_exp_minus_1)
  then show ?thesis by (simp add: take_bit_eq_mask)
qed

lemma little_endian4_bytes:
  "(ucast (little_endian4 a b c d AND 0xFF) :: u8) = a"
  "(ucast (drop_bit 8 (little_endian4 a b c d) AND 0xFF) :: u8) = b"
  "(ucast (drop_bit 16 (little_endian4 a b c d) AND 0xFF) :: u8) = c"
  "(ucast (drop_bit 24 (little_endian4 a b c d) AND 0xFF) :: u8) = d"
  unfolding and_ff little_endian4_def
  by (rule bit_word_eqI; auto simp: bit_simps dest: bit_imp_le_length)+

lemma bytes_little_endian4:
  "little_endian4 (ucast (w AND 0xFF)) (ucast (drop_bit 8 w AND 0xFF))
     (ucast (drop_bit 16 w AND 0xFF)) (ucast (drop_bit 24 w AND 0xFF)) = w"
proof (rule bit_word_eqI)
  fix n assume "n < LENGTH(32)"
  then consider "n < 8" | "8 \<le> n" "n < 16" | "16 \<le> n" "n < 24" | "24 \<le> n" "n < 32" by fastforce
  then show "bit (little_endian4 (ucast (w AND 0xFF)) (ucast (drop_bit 8 w AND 0xFF))
     (ucast (drop_bit 16 w AND 0xFF)) (ucast (drop_bit 24 w AND 0xFF))) n \<longleftrightarrow> bit w n"
    by cases (auto simp: little_endian4_def and_ff bit_simps)
qed

end
