(* ===== verification/Coap_Posix.thy ===== *)
theory Coap_Posix
  imports Coap_Adapter
begin

text \<open>
  \<^verbatim>\<open>PulseCoAPTransportPosix.h\<close>: the adapter over BSD sockets. The kernel is a parameter: the
  results of its calls are arguments, the open descriptors, the datagrams handed to
  \<^verbatim>\<open>sendto\<close> and those waiting for \<^verbatim>\<open>recvfrom\<close> are fields. A socket address is the bytes of its
  memory, so that \<^verbatim>\<open>htonl\<close> followed by a store is "most significant byte first" on every host;
  \<^verbatim>\<open>sin6_scope_id\<close> is kept, as the kernel uses it for link-local peers. The calls that join a
  multicast group or choose its interface only pass their arguments to \<^verbatim>\<open>setsockopt\<close>.
\<close>

section \<open>State\<close>

datatype sockaddr =
    SockIn (sin_addr: bytes) (sin_port: bytes)
  | SockIn6 (sin6_addr: bytes) (sin6_port: bytes) (sin6_scope_id: u32)

record posix =
  px_fd :: "nat option"
  px_dualStack :: bool
  px_open :: "nat list"
  px_bound :: "sockaddr option"
  px_sent :: "(sockaddr \<times> bytes) list"
  px_inbox :: "(sockaddr \<times> bytes) list"

definition new_posix :: posix where
  "new_posix = \<lparr>px_fd = None, px_dualStack = False, px_open = [], px_bound = None, px_sent = [],
     px_inbox = []\<rparr>"

text \<open>What the calls of \<^verbatim>\<open>begin\<close> return: a descriptor or -1, and success or failure.\<close>

record begin_results =
  br_socket6 :: "nat option"
  br_socket4 :: "nat option"
  br_getfl :: bool
  br_setfl :: bool
  br_bind :: bool

section \<open>Byte order\<close>

definition htons :: "u16 \<Rightarrow> bytes" where
  "htons p = [hi_byte p, lo_byte p]"

definition ntohs :: "bytes \<Rightarrow> u16" where
  "ntohs b = be16 (b ! 0) (b ! 1)"

definition htonl :: "u32 \<Rightarrow> bytes" where
  "htonl w = [ucast (drop_bit 24 w), ucast (drop_bit 16 w), ucast (drop_bit 8 w), ucast w]"

text \<open>Four bytes packed into a word, the first one most significant.\<close>

definition pack32 :: "u8 \<Rightarrow> u8 \<Rightarrow> u8 \<Rightarrow> u8 \<Rightarrow> u32" where
  "pack32 a b c d = push_bit 24 (ucast a) OR push_bit 16 (ucast b) OR push_bit 8 (ucast c) OR ucast d"

definition ntohl :: "bytes \<Rightarrow> u32" where
  "ntohl b = pack32 (b ! 0) (b ! 1) (b ! 2) (b ! 3)"

section \<open>Opening and closing\<close>

definition open_socket :: "nat \<Rightarrow> posix \<Rightarrow> posix" where
  "open_socket fd s = s\<lparr>px_fd := Some fd, px_open := fd # px_open s\<rparr>"

definition close_socket :: "posix \<Rightarrow> posix" where
  "close_socket s =
     (case px_fd s of
        None \<Rightarrow> s
      | Some fd \<Rightarrow> s\<lparr>px_fd := None, px_open := remove1 fd (px_open s)\<rparr>)"

definition any_address :: "bool \<Rightarrow> u16 \<Rightarrow> sockaddr" where
  "any_address dual localPort =
     (if dual then SockIn6 (replicate 16 0) (htons localPort) 0
      else SockIn (htonl 0) (htons localPort))"

text \<open>The two attempts at a socket; \<open>no_ipv6\<close> is the switch \<^verbatim>\<open>NO_IPV6\<close>.\<close>

definition try_sockets :: "bool \<Rightarrow> begin_results \<Rightarrow> posix \<Rightarrow> posix" where
  "try_sockets no_ipv6 r s =
     (let s1 = (case (if no_ipv6 then None else br_socket6 r) of
                  None \<Rightarrow> s
                | Some fd \<Rightarrow> (open_socket fd s)\<lparr>px_dualStack := True\<rparr>)
      in if px_fd s1 = None
         then (case br_socket4 r of
                 None \<Rightarrow> s1
               | Some fd \<Rightarrow> (open_socket fd s1)\<lparr>px_dualStack := False\<rparr>)
         else s1)"

definition posix_begin :: "bool \<Rightarrow> begin_results \<Rightarrow> u16 \<Rightarrow> posix \<Rightarrow> bool \<times> posix" where
  "posix_begin no_ipv6 r localPort s =
     (if px_fd s \<noteq> None then (False, s)
      else
        let s1 = try_sockets no_ipv6 r s
        in if px_fd s1 = None then (False, s1)
           else if \<not> br_getfl r \<or> \<not> br_setfl r then (False, close_socket s1)
           else if \<not> br_bind r then (False, close_socket s1)
           else (True, s1\<lparr>px_bound := Some (any_address (px_dualStack s1) localPort)\<rparr>))"

definition posix_destroy :: "posix \<Rightarrow> posix" where
  "posix_destroy s = close_socket s"

section \<open>Datagrams\<close>

definition posix_dest :: "bool \<Rightarrow> endpoint \<Rightarrow> sockaddr" where
  "posix_dest dual to =
     (if dual then
        SockIn6 (if ep_isV6 to then ep_v6 to
                 else replicate 10 0 @ [0xFF, 0xFF, ep_ip to ! 0, ep_ip to ! 1, ep_ip to ! 2, ep_ip to ! 3])
          (htons (ep_port to)) 0
      else
        SockIn (htonl (pack32 (ep_ip to ! 0) (ep_ip to ! 1) (ep_ip to ! 2) (ep_ip to ! 3)))
          (htons (ep_port to)))"

text \<open>\<open>sent\<close> is what \<^verbatim>\<open>sendto\<close> returns, negative when it fails.\<close>

definition posix_send :: "int \<Rightarrow> endpoint \<Rightarrow> bytes \<Rightarrow> posix \<Rightarrow> bool \<times> posix" where
  "posix_send sent to data s =
     (if px_fd s = None then (False, s)
      else (sent = int (length data),
            if sent < 0 then s
            else s\<lparr>px_sent := px_sent s @ [(posix_dest (px_dualStack s) to, data)]\<rparr>))"

definition v4mapped :: "bytes \<Rightarrow> bool" where
  "v4mapped b \<longleftrightarrow>
     b ! 0 = 0 \<and> b ! 1 = 0 \<and> b ! 2 = 0 \<and> b ! 3 = 0 \<and> b ! 4 = 0 \<and> b ! 5 = 0 \<and> b ! 6 = 0 \<and>
     b ! 7 = 0 \<and> b ! 8 = 0 \<and> b ! 9 = 0 \<and> b ! 10 = 0xFF \<and> b ! 11 = 0xFF"

definition fillEndpoint :: "sockaddr \<Rightarrow> endpoint" where
  "fillEndpoint ss =
     (case ss of
        SockIn a p \<Rightarrow>
          let raw = ntohl a
          in empty_endpoint\<lparr>ep_ip := [ucast (drop_bit 24 raw), ucast (drop_bit 16 raw),
                                     ucast (drop_bit 8 raw), ucast raw],
                           ep_port := ntohs p, ep_isV6 := False\<rparr>
      | SockIn6 b p scope \<Rightarrow>
          (if v4mapped b
           then empty_endpoint\<lparr>ep_ip := [b ! 12, b ! 13, b ! 14, b ! 15], ep_isV6 := False,
                               ep_port := ntohs p\<rparr>
           else empty_endpoint\<lparr>ep_v6 := b, ep_isV6 := True, ep_port := ntohs p\<rparr>))"

text \<open>\<^verbatim>\<open>recvfrom\<close> takes the waiting datagram, cut to the capacity; 0 and -1 are treated alike.\<close>

definition posix_receive :: "nat \<Rightarrow> posix \<Rightarrow> (endpoint \<times> bytes) \<times> posix" where
  "posix_receive capacity s =
     (if px_fd s = None then ((empty_endpoint, []), s)
      else case px_inbox s of
             [] \<Rightarrow> ((empty_endpoint, []), s)
           | (ss, data) # rest \<Rightarrow>
               let n = min capacity (length data)
               in if n \<le> 0 then ((empty_endpoint, []), s\<lparr>px_inbox := rest\<rparr>)
                  else ((fillEndpoint ss, take n data), s\<lparr>px_inbox := rest\<rparr>))"

lemma take_min_length [simp]: "take (min k (length xs)) xs = take k xs"
  by (simp add: min_def)

lemma min_length_zero [simp]: "min k (length xs) = 0 \<longleftrightarrow> take k xs = []"
  by (auto simp: min_def)

section \<open>Socket options and the bound port\<close>

text \<open>
  \<open>grp\<close> and \<open>iface\<close> are what \<^verbatim>\<open>inet_addr\<close> makes of the two strings (\<open>iface\<close> is \<open>None\<close> for a
  null pointer), \<open>opt_ok\<close> whether \<^verbatim>\<open>setsockopt\<close> succeeds; the second component of the result
  is the group and interface handed to it.
\<close>

definition INADDR_NONE :: u32 where
  "INADDR_NONE = 0xFFFFFFFF"

definition joinMulticastGroup ::
    "u32 \<Rightarrow> u32 option \<Rightarrow> bool \<Rightarrow> posix \<Rightarrow> bool \<times> (u32 \<times> u32) option" where
  "joinMulticastGroup grp iface opt_ok s =
     (if px_fd s = None then (False, None)
      else if grp = INADDR_NONE then (False, None)
      else (opt_ok, Some (grp, (case iface of None \<Rightarrow> 0 | Some i \<Rightarrow> i))))"

definition setMulticastOutboundInterface :: "u32 \<Rightarrow> bool \<Rightarrow> posix \<Rightarrow> bool \<times> u32 option" where
  "setMulticastOutboundInterface iface opt_ok s =
     (if px_fd s = None then (False, None)
      else if iface = INADDR_NONE then (False, None)
      else (opt_ok, Some iface))"

text \<open>\<open>name\<close> is what \<^verbatim>\<open>getsockname\<close> fills in, if it succeeds.\<close>

definition localPort :: "sockaddr option \<Rightarrow> posix \<Rightarrow> u16" where
  "localPort name s =
     (if px_fd s = None then 0
      else case name of
             None \<Rightarrow> 0
           | Some (SockIn a p) \<Rightarrow> ntohs p
           | Some (SockIn6 a p scope) \<Rightarrow> ntohs p)"

section \<open>The contract and the resources\<close>

definition posix_waiting :: "posix \<Rightarrow> (endpoint \<times> bytes) list" where
  "posix_waiting s =
     (if px_fd s = None then [] else map (\<lambda>(ss, data). (fillEndpoint ss, data)) (px_inbox s))"

interpretation posix: transport_adapter "\<lambda>s. True" posix_waiting posix_receive
  by unfold_locales
    (auto simp: posix_waiting_def posix_receive_def receipt_def Let_def split: list.split prod.split if_splits)

lemma posix_begin_failure:
  assumes "posix_begin no_ipv6 r port s = (False, s')" "px_fd s = None"
  shows "px_fd s' = None" "px_open s' = px_open s"
  using assms
  by (auto simp: posix_begin_def try_sockets_def open_socket_def close_socket_def Let_def
      split: option.splits if_splits)

lemma posix_begin_success:
  assumes "posix_begin no_ipv6 r port s = (True, s')"
  shows "\<exists>fd. px_fd s' = Some fd \<and> px_open s' = fd # px_open s \<and>
    px_bound s' = Some (any_address (px_dualStack s') port) \<and> px_open (posix_destroy s') = px_open s"
  using assms
  by (auto simp: posix_begin_def try_sockets_def open_socket_def close_socket_def posix_destroy_def Let_def
      split: option.splits if_splits)

section \<open>Addresses\<close>

lemma ntohs_htons: "ntohs (htons p) = p"
  by (simp add: ntohs_def htons_def be16_hi_lo)

lemma length_2: "length b = 2 \<Longrightarrow> \<exists>x y. b = [x, y]"
  by (auto simp: numeral_2_eq_2 length_Suc_conv)

lemma htons_ntohs: "length b = 2 \<Longrightarrow> htons (ntohs b) = b"
  by (auto simp: htons_def ntohs_def hi_byte_be16 lo_byte_be16 dest!: length_2)

lemma length_4: "length b = 4 \<Longrightarrow> \<exists>w x y z. b = [w, x, y, z]"
  by (auto simp: numeral_eq_Suc length_Suc_conv)

lemma pack32_bytes [simp]:
  "ucast (drop_bit 24 (pack32 a b c d)) = a" "ucast (drop_bit 16 (pack32 a b c d)) = b"
  "ucast (drop_bit 8 (pack32 a b c d)) = c" "ucast (pack32 a b c d) = d"
  unfolding pack32_def by (rule bit_word_eqI; auto simp: bit_simps dest: bit_imp_le_length)+

lemma htonl_pack32 [simp]: "htonl (pack32 a b c d) = [a, b, c, d]"
  by (simp add: htonl_def)

lemma htonl_ntohl: "length b = 4 \<Longrightarrow> htonl (ntohl b) = b"
  by (auto simp: ntohl_def dest!: length_4)

lemma posix_address_v4:
  assumes "wf_endpoint to" "\<not> ep_isV6 to"
  shows "ep_eq (fillEndpoint (posix_dest dual to)) to"
proof (cases dual)
  case True
  have "v4mapped (replicate 10 0 @ [0xFF, 0xFF, a, b, c, d])" for a b c d :: u8
    by (simp add: v4mapped_def nth_append)
  with True assms(2) show ?thesis
    by (simp add: posix_dest_def fillEndpoint_def ep_eq_def ntohs_htons empty_endpoint_def nth_append)
next
  case False
  with assms(2) show ?thesis
    by (simp add: posix_dest_def fillEndpoint_def ep_eq_def ntohs_htons empty_endpoint_def Let_def
        ntohl_def)
qed

lemma posix_address_v6:
  assumes "ep_isV6 to" "\<not> v4mapped (ep_v6 to)"
  shows "ep_eq (fillEndpoint (posix_dest True to)) to"
  using assms
  by (simp add: posix_dest_def fillEndpoint_def ep_eq_def ntohs_htons empty_endpoint_def list_all_iff)

text \<open>An answer to the sender of a datagram goes to the address it came from, scope aside.\<close>

definition wf_sockaddr :: "sockaddr \<Rightarrow> bool" where
  "wf_sockaddr ss \<longleftrightarrow>
     (case ss of SockIn a p \<Rightarrow> length a = 4 \<and> length p = 2
      | SockIn6 b p scope \<Rightarrow> length b = 16 \<and> length p = 2)"

lemma v4mapped_bytes:
  assumes "length b = 16" "v4mapped b"
  shows "b = replicate 10 0 @ [0xFF, 0xFF, b ! 12, b ! 13, b ! 14, b ! 15]"
proof (rule nth_equalityI)
  show "b ! i = (replicate 10 0 @ [0xFF, 0xFF, b ! 12, b ! 13, b ! 14, b ! 15]) ! i" if "i < length b" for i
  proof -
    have "i \<in> {0, 1, 2, 3, 4, 5, 6, 7, 8, 9, 10, 11, 12, 13, 14, 15}" using that assms(1) by simp arith
    then show ?thesis using assms(2) by (elim insertE emptyE) (simp_all add: v4mapped_def nth_append)
  qed
qed (simp add: assms(1))

lemma posix_reply_v6:
  assumes "wf_sockaddr (SockIn6 b p scope)"
  shows "posix_dest True (fillEndpoint (SockIn6 b p scope)) = SockIn6 b p 0"
  using assms v4mapped_bytes [of b]
  by (auto simp: posix_dest_def fillEndpoint_def wf_sockaddr_def htons_ntohs)

lemma posix_reply_v4:
  assumes "wf_sockaddr (SockIn a p)"
  shows "posix_dest False (fillEndpoint (SockIn a p)) = SockIn a p"
proof -
  have "length a = 4" "length p = 2" using assms by (simp_all add: wf_sockaddr_def)
  then show ?thesis
    by (auto simp: posix_dest_def fillEndpoint_def Let_def htons_ntohs ntohl_def dest!: length_4)
qed

end
