(* ===== verification/Coap_Arduino.thy ===== *)
theory Coap_Arduino
  imports Coap_Adapter
begin

text \<open>
  \<^verbatim>\<open>PulseCoAPTransportArduinoUDP.h\<close>: the adapter over the \<^verbatim>\<open>UDP\<close> class of the Arduino core,
  which the DTLS adapter also sits on. The class is third-party: the record holds what its
  methods will answer (for each outgoing packet, whether \<^verbatim>\<open>beginPacket\<close> and \<^verbatim>\<open>endPacket\<close>
  succeed and how many bytes \<^verbatim>\<open>write\<close> takes) and the datagrams that \<^verbatim>\<open>parsePacket\<close> has still
  to report; \<^verbatim>\<open>read\<close> returns the bytes of the current one. A packet that is ended goes out.
\<close>

record packet_result =
  pr_begin :: bool
  pr_written :: nat
  pr_end :: bool

record arduino_udp =
  ud_begin_ok :: bool
  ud_results :: "packet_result list"
  ud_sent :: "(bytes \<times> u16 \<times> bytes) list"
  ud_inbox :: "(bytes \<times> u16 \<times> bytes) list"

definition next_result :: "bytes \<Rightarrow> arduino_udp \<Rightarrow> packet_result \<times> arduino_udp" where
  "next_result data u =
     (case ud_results u of
        [] \<Rightarrow> (\<lparr>pr_begin = True, pr_written = length data, pr_end = True\<rparr>, u)
      | r # rs \<Rightarrow> (r, u\<lparr>ud_results := rs\<rparr>))"

definition arduino_begin :: "u16 \<Rightarrow> arduino_udp \<Rightarrow> bool" where
  "arduino_begin localPort u = ud_begin_ok u"

text \<open>\<^verbatim>\<open>IPAddress(ip[0], ip[1], ip[2], ip[3])\<close>, of either kind of endpoint.\<close>

definition ip_address :: "endpoint \<Rightarrow> bytes" where
  "ip_address ep = [ep_ip ep ! 0, ep_ip ep ! 1, ep_ip ep ! 2, ep_ip ep ! 3]"

lemma ip_address_eq: "ep_eq a b \<Longrightarrow> \<not> ep_isV6 b \<Longrightarrow> ip_address a = ip_address b \<and> ep_port a = ep_port b"
  by (auto simp: ep_eq_def ip_address_def split: if_splits)

definition arduino_send :: "endpoint \<Rightarrow> bytes \<Rightarrow> arduino_udp \<Rightarrow> bool \<times> arduino_udp" where
  "arduino_send to data u =
     (let (r, u1) = next_result data u
      in if \<not> pr_begin r then (False, u1)
         else if \<not> pr_end r then (False, u1)
         else (pr_written r = length data,
               u1\<lparr>ud_sent := ud_sent u1 @ [(ip_address to, ep_port to, take (pr_written r) data)]\<rparr>))"

text \<open>\<open>from\<close> is the default endpoint that every caller passes in.\<close>

definition arduino_receive :: "nat \<Rightarrow> arduino_udp \<Rightarrow> (endpoint \<times> bytes) \<times> arduino_udp" where
  "arduino_receive capacity u =
     (case ud_inbox u of
        [] \<Rightarrow> ((empty_endpoint, []), u)
      | (ip, port, data) # rest \<Rightarrow>
          let u1 = u\<lparr>ud_inbox := rest\<rparr>
          in if length data \<le> 0 then ((empty_endpoint, []), u1)
             else
               let toRead = (if length data < capacity then length data else capacity)
               in ((empty_endpoint\<lparr>ep_ip := ip, ep_port := port\<rparr>, take toRead data), u1))"

definition arduino_waiting :: "arduino_udp \<Rightarrow> (endpoint \<times> bytes) list" where
  "arduino_waiting u =
     map (\<lambda>(ip, port, data). (empty_endpoint\<lparr>ep_ip := ip, ep_port := port\<rparr>, data)) (ud_inbox u)"

interpretation arduino: transport_adapter "\<lambda>u. True" arduino_waiting arduino_receive
  by unfold_locales
    (auto simp: arduino_waiting_def arduino_receive_def receipt_def Let_def split: list.split prod.split)

lemma arduino_send_whole:
  assumes "arduino_send to data u = (True, u')"
  shows "ud_sent u' = ud_sent u @ [(ip_address to, ep_port to, data)]"
  using assms
  by (auto simp: arduino_send_def next_result_def Let_def split: list.splits if_splits)

end
