(* ===== verification/Coap_Dtls.thy ===== *)
theory Coap_Dtls
  imports Coap_Arduino Coap_Config
begin

text \<open>
  \<^verbatim>\<open>PulseCoAPTransportDTLS.h\<close>: the DTLS adapter over the Arduino UDP class. mbedTLS is
  third-party: it is a parameter of the model, the record \<open>mbedtls\<close> of the functions that
  the adapter calls. A call that may call the adapter back is an interaction tree: each node
  is one callback with what it is handed, its branches are indexed by what the callback
  returns, and \<open>run_ssl\<close> plays the tree against the adapter's own callbacks. So a property
  proved for every \<open>mbedtls\<close> holds whatever the library does between two callbacks.
  A call of the adapter reads \<^verbatim>\<open>millis()\<close> once, as \<open>now\<close>.
\<close>

section \<open>Knobs\<close>

record dtls_config = config +
  dtls_max_sessions :: nat
  dtls_max_psk_entries :: nat
  dtls_identity_max_len :: nat
  dtls_psk_max_len :: nat
  dtls_handshake_timeout_ms :: u32

definition default_dtls_config :: dtls_config where
  "default_dtls_config = config.extend default_config
     (dtls_config.fields 4 8 32 32 10000)"

section \<open>mbedTLS\<close>

text \<open>The error codes the adapter names, from \<^verbatim>\<open>mbedtls/net_sockets.h\<close> and \<^verbatim>\<open>mbedtls/ssl.h\<close>.\<close>

definition MBEDTLS_ERR_NET_SEND_FAILED :: int where
  "MBEDTLS_ERR_NET_SEND_FAILED = - 0x004E"

definition MBEDTLS_ERR_SSL_WANT_READ :: int where
  "MBEDTLS_ERR_SSL_WANT_READ = - 0x6900"

definition MBEDTLS_ERR_SSL_WANT_WRITE :: int where
  "MBEDTLS_ERR_SSL_WANT_WRITE = - 0x6880"

lemmas mbedtls_error_defs =
  MBEDTLS_ERR_NET_SEND_FAILED_def MBEDTLS_ERR_SSL_WANT_READ_def MBEDTLS_ERR_SSL_WANT_WRITE_def

datatype 'r ssl_prog =
    Done 'r
  | BioSend bytes "int \<Rightarrow> 'r ssl_prog"
  | BioRecv nat "int \<times> bytes \<Rightarrow> 'r ssl_prog"
  | TimerSet u32 u32 "'r ssl_prog"
  | TimerGet "int \<Rightarrow> 'r ssl_prog"
  | PskCallback bytes "bytes option \<Rightarrow> 'r ssl_prog"

text \<open>
  \<open>mb_zero\<close> is a zeroed context, \<open>mb_init\<close> one after \<^verbatim>\<open>mbedtls_ssl_init\<close>; \<open>mb_setup\<close> takes the
  role and the client's key that \<^verbatim>\<open>begin\<close> configured. \<open>mb_read\<close> ends with an error code or with
  the bytes that were decrypted.
\<close>

record 'c mbedtls =
  mb_zero :: 'c
  mb_init :: 'c
  mb_setup :: "bool \<Rightarrow> (bytes \<times> bytes) option \<Rightarrow> 'c \<Rightarrow> bool \<times> 'c"
  mb_transport_id :: "bytes \<Rightarrow> 'c \<Rightarrow> 'c"
  mb_handshake :: "'c \<Rightarrow> (int \<times> 'c) ssl_prog"
  mb_write :: "bytes \<Rightarrow> 'c \<Rightarrow> (int \<times> 'c) ssl_prog"
  mb_read :: "nat \<Rightarrow> 'c \<Rightarrow> ((int + bytes) \<times> 'c) ssl_prog"
  mb_seed :: bool
  mb_defaults :: bool
  mb_cookie_setup :: bool
  mb_conf_psk :: "bytes \<Rightarrow> bytes \<Rightarrow> bool"

section \<open>State\<close>

record psk_entry =
  pk_identity :: bytes
  pk_key :: bytes
  pk_keyLen :: u8
  pk_used :: bool

definition empty_psk :: psk_entry where
  "empty_psk = \<lparr>pk_identity = [], pk_key = [], pk_keyLen = 0, pk_used = False\<rparr>"

record dtls_timer =
  tm_startMs :: u32
  tm_intMs :: u32
  tm_finMs :: u32
  tm_armed :: bool

datatype session_state = IDLE | HANDSHAKING | ESTABLISHED | FAILED

text \<open>
  \<^verbatim>\<open>txBuf\<close> is the first \<^verbatim>\<open>txLen\<close> bytes of the array. \<^verbatim>\<open>rxPtr\<close> is null or points at the
  transport's raw buffer, which all sessions share.
\<close>

record 'c session =
  ss_state :: session_state
  ss_peer :: endpoint
  ss_ssl :: 'c
  ss_timer :: dtls_timer
  ss_txBuf :: bytes
  ss_txPending :: bool
  ss_rxPtr :: bool
  ss_rxLen :: nat
  ss_rxConsumed :: nat
  ss_handshakeStartMs :: u32

definition zero_session :: "'c mbedtls \<Rightarrow> 'c session" where
  "zero_session mb = \<lparr>ss_state = IDLE, ss_peer = empty_endpoint, ss_ssl = mb_zero mb,
     ss_timer = \<lparr>tm_startMs = 0, tm_intMs = 0, tm_finMs = 0, tm_armed = False\<rparr>,
     ss_txBuf = [], ss_txPending = False, ss_rxPtr = False, ss_rxLen = 0, ss_rxConsumed = 0,
     ss_handshakeStartMs = 0\<rparr>"

text \<open>
  \<open>dt_conf_init\<close> and \<open>dt_cookie_init\<close> say whether the library's configuration and cookie
  contexts have been initialised; \<open>dt_live\<close> counts the session contexts that were set up and
  not freed, the memory that mbedTLS holds.
\<close>

record 'c dtls =
  dt_udp :: arduino_udp
  dt_isServer :: bool
  dt_localPort :: u16
  dt_sessions :: "'c session list"
  dt_pskStore :: "psk_entry list"
  dt_conf_init :: bool
  dt_cookie_init :: bool
  dt_conf_psk :: "(bytes \<times> bytes) option"
  dt_rawBuf :: bytes
  dt_rawLen :: nat
  dt_current :: "nat option"
  dt_live :: int

definition new_dtls :: "'c mbedtls \<Rightarrow> dtls_config \<Rightarrow> arduino_udp \<Rightarrow> bool \<Rightarrow> 'c dtls" where
  "new_dtls mb k udp server = \<lparr>dt_udp = udp, dt_isServer = server, dt_localPort = 0,
     dt_sessions = replicate (dtls_max_sessions k) (zero_session mb),
     dt_pskStore = replicate (dtls_max_psk_entries k) empty_psk,
     dt_conf_init = False, dt_cookie_init = False, dt_conf_psk = None,
     dt_rawBuf = replicate (max_msg_size k + 64) 0, dt_rawLen = 0, dt_current = None,
     dt_live = 0\<rparr>"

definition upd_session :: "nat \<Rightarrow> ('c session \<Rightarrow> 'c session) \<Rightarrow> 'c dtls \<Rightarrow> 'c dtls" where
  "upd_session i f d = d\<lparr>dt_sessions := (dt_sessions d)[i := f (dt_sessions d ! i)]\<rparr>"

definition in_use :: "'c session \<Rightarrow> bool" where
  "in_use s \<longleftrightarrow> ss_state s \<noteq> IDLE"

text \<open>
  The destructor: \<open>None\<close> when it frees a configuration or cookie context that was never
  initialised, whose bytes are indeterminate.
\<close>

definition dtls_destroy :: "'c dtls \<Rightarrow> int option" where
  "dtls_destroy d =
     (if \<not> dt_conf_init d \<or> dt_isServer d \<and> \<not> dt_cookie_init d then None
      else Some (dt_live d - int (occupancy in_use (dt_sessions d))))"

section \<open>The key store\<close>

definition fill_psk :: "bytes \<times> bytes \<Rightarrow> psk_entry \<Rightarrow> psk_entry" where
  "fill_psk p e = \<lparr>pk_identity = fst p, pk_key = snd p, pk_keyLen = of_nat (length (snd p)), pk_used = True\<rparr>"

definition addPsk :: "dtls_config \<Rightarrow> bytes option \<Rightarrow> bytes option \<Rightarrow> 'c dtls \<Rightarrow> bool \<times> 'c dtls" where
  "addPsk k identity key d =
     (case (identity, key) of
        (Some idn, Some secret) \<Rightarrow>
          if length secret = 0 \<or> length secret > dtls_psk_max_len k then (False, d)
          else
            let idLen = length idn
            in if idLen = 0 \<or> idLen \<ge> dtls_identity_max_len k then (False, d)
               else case claim_slot pk_used (fill_psk (idn, secret)) (dt_pskStore d) of
                      None \<Rightarrow> (False, d)
                    | Some (i, store) \<Rightarrow> (True, d\<lparr>dt_pskStore := store\<rparr>)
      | _ \<Rightarrow> (False, d))"

definition addPsk_passphrase ::
    "dtls_config \<Rightarrow> bytes option \<Rightarrow> bytes option \<Rightarrow> 'c dtls \<Rightarrow> bool \<times> 'c dtls" where
  "addPsk_passphrase k identity passphrase d =
     (case passphrase of
        None \<Rightarrow> (False, d)
      | Some p \<Rightarrow> addPsk k identity (Some p) d)"

definition firstPsk :: "'c dtls \<Rightarrow> psk_entry option" where
  "firstPsk d = map_option ((!) (dt_pskStore d)) (first_slot pk_used (dt_pskStore d))"

definition psk_secret :: "psk_entry \<Rightarrow> bytes" where
  "psk_secret e = take (unat (pk_keyLen e)) (pk_key e)"

text \<open>
  The key that is handed to \<^verbatim>\<open>mbedtls_ssl_set_hs_psk\<close>; \<open>None\<close> is the return of -1. An identity
  from the wire may hold any bytes, a stored one is a C string.
\<close>

definition sPskCallback :: "bytes \<Rightarrow> 'c dtls \<Rightarrow> bytes option" where
  "sPskCallback identity d =
     map_option (\<lambda>i. psk_secret (dt_pskStore d ! i))
       (first_slot (\<lambda>e. pk_used e \<and> length (pk_identity e) = length identity \<and> pk_identity e = identity)
         (dt_pskStore d))"

section \<open>Callbacks\<close>

definition sBioSend :: "bytes \<Rightarrow> 'c dtls \<Rightarrow> int \<times> 'c dtls" where
  "sBioSend buf d =
     (case dt_current d of
        None \<Rightarrow> (MBEDTLS_ERR_NET_SEND_FAILED, d)
      | Some i \<Rightarrow>
          let peer = ss_peer (dt_sessions d ! i);
              (r, u) = next_result buf (dt_udp d)
          in if \<not> pr_begin r then (MBEDTLS_ERR_NET_SEND_FAILED, d\<lparr>dt_udp := u\<rparr>)
             else if \<not> pr_end r then (MBEDTLS_ERR_NET_SEND_FAILED, d\<lparr>dt_udp := u\<rparr>)
             else (int (length buf),
                   d\<lparr>dt_udp := u\<lparr>ud_sent := ud_sent u @ [(ip_address peer, ep_port peer, take (pr_written r) buf)]\<rparr>\<rparr>))"

definition sBioRecv :: "nat \<Rightarrow> 'c dtls \<Rightarrow> (int \<times> bytes) \<times> 'c dtls" where
  "sBioRecv len d =
     (case dt_current d of
        None \<Rightarrow> ((MBEDTLS_ERR_SSL_WANT_READ, []), d)
      | Some i \<Rightarrow>
          let s = dt_sessions d ! i
          in if \<not> ss_rxPtr s \<or> ss_rxConsumed s \<ge> ss_rxLen s then ((MBEDTLS_ERR_SSL_WANT_READ, []), d)
             else
               let avail = ss_rxLen s - ss_rxConsumed s;
                   give = (if avail < len then avail else len)
               in ((int give, take give (drop (ss_rxConsumed s) (dt_rawBuf d))),
                   upd_session i (\<lambda>s. s\<lparr>ss_rxConsumed := ss_rxConsumed s + give\<rparr>) d))"

definition sTimerSet :: "u32 \<Rightarrow> u32 \<Rightarrow> u32 \<Rightarrow> dtls_timer \<Rightarrow> dtls_timer" where
  "sTimerSet now intMs finMs t =
     t\<lparr>tm_intMs := intMs, tm_finMs := finMs, tm_startMs := now, tm_armed := (finMs \<noteq> 0)\<rparr>"

definition sTimerGet :: "u32 \<Rightarrow> dtls_timer \<Rightarrow> int" where
  "sTimerGet now t =
     (if \<not> tm_armed t then - 1
      else
        let elapsed = now - tm_startMs t
        in if elapsed \<ge> tm_finMs t then 2
           else if elapsed \<ge> tm_intMs t then 1
           else 0)"

text \<open>A call of mbedTLS on the context of session \<open>i\<close>.\<close>

primrec run_ssl :: "nat \<Rightarrow> u32 \<Rightarrow> 'r ssl_prog \<Rightarrow> 'c dtls \<Rightarrow> 'r \<times> 'c dtls" where
  "run_ssl i now (Done r) = (\<lambda>d. (r, d))"
| "run_ssl i now (BioSend buf k) =
     (\<lambda>d. run_ssl i now (k (fst (sBioSend buf d))) (snd (sBioSend buf d)))"
| "run_ssl i now (BioRecv len k) =
     (\<lambda>d. run_ssl i now (k (fst (sBioRecv len d))) (snd (sBioRecv len d)))"
| "run_ssl i now (TimerSet intMs finMs p) =
     (\<lambda>d. run_ssl i now p (upd_session i (\<lambda>s. s\<lparr>ss_timer := sTimerSet now intMs finMs (ss_timer s)\<rparr>) d))"
| "run_ssl i now (TimerGet k) =
     (\<lambda>d. run_ssl i now (k (sTimerGet now (ss_timer (dt_sessions d ! i)))) d)"
| "run_ssl i now (PskCallback identity k) = (\<lambda>d. run_ssl i now (k (sPskCallback identity d)) d)"

section \<open>Sessions\<close>

definition findSession :: "endpoint \<Rightarrow> 'c dtls \<Rightarrow> nat option" where
  "findSession ep d = first_slot (\<lambda>s. ss_state s \<noteq> IDLE \<and> ep_eq (ss_peer s) ep) (dt_sessions d)"

definition resetSession :: "'c mbedtls \<Rightarrow> nat \<Rightarrow> 'c dtls \<Rightarrow> 'c dtls" where
  "resetSession mb i d =
     (let d1 = (if ss_state (dt_sessions d ! i) \<noteq> IDLE then d\<lparr>dt_live := dt_live d - 1\<rparr> else d)
      in upd_session i (\<lambda>s. zero_session mb) d1)"

definition set_peer :: "endpoint \<Rightarrow> nat \<Rightarrow> 'c dtls \<Rightarrow> 'c dtls" where
  "set_peer ep i d = upd_session i (\<lambda>s. s\<lparr>ss_peer := ep\<rparr>) d"

definition allocSession :: "'c mbedtls \<Rightarrow> endpoint \<Rightarrow> 'c dtls \<Rightarrow> nat option \<times> 'c dtls" where
  "allocSession mb ep d =
     (case first_slot (\<lambda>s. ss_state s = IDLE) (dt_sessions d) of
        Some i \<Rightarrow> (Some i, set_peer ep i d)
      | None \<Rightarrow>
          (case first_slot (\<lambda>s. ss_state s = FAILED) (dt_sessions d) of
             Some i \<Rightarrow> (Some i, set_peer ep i (resetSession mb i d))
           | None \<Rightarrow>
               (case first_slot (\<lambda>s. ss_state s = ESTABLISHED) (dt_sessions d) of
                  Some i \<Rightarrow> (Some i, set_peer ep i (resetSession mb i d))
                | None \<Rightarrow> (None, d))))"

definition initSession :: "'c mbedtls \<Rightarrow> u32 \<Rightarrow> nat \<Rightarrow> 'c dtls \<Rightarrow> bool \<times> 'c dtls" where
  "initSession mb now i d =
     (let (ok, c) = mb_setup mb (dt_isServer d) (dt_conf_psk d) (mb_init mb)
      in if \<not> ok then (False, upd_session i (\<lambda>s. s\<lparr>ss_ssl := c\<rparr>) d)
         else
           let peer = ss_peer (dt_sessions d ! i);
               cid = ip_address peer @ [hi_byte (ep_port peer), lo_byte (ep_port peer)];
               c' = (if dt_isServer d then mb_transport_id mb cid c else c)
           in (True,
               upd_session i (\<lambda>s. s\<lparr>ss_ssl := c', ss_state := HANDSHAKING, ss_handshakeStartMs := now\<rparr>)
                 (d\<lparr>dt_live := dt_live d + 1\<rparr>)))"

definition bufferTx :: "dtls_config \<Rightarrow> nat \<Rightarrow> bytes \<Rightarrow> 'c dtls \<Rightarrow> 'c dtls" where
  "bufferTx k i data d =
     (let n = (if length data < max_msg_size k then length data else max_msg_size k)
      in upd_session i (\<lambda>s. s\<lparr>ss_txBuf := take n data, ss_txPending := True\<rparr>) d)"

text \<open>What a return code of \<^verbatim>\<open>mbedtls_ssl_handshake\<close> makes of the state.\<close>

definition handshake_state :: "int \<Rightarrow> session_state \<Rightarrow> session_state" where
  "handshake_state ret st =
     (if ret = 0 then ESTABLISHED
      else if ret \<noteq> MBEDTLS_ERR_SSL_WANT_READ \<and> ret \<noteq> MBEDTLS_ERR_SSL_WANT_WRITE then FAILED
      else st)"

definition driveHandshake :: "'c mbedtls \<Rightarrow> u32 \<Rightarrow> nat \<Rightarrow> 'c dtls \<Rightarrow> 'c dtls" where
  "driveHandshake mb now i d =
     (let ((ret, c), d1) = run_ssl i now (mb_handshake mb (ss_ssl (dt_sessions d ! i))) d
      in upd_session i (\<lambda>s. s\<lparr>ss_ssl := c, ss_state := handshake_state ret (ss_state s)\<rparr>) d1)"

definition sslWrite :: "'c mbedtls \<Rightarrow> u32 \<Rightarrow> nat \<Rightarrow> bytes \<Rightarrow> 'c dtls \<Rightarrow> bool \<times> 'c dtls" where
  "sslWrite mb now i data d =
     (let ((n, c), d1) = run_ssl i now (mb_write mb data (ss_ssl (dt_sessions d ! i))) d
      in (n \<ge> 0 \<and> n = int (length data), upd_session i (\<lambda>s. s\<lparr>ss_ssl := c\<rparr>) d1))"

definition tick_session :: "'c mbedtls \<Rightarrow> dtls_config \<Rightarrow> u32 \<Rightarrow> nat \<Rightarrow> 'c dtls \<Rightarrow> 'c dtls" where
  "tick_session mb k now i d =
     (let s = dt_sessions d ! i
      in if ss_state s = HANDSHAKING \<and> now - ss_handshakeStartMs s > dtls_handshake_timeout_ms k
         then resetSession mb i d else d)"

definition tickTimeouts :: "'c mbedtls \<Rightarrow> dtls_config \<Rightarrow> u32 \<Rightarrow> 'c dtls \<Rightarrow> 'c dtls" where
  "tickTimeouts mb k now d = fold (tick_session mb k now) [0..<length (dt_sessions d)] d"

section \<open>The transport interface\<close>

definition dtls_begin :: "'c mbedtls \<Rightarrow> u16 \<Rightarrow> 'c dtls \<Rightarrow> bool \<times> 'c dtls" where
  "dtls_begin mb localPort d =
     (let d1 = d\<lparr>dt_conf_init := True\<rparr>;
          bind = (\<lambda>d. (arduino_begin localPort (dt_udp d), d\<lparr>dt_localPort := localPort\<rparr>))
      in if \<not> mb_seed mb then (False, d1)
         else if \<not> mb_defaults mb then (False, d1)
         else if dt_isServer d then
           let d2 = d1\<lparr>dt_cookie_init := True\<rparr>
           in if \<not> mb_cookie_setup mb then (False, d2) else bind d2
         else
           case firstPsk d1 of
             None \<Rightarrow> (False, d1)
           | Some e \<Rightarrow>
               if \<not> mb_conf_psk mb (psk_secret e) (pk_identity e) then (False, d1)
               else bind (d1\<lparr>dt_conf_psk := Some (pk_identity e, psk_secret e)\<rparr>))"

text \<open>The common part of the two calls: the session is current while mbedTLS runs.\<close>

definition dtls_send ::
    "'c mbedtls \<Rightarrow> dtls_config \<Rightarrow> u32 \<Rightarrow> endpoint \<Rightarrow> bytes \<Rightarrow> 'c dtls \<Rightarrow> bool \<times> 'c dtls" where
  "dtls_send mb k now to data d =
     (case findSession to d of
        None \<Rightarrow>
          (case allocSession mb to d of
             (None, d1) \<Rightarrow> (False, d1)
           | (Some i, d1) \<Rightarrow>
               let (ok, d2) = initSession mb now i d1
               in if \<not> ok then (False, resetSession mb i d2)
                  else
                    let d3 = bufferTx k i data d2;
                        d4 = driveHandshake mb now i (d3\<lparr>dt_current := Some i\<rparr>)
                    in (False, d4\<lparr>dt_current := None\<rparr>))
      | Some i \<Rightarrow>
          (case ss_state (dt_sessions d ! i) of
             HANDSHAKING \<Rightarrow>
               let d1 = driveHandshake mb now i ((bufferTx k i data d)\<lparr>dt_current := Some i\<rparr>);
                   s = dt_sessions d1 ! i
               in if ss_state s = ESTABLISHED \<and> ss_txPending s then
                    let (ok, d2) = sslWrite mb now i (ss_txBuf s) d1
                    in (ok, (upd_session i (\<lambda>s. s\<lparr>ss_txPending := False\<rparr>) d2)\<lparr>dt_current := None\<rparr>)
                  else (False, d1\<lparr>dt_current := None\<rparr>)
           | ESTABLISHED \<Rightarrow>
               let (ok, d1) = sslWrite mb now i data (d\<lparr>dt_current := Some i\<rparr>)
               in (ok, d1\<lparr>dt_current := None\<rparr>)
           | FAILED \<Rightarrow> (False, resetSession mb i d)
           | IDLE \<Rightarrow> (False, d)))"

text \<open>The second half of \<^verbatim>\<open>receive\<close>, once the session of the sender is known.\<close>

definition feed_session ::
    "'c mbedtls \<Rightarrow> u32 \<Rightarrow> nat \<Rightarrow> endpoint \<Rightarrow> nat \<Rightarrow> 'c dtls \<Rightarrow> (endpoint \<times> bytes) \<times> 'c dtls" where
  "feed_session mb now capacity rawFrom i d =
     (let d1 = (upd_session i (\<lambda>s. s\<lparr>ss_rxPtr := True, ss_rxLen := dt_rawLen d, ss_rxConsumed := 0\<rparr>) d)
                 \<lparr>dt_current := Some i\<rparr>;
          s = dt_sessions d1 ! i
      in if ss_state s = HANDSHAKING then
           let d2 = driveHandshake mb now i d1;
               s2 = dt_sessions d2 ! i;
               d3 = (if ss_state s2 = ESTABLISHED \<and> ss_txPending s2
                     then upd_session i (\<lambda>s. s\<lparr>ss_txPending := False\<rparr>)
                            (snd (sslWrite mb now i (ss_txBuf s2) d2))
                     else d2)
           in ((empty_endpoint, []), d3\<lparr>dt_current := None\<rparr>)
         else if ss_state s = ESTABLISHED then
           let ((r, c), d2) = run_ssl i now (mb_read mb capacity (ss_ssl s)) d1;
               d3 = (upd_session i (\<lambda>s. s\<lparr>ss_ssl := c\<rparr>) d2)\<lparr>dt_current := None\<rparr>
           in (case r of
                 Inl err \<Rightarrow> ((empty_endpoint, []), d3)
               | Inr data \<Rightarrow> if length data > 0 then ((rawFrom, data), d3)
                              else ((empty_endpoint, []), d3))
         else ((empty_endpoint, []), d1\<lparr>dt_current := None\<rparr>))"

text \<open>Finding or creating the session of a sender, whose record is in the raw buffer.\<close>

definition receive_record ::
    "'c mbedtls \<Rightarrow> u32 \<Rightarrow> nat \<Rightarrow> endpoint \<Rightarrow> 'c dtls \<Rightarrow> (endpoint \<times> bytes) \<times> 'c dtls" where
  "receive_record mb now capacity rawFrom d =
     (case findSession rawFrom d of
        Some i \<Rightarrow> feed_session mb now capacity rawFrom i d
      | None \<Rightarrow>
          if \<not> dt_isServer d then ((empty_endpoint, []), d)
          else case allocSession mb rawFrom d of
                 (None, d1) \<Rightarrow> ((empty_endpoint, []), d1)
               | (Some i, d1) \<Rightarrow>
                   let (ok, d2) = initSession mb now i d1
                   in if \<not> ok then ((empty_endpoint, []), resetSession mb i d2)
                      else feed_session mb now capacity rawFrom i d2)"

definition raw_peer :: "bytes \<Rightarrow> u16 \<Rightarrow> endpoint" where
  "raw_peer ip port = empty_endpoint\<lparr>ep_ip := ip, ep_port := port\<rparr>"

text \<open>Taking the record off the UDP object into the raw buffer.\<close>

definition read_record :: "bytes \<Rightarrow> 'c dtls \<Rightarrow> 'c dtls" where
  "read_record packet d =
     (let toRead = (if length packet < length (dt_rawBuf d) then length packet else length (dt_rawBuf d))
      in d\<lparr>dt_rawBuf := take toRead packet @ drop toRead (dt_rawBuf d), dt_rawLen := toRead\<rparr>)"

definition dtls_receive ::
    "'c mbedtls \<Rightarrow> dtls_config \<Rightarrow> u32 \<Rightarrow> nat \<Rightarrow> 'c dtls \<Rightarrow> (endpoint \<times> bytes) \<times> 'c dtls" where
  "dtls_receive mb k now capacity d0 =
     (let d = tickTimeouts mb k now d0
      in case ud_inbox (dt_udp d) of
           [] \<Rightarrow> ((empty_endpoint, []), d)
         | (ip, port, packet) # rest \<Rightarrow>
             let d1 = d\<lparr>dt_udp := (dt_udp d)\<lparr>ud_inbox := rest\<rparr>\<rparr>
             in if length packet \<le> 0 \<or> length (dt_rawBuf d1) \<le> 0 then ((empty_endpoint, []), d1)
                else receive_record mb now capacity (raw_peer ip port) (read_record packet d1))"

end
