(* ===== verification/Coap_Dtls_Inv.thy ===== *)
theory Coap_Dtls_Inv
  imports Coap_Dtls
begin

text \<open>
  What the session table of the DTLS adapter keeps, for every behaviour of mbedTLS: the
  callbacks only touch the UDP object, the timers and the read positions, so the states,
  peers and buffers are the adapter's own.
\<close>

section \<open>Updating one session\<close>

lemma length_upd_session [simp]: "length (dt_sessions (upd_session i f d)) = length (dt_sessions d)"
  by (simp add: upd_session_def)

lemma nth_upd_session [simp]:
  "i < length (dt_sessions d) \<Longrightarrow> dt_sessions (upd_session i f d) ! i = f (dt_sessions d ! i)"
  "j \<noteq> i \<Longrightarrow> dt_sessions (upd_session i f d) ! j = dt_sessions d ! j"
  by (simp_all add: upd_session_def)

text \<open>The fields that an update of a session leaves alone, in one tuple.\<close>

definition outside :: "'c dtls \<Rightarrow> bool \<times> u16 \<times> psk_entry list \<times> (bytes \<times> bytes) option \<times> bytes \<times> nat \<times>
    nat option \<times> int \<times> (bytes \<times> u16 \<times> bytes) list" where
  "outside d = (dt_isServer d, dt_localPort d, dt_pskStore d, dt_conf_psk d, dt_rawBuf d, dt_rawLen d,
     dt_current d, dt_live d, ud_inbox (dt_udp d))"

lemma outside_upd [simp]: "outside (upd_session i f d) = outside d"
  by (simp add: outside_def upd_session_def)

lemma dt_udp_upd [simp]: "dt_udp (upd_session i f d) = dt_udp d"
  by (simp add: upd_session_def)

lemma dt_fields_upd [simp]:
  "dt_current (upd_session i f d) = dt_current d" "dt_isServer (upd_session i f d) = dt_isServer d"
  "dt_rawBuf (upd_session i f d) = dt_rawBuf d" "dt_pskStore (upd_session i f d) = dt_pskStore d"
  "dt_rawLen (upd_session i f d) = dt_rawLen d"
  by (simp_all add: upd_session_def)

lemma dt_current_outside: "outside d' = outside d \<Longrightarrow> dt_current d' = dt_current d"
  by (simp add: outside_def)

section \<open>A call of mbedTLS\<close>

text \<open>The part of a session that no callback writes.\<close>

definition core :: "'c session \<Rightarrow> session_state \<times> endpoint \<times> 'c \<times> bytes \<times> bool \<times> bool \<times> nat \<times> u32" where
  "core s = (ss_state s, ss_peer s, ss_ssl s, ss_txBuf s, ss_txPending s, ss_rxPtr s, ss_rxLen s,
     ss_handshakeStartMs s)"

definition cores :: "'c dtls \<Rightarrow> (session_state \<times> endpoint \<times> 'c \<times> bytes \<times> bool \<times> bool \<times> nat \<times> u32) list" where
  "cores d = map core (dt_sessions d)"

lemma cores_upd:
  assumes "\<And>s. core (f s) = core s"
  shows "cores (upd_session i f d) = cores d"
  by (cases "i < length (dt_sessions d)")
    (simp_all add: cores_def upd_session_def map_update assms list_update_same_conv list_update_beyond)

lemma cores_length: "cores d' = cores d \<Longrightarrow> length (dt_sessions d') = length (dt_sessions d)"
  by (metis cores_def length_map)

lemma cores_nth: "cores d' = cores d \<Longrightarrow> i < length (dt_sessions d) \<Longrightarrow> core (dt_sessions d' ! i) = core (dt_sessions d ! i)"
  by (metis cores_def cores_length nth_map)

lemma sBioSend_frame:
  "cores (snd (sBioSend buf d)) = cores d \<and> outside (snd (sBioSend buf d)) = outside d"
  by (auto simp: sBioSend_def cores_def outside_def next_result_def Let_def split: option.split list.split)

lemma sBioRecv_frame:
  "cores (snd (sBioRecv len d)) = cores d \<and> outside (snd (sBioRecv len d)) = outside d"
  by (auto simp: sBioRecv_def Let_def cores_upd core_def split: option.split)

lemma run_ssl_frame:
  "cores (snd (run_ssl i now p d)) = cores d \<and> outside (snd (run_ssl i now p d)) = outside d"
proof (induction p arbitrary: d)
  case (TimerSet intMs finMs p)
  show ?case by (simp add: TimerSet cores_upd core_def)
qed (simp_all add: sBioSend_frame sBioRecv_frame)

lemma run_ssl_length: "length (dt_sessions (snd (run_ssl i now p d))) = length (dt_sessions d)"
  using run_ssl_frame cores_length by blast

text \<open>Everything mbedTLS emits goes to the peer of the current session.\<close>

definition emitted :: "endpoint \<Rightarrow> 'c dtls \<Rightarrow> 'c dtls \<Rightarrow> bool" where
  "emitted ep d d' \<longleftrightarrow>
     (\<exists>bs. ud_sent (dt_udp d') = ud_sent (dt_udp d) @ map (\<lambda>b. (ip_address ep, ep_port ep, b)) bs)"

lemma emitted_same: "ud_sent (dt_udp d') = ud_sent (dt_udp d) \<Longrightarrow> emitted ep d d'"
  unfolding emitted_def by (rule exI [of _ "[]"]) simp

lemma emitted_trans:
  assumes "emitted ep d d'" "emitted ep d' d''"
  shows "emitted ep d d''"
proof -
  obtain bs bs' where "ud_sent (dt_udp d') = ud_sent (dt_udp d) @ map (\<lambda>b. (ip_address ep, ep_port ep, b)) bs"
      "ud_sent (dt_udp d'') = ud_sent (dt_udp d') @ map (\<lambda>b. (ip_address ep, ep_port ep, b)) bs'"
    using assms by (auto simp: emitted_def)
  then show ?thesis unfolding emitted_def by (intro exI [of _ "bs @ bs'"]) simp
qed

lemma sBioSend_emitted:
  assumes "dt_current d = Some i" "ss_peer (dt_sessions d ! i) = ep"
  shows "emitted ep d (snd (sBioSend buf d))"
proof -
  obtain r u where r: "next_result buf (dt_udp d) = (r, u)" by fastforce
  have u: "ud_sent u = ud_sent (dt_udp d)"
    using r by (auto simp: next_result_def split: list.splits)
  show ?thesis
  proof (cases "pr_begin r \<and> pr_end r")
    case True
    with assms r u show ?thesis
      unfolding emitted_def
      by (intro exI [of _ "[take (pr_written r) buf]"]) (simp add: sBioSend_def)
  next
    case False
    with assms r u show ?thesis by (intro emitted_same) (auto simp: sBioSend_def)
  qed
qed

lemma run_ssl_emitted:
  assumes "dt_current d = Some i" "i < length (dt_sessions d)" "ss_peer (dt_sessions d ! i) = ep"
  shows "emitted ep d (snd (run_ssl i now p d))"
  using assms
proof (induction p arbitrary: d)
  case (BioSend buf k)
  let ?d = "snd (sBioSend buf d)"
  have "dt_current ?d = Some i" "length (dt_sessions ?d) = length (dt_sessions d)"
      "core (dt_sessions ?d ! i) = core (dt_sessions d ! i)"
    using sBioSend_frame [of buf d] BioSend.prems dt_current_outside [of ?d d] cores_length [of ?d d]
      cores_nth [of ?d d i] by simp_all
  with BioSend.prems have "emitted ep ?d (snd (run_ssl i now (k (fst (sBioSend buf d))) ?d))"
    by (intro BioSend.IH) (simp_all add: core_def)
  with sBioSend_emitted [OF BioSend.prems(1,3)] show ?case by (auto intro: emitted_trans)
next
  case (BioRecv len k)
  let ?d = "snd (sBioRecv len d)"
  have "dt_current ?d = Some i" "length (dt_sessions ?d) = length (dt_sessions d)"
      "core (dt_sessions ?d ! i) = core (dt_sessions d ! i)"
    using sBioRecv_frame [of len d] BioRecv.prems dt_current_outside [of ?d d] cores_length [of ?d d]
      cores_nth [of ?d d i] by simp_all
  with BioRecv.prems have "emitted ep ?d (snd (run_ssl i now (k (fst (sBioRecv len d))) ?d))"
    by (intro BioRecv.IH) (simp_all add: core_def)
  moreover have "emitted ep d ?d"
    by (rule emitted_same) (auto simp: sBioRecv_def Let_def split: option.split)
  ultimately show ?case by (auto intro: emitted_trans)
next
  case (TimerSet intMs finMs p)
  let ?f = "\<lambda>s. s\<lparr>ss_timer := sTimerSet now intMs finMs (ss_timer s)\<rparr>"
  have "emitted ep (upd_session i ?f d) (snd (run_ssl i now p (upd_session i ?f d)))"
    using TimerSet.prems by (intro TimerSet.IH) simp_all
  moreover have "emitted ep d (upd_session i ?f d)"
    by (rule emitted_same) simp
  ultimately show ?case by (auto intro: emitted_trans)
qed (simp_all add: emitted_same)

section \<open>The session table\<close>

definition distinct_peers :: "'c session list \<Rightarrow> bool" where
  "distinct_peers ss \<longleftrightarrow>
     (\<forall>i < length ss. \<forall>j < length ss.
        in_use (ss ! i) \<and> in_use (ss ! j) \<and> ep_eq (ss_peer (ss ! i)) (ss_peer (ss ! j)) \<longrightarrow> i = j)"

definition table_inv :: "dtls_config \<Rightarrow> 'c dtls \<Rightarrow> bool" where
  "table_inv k d \<longleftrightarrow>
     length (dt_sessions d) = dtls_max_sessions k \<and> distinct_peers (dt_sessions d) \<and>
     (\<forall>s \<in> set (dt_sessions d). length (ss_txBuf s) \<le> max_msg_size k) \<and>
     dt_live d = int (occupancy in_use (dt_sessions d))"

definition dtls_inv :: "dtls_config \<Rightarrow> 'c dtls \<Rightarrow> bool" where
  "dtls_inv k d \<longleftrightarrow> table_inv k d \<and> dt_current d = None"

lemma table_inv_cong:
  "dt_sessions d' = dt_sessions d \<Longrightarrow> dt_live d' = dt_live d \<Longrightarrow> table_inv k d' = table_inv k d"
  by (simp add: table_inv_def)

lemma occupancy_update_same:
  assumes "P y = P (xs ! i)"
  shows "occupancy P (xs[i := y]) = occupancy P xs"
proof (cases "i < length xs")
  case True
  from occupancy_update [OF this, of P y] assms show ?thesis by (simp split: if_splits)
qed (simp add: list_update_beyond)

lemma set_update_cases:
  "x \<in> set (xs[i := y]) \<Longrightarrow> x = y \<and> i < length xs \<or> x \<in> set xs"
  by (metis in_set_conv_nth length_list_update list_update_beyond not_le_imp_less nth_list_update)

text \<open>An update that keeps whether the slot is in use, and its peer while it is.\<close>

lemma table_inv_upd:
  assumes "table_inv k d" "i < length (dt_sessions d)"
    and "in_use (f (dt_sessions d ! i)) = in_use (dt_sessions d ! i)"
    and "in_use (dt_sessions d ! i) \<Longrightarrow> ss_peer (f (dt_sessions d ! i)) = ss_peer (dt_sessions d ! i)"
    and "length (ss_txBuf (f (dt_sessions d ! i))) \<le> max_msg_size k"
  shows "table_inv k (upd_session i f d)"
proof -
  let ?ss = "dt_sessions d" and ?ss' = "(dt_sessions d)[i := f (dt_sessions d ! i)]"
  have same: "in_use (?ss' ! j) = in_use (?ss ! j)"
      "in_use (?ss ! j) \<Longrightarrow> ss_peer (?ss' ! j) = ss_peer (?ss ! j)" if "j < length ?ss" for j
    using assms(3,4) that by (cases "j = i"; simp)+
  have "distinct_peers ?ss'"
    using assms(1) same unfolding table_inv_def distinct_peers_def by (simp (no_asm_use)) metis
  moreover have "\<forall>s \<in> set ?ss'. length (ss_txBuf s) \<le> max_msg_size k"
    using assms(1,5) by (auto simp: table_inv_def dest: set_update_cases)
  ultimately show ?thesis
    using assms(1,3) occupancy_update_same [of in_use "f (?ss ! i)" ?ss i]
    by (simp add: table_inv_def upd_session_def)
qed

lemma core_fields:
  "core s' = core s \<Longrightarrow> ss_state s' = ss_state s \<and> ss_peer s' = ss_peer s \<and> ss_txBuf s' = ss_txBuf s \<and>
    ss_txPending s' = ss_txPending s \<and> ss_ssl s' = ss_ssl s \<and> in_use s' = in_use s \<and>
    ss_handshakeStartMs s' = ss_handshakeStartMs s"
  by (simp add: core_def in_use_def)

lemma table_inv_cores:
  "table_inv k d \<longleftrightarrow>
     length (cores d) = dtls_max_sessions k \<and>
     (\<forall>i < length (cores d). \<forall>j < length (cores d).
        fst (cores d ! i) \<noteq> IDLE \<and> fst (cores d ! j) \<noteq> IDLE \<and>
        ep_eq (fst (snd (cores d ! i))) (fst (snd (cores d ! j))) \<longrightarrow> i = j) \<and>
     (\<forall>c \<in> set (cores d). length (fst (snd (snd (snd c)))) \<le> max_msg_size k) \<and>
     dt_live d = int (length (filter (\<lambda>c. fst c \<noteq> IDLE) (cores d)))"
proof -
  have "occupancy in_use (dt_sessions d) = length (filter (\<lambda>c. fst c \<noteq> IDLE) (cores d))"
    by (simp add: occupancy_def cores_def filter_map o_def core_def in_use_def [abs_def])
  then show ?thesis
    by (simp add: table_inv_def distinct_peers_def in_use_def cores_def core_def)
qed

lemma table_inv_frame:
  "table_inv k d \<Longrightarrow> cores d' = cores d \<Longrightarrow> dt_live d' = dt_live d \<Longrightarrow> table_inv k d'"
  by (simp add: table_inv_cores)

lemma table_inv_run_ssl:
  assumes "table_inv k d"
  shows "table_inv k (snd (run_ssl i now p d))"
  by (rule table_inv_frame [OF assms]) (use run_ssl_frame [of i now p d] in \<open>simp_all add: outside_def\<close>)

section \<open>Finding, freeing and claiming a session\<close>

lemma findSession_SomeD:
  assumes "findSession ep d = Some i"
  shows "i < length (dt_sessions d)" "in_use (dt_sessions d ! i)" "ep_eq (ss_peer (dt_sessions d ! i)) ep"
  using first_slot_SomeD [OF assms [unfolded findSession_def]] by (simp_all add: in_use_def)

lemma findSession_NoneD:
  "findSession ep d = None \<Longrightarrow> j < length (dt_sessions d) \<Longrightarrow> in_use (dt_sessions d ! j) \<Longrightarrow>
   \<not> ep_eq (ss_peer (dt_sessions d ! j)) ep"
  using nth_mem by (fastforce simp: findSession_def first_slot_None_iff in_use_def)

lemma findSession_NoneI:
  "(\<And>j. j < length (dt_sessions d) \<Longrightarrow> in_use (dt_sessions d ! j) \<Longrightarrow>
     \<not> ep_eq (ss_peer (dt_sessions d ! j)) ep) \<Longrightarrow> findSession ep d = None"
  by (auto simp: findSession_def first_slot_None_iff in_use_def in_set_conv_nth)

lemma zero_session_idle [simp]:
  "\<not> in_use (zero_session mb)" "ss_state (zero_session mb) = IDLE" "ss_txBuf (zero_session mb) = []"
  by (simp_all add: zero_session_def in_use_def)

lemma resetSession_simps [simp]:
  "length (dt_sessions (resetSession mb i d)) = length (dt_sessions d)"
  "dt_udp (resetSession mb i d) = dt_udp d"
  "dt_current (resetSession mb i d) = dt_current d"
  "dt_isServer (resetSession mb i d) = dt_isServer d"
  "dt_pskStore (resetSession mb i d) = dt_pskStore d"
  "j \<noteq> i \<Longrightarrow> dt_sessions (resetSession mb i d) ! j = dt_sessions d ! j"
  "i < length (dt_sessions d) \<Longrightarrow> dt_sessions (resetSession mb i d) ! i = zero_session mb"
  by (simp_all add: resetSession_def upd_session_def Let_def)

lemma table_inv_reset:
  assumes "table_inv k d" "i < length (dt_sessions d)"
  shows "table_inv k (resetSession mb i d)"
proof -
  let ?ss = "dt_sessions d" and ?ss' = "(dt_sessions d)[i := zero_session mb]"
  have used: "in_use (?ss' ! j) \<Longrightarrow> j \<noteq> i \<and> in_use (?ss ! j) \<and> ?ss' ! j = ?ss ! j" if "j < length ?ss" for j
    using assms(2) that by (cases "j = i") simp_all
  have "distinct_peers ?ss'"
    using assms(1) used unfolding table_inv_def distinct_peers_def by (simp (no_asm_use)) metis
  moreover have "\<forall>s \<in> set ?ss'. length (ss_txBuf s) \<le> max_msg_size k"
    using assms(1) by (auto simp: table_inv_def dest: set_update_cases)
  ultimately show ?thesis
    using assms occupancy_update [OF assms(2), of in_use "zero_session mb"]
    by (auto simp: table_inv_def resetSession_def upd_session_def in_use_def Let_def split: if_splits)
qed

text \<open>A slot that \<^verbatim>\<open>allocSession\<close> has just handed out for a peer with no session.\<close>

definition fresh_slot :: "endpoint \<Rightarrow> nat \<Rightarrow> 'c dtls \<Rightarrow> bool" where
  "fresh_slot ep i d \<longleftrightarrow>
     i < length (dt_sessions d) \<and> \<not> in_use (dt_sessions d ! i) \<and> ss_peer (dt_sessions d ! i) = ep \<and>
     findSession ep d = None"

lemma table_inv_set_peer:
  "table_inv k d \<Longrightarrow> i < length (dt_sessions d) \<Longrightarrow> \<not> in_use (dt_sessions d ! i) \<Longrightarrow>
   table_inv k (set_peer ep i d)"
  unfolding set_peer_def by (rule table_inv_upd) (auto simp: in_use_def table_inv_def)

lemma fresh_slot_set_peer:
  assumes "i < length (dt_sessions d)" "\<not> in_use (dt_sessions d ! i)" "findSession ep d = None"
  shows "fresh_slot ep i (set_peer ep i d)"
proof -
  have "findSession ep (set_peer ep i d) = None"
  proof (rule findSession_NoneI)
    fix j
    assume "j < length (dt_sessions (set_peer ep i d))" "in_use (dt_sessions (set_peer ep i d) ! j)"
    with assms findSession_NoneD [OF assms(3), of j]
    show "\<not> ep_eq (ss_peer (dt_sessions (set_peer ep i d) ! j)) ep"
      by (cases "j = i") (auto simp: set_peer_def in_use_def)
  qed
  with assms show ?thesis by (simp add: fresh_slot_def set_peer_def in_use_def)
qed

lemma findSession_reset:
  assumes "findSession ep d = None" "i < length (dt_sessions d)"
  shows "findSession ep (resetSession mb i d) = None"
proof (rule findSession_NoneI)
  fix j
  assume "j < length (dt_sessions (resetSession mb i d))" "in_use (dt_sessions (resetSession mb i d) ! j)"
  with assms findSession_NoneD [OF assms(1), of j]
  show "\<not> ep_eq (ss_peer (dt_sessions (resetSession mb i d) ! j)) ep"
    by (cases "j = i") auto
qed

lemma allocSession_SomeD:
  assumes "table_inv k d" "findSession ep d = None" "allocSession mb ep d = (Some i, d')"
  shows "table_inv k d'" "fresh_slot ep i d'"
    and "dt_udp d' = dt_udp d" "dt_current d' = dt_current d" "dt_isServer d' = dt_isServer d"
proof -
  obtain d1 where d1: "d' = set_peer ep i d1" "table_inv k d1" "i < length (dt_sessions d1)"
      "\<not> in_use (dt_sessions d1 ! i)" "findSession ep d1 = None"
      "dt_udp d1 = dt_udp d" "dt_current d1 = dt_current d" "dt_isServer d1 = dt_isServer d"
  proof (cases "first_slot (\<lambda>s. ss_state s = IDLE) (dt_sessions d)")
    case None
    with assms(3) obtain st where "first_slot (\<lambda>s. ss_state s = st) (dt_sessions d) = Some i"
        "d' = set_peer ep i (resetSession mb i d)"
      by (auto simp: allocSession_def split: option.splits)
    moreover from this have "i < length (dt_sessions d)" by (simp add: first_slot_lt)
    ultimately show thesis
      using assms(1,2) that [of "resetSession mb i d"] by (simp add: table_inv_reset findSession_reset)
  next
    case (Some j)
    with assms that [of d] first_slot_SomeD [OF Some] show thesis
      by (auto simp: allocSession_def in_use_def)
  qed
  show "table_inv k d'" using d1 by (simp add: table_inv_set_peer)
  show "fresh_slot ep i d'" using d1 by (simp add: fresh_slot_set_peer)
  show "dt_udp d' = dt_udp d" "dt_current d' = dt_current d" "dt_isServer d' = dt_isServer d"
    using d1 by (simp_all add: set_peer_def upd_session_def)
qed

lemma allocSession_NoneD: "allocSession mb ep d = (None, d') \<Longrightarrow> d' = d"
  by (auto simp: allocSession_def split: option.splits)

text \<open>Every slot is taken by a handshake when there is none to hand out.\<close>

lemma allocSession_full:
  assumes "allocSession mb ep d = (None, d')" "s \<in> set (dt_sessions d)"
  shows "ss_state s = HANDSHAKING"
  using assms by (cases "ss_state s") (auto simp: allocSession_def first_slot_None_iff split: option.splits)

section \<open>Steps on one session\<close>

lemma initSession_simps [simp]:
  "dt_udp (snd (initSession mb now i d)) = dt_udp d"
  "dt_current (snd (initSession mb now i d)) = dt_current d"
  "length (dt_sessions (snd (initSession mb now i d))) = length (dt_sessions d)"
  by (simp_all add: initSession_def Let_def split: prod.split)

lemma table_inv_live:
  assumes "table_inv k d" "fresh_slot ep i d"
    and "in_use (f (dt_sessions d ! i))" "ss_peer (f (dt_sessions d ! i)) = ep"
    and "ss_txBuf (f (dt_sessions d ! i)) = ss_txBuf (dt_sessions d ! i)"
  shows "table_inv k (upd_session i f (d\<lparr>dt_live := dt_live d + 1\<rparr>))"
proof -
  let ?ss = "dt_sessions d" and ?y = "f (dt_sessions d ! i)"
  have i: "i < length ?ss" "\<not> in_use (?ss ! i)" "findSession ep d = None"
    using assms(2) by (simp_all add: fresh_slot_def)
  have far: "\<not> ep_eq (ss_peer (?ss ! j)) ep" "\<not> ep_eq ep (ss_peer (?ss ! j))"
    if "j < length ?ss" "in_use (?ss ! j)" for j
    using findSession_NoneD [OF i(3) that] ep_eq_sym by blast+
  have "a = b" if "a < length ?ss" "b < length ?ss" "in_use (?ss[i := ?y] ! a)" "in_use (?ss[i := ?y] ! b)"
      "ep_eq (ss_peer (?ss[i := ?y] ! a)) (ss_peer (?ss[i := ?y] ! b))" for a b
  proof -
    consider "a = i" "b = i" | "a = i" "b \<noteq> i" | "a \<noteq> i" "b = i" | "a \<noteq> i" "b \<noteq> i" by blast
    then show ?thesis
    proof cases
      case 4
      with that assms(1) show ?thesis by (auto simp: table_inv_def distinct_peers_def)
    qed (use that i far assms(4) in auto)
  qed
  then have "distinct_peers (?ss[i := ?y])" by (auto simp: distinct_peers_def)
  moreover have "\<forall>s \<in> set (?ss[i := ?y]). length (ss_txBuf s) \<le> max_msg_size k"
    using assms(1,5) i by (auto simp: table_inv_def dest!: set_update_cases)
  ultimately show ?thesis
    using assms(1,3) i occupancy_update [OF i(1), of in_use ?y]
    by (simp add: table_inv_def upd_session_def)
qed

lemma initSession_True:
  assumes "table_inv k d" "fresh_slot ep i d" "initSession mb now i d = (True, d')"
  shows "table_inv k d'" "dt_sessions d' ! i = (dt_sessions d ! i)
    \<lparr>ss_ssl := ss_ssl (dt_sessions d' ! i), ss_state := HANDSHAKING, ss_handshakeStartMs := now\<rparr>"
proof -
  obtain c' where d': "d' = upd_session i (\<lambda>s. s\<lparr>ss_ssl := c', ss_state := HANDSHAKING,
      ss_handshakeStartMs := now\<rparr>) (d\<lparr>dt_live := dt_live d + 1\<rparr>)"
    using assms(3) by (auto simp: initSession_def Let_def split: prod.splits if_splits)
  show "table_inv k d'"
    unfolding d' by (rule table_inv_live [OF assms(1,2)]) (use assms(2) in \<open>simp_all add: in_use_def fresh_slot_def\<close>)
  show "dt_sessions d' ! i = (dt_sessions d ! i)
    \<lparr>ss_ssl := ss_ssl (dt_sessions d' ! i), ss_state := HANDSHAKING, ss_handshakeStartMs := now\<rparr>"
    using assms(2) by (simp add: d' fresh_slot_def)
qed

lemma initSession_False:
  assumes "table_inv k d" "fresh_slot ep i d" "initSession mb now i d = (False, d')"
  shows "table_inv k (resetSession mb i d')"
proof -
  obtain c where d': "d' = upd_session i (\<lambda>s. s\<lparr>ss_ssl := c\<rparr>) d"
    using assms(3) by (auto simp: initSession_def Let_def split: prod.splits if_splits)
  have "table_inv k d'"
    unfolding d' by (rule table_inv_upd [OF assms(1)])
      (use assms(1,2) in \<open>auto simp: fresh_slot_def in_use_def table_inv_def\<close>)
  then show ?thesis
    by (rule table_inv_reset) (use assms(2) in \<open>simp add: fresh_slot_def d'\<close>)
qed

lemma table_inv_current [simp]: "table_inv k (d\<lparr>dt_current := c\<rparr>) = table_inv k d"
  by (simp add: table_inv_def)

lemma table_inv_bufferTx:
  "table_inv k d \<Longrightarrow> i < length (dt_sessions d) \<Longrightarrow> table_inv k (bufferTx k i data d)"
  unfolding bufferTx_def Let_def by (rule table_inv_upd) (simp_all add: in_use_def)

lemma bufferTx_simps [simp]:
  "length (dt_sessions (bufferTx k i data d)) = length (dt_sessions d)"
  "dt_udp (bufferTx k i data d) = dt_udp d"
  "dt_current (bufferTx k i data d) = dt_current d"
  "i < length (dt_sessions d) \<Longrightarrow> dt_sessions (bufferTx k i data d) ! i =
     (dt_sessions d ! i)\<lparr>ss_txBuf := take (max_msg_size k) data, ss_txPending := True\<rparr>"
  by (simp_all add: bufferTx_def Let_def)

text \<open>
  \<open>session_step ep i d d'\<close>: a step on session \<open>i\<close>, which is current, for the peer \<open>ep\<close>. It
  keeps the table and the session's peer and buffer, and emits only to that peer.
\<close>

definition session_step :: "dtls_config \<Rightarrow> nat \<Rightarrow> 'c dtls \<Rightarrow> 'c dtls \<Rightarrow> bool" where
  "session_step k i d d' \<longleftrightarrow>
     (table_inv k d \<longrightarrow> table_inv k d') \<and> length (dt_sessions d') = length (dt_sessions d) \<and>
     in_use (dt_sessions d' ! i) \<and> ss_peer (dt_sessions d' ! i) = ss_peer (dt_sessions d ! i) \<and>
     ss_txBuf (dt_sessions d' ! i) = ss_txBuf (dt_sessions d ! i) \<and>
     dt_current d' = dt_current d \<and> dt_isServer d' = dt_isServer d \<and>
     ud_inbox (dt_udp d') = ud_inbox (dt_udp d) \<and>
     emitted (ss_peer (dt_sessions d ! i)) d d'"

lemma run_ssl_core:
  "i < length (dt_sessions d) \<Longrightarrow>
   core (dt_sessions (snd (run_ssl j now p d)) ! i) = core (dt_sessions d ! i)"
  using run_ssl_frame cores_nth by blast

lemma emitted_sessions_upd: "emitted ep d (upd_session i f d') = emitted ep d d'"
  by (simp add: emitted_def)

lemma session_step_ssl:
  assumes "i < length (dt_sessions d)" "in_use (dt_sessions d ! i)" "dt_current d = Some i"
    and f: "\<And>s. in_use s \<Longrightarrow> in_use (f s) \<and> ss_peer (f s) = ss_peer s \<and> ss_txBuf (f s) = ss_txBuf s"
  shows "session_step k i d (upd_session i f (snd (run_ssl i now p d)))"
proof -
  let ?d1 = "snd (run_ssl i now p d)"
  have c: "core (dt_sessions ?d1 ! i) = core (dt_sessions d ! i)" by (rule run_ssl_core [OF assms(1)])
  note cf = core_fields [OF c]
  have o: "outside ?d1 = outside d" using run_ssl_frame by blast
  have "table_inv k (upd_session i f ?d1)" if "table_inv k d"
  proof (rule table_inv_upd [OF table_inv_run_ssl [OF that]])
    show "length (ss_txBuf (f (dt_sessions ?d1 ! i))) \<le> max_msg_size k"
      using f [of "dt_sessions ?d1 ! i"] cf assms(1,2) that by (simp add: table_inv_def)
  qed (use assms f cf in \<open>simp_all add: run_ssl_length\<close>)
  moreover have "emitted (ss_peer (dt_sessions d ! i)) d ?d1"
    by (rule run_ssl_emitted [OF assms(3,1) refl])
  ultimately show ?thesis
    using assms(1,2) f [of "dt_sessions ?d1 ! i"] cf o
    by (simp add: session_step_def run_ssl_length emitted_sessions_upd) (simp add: outside_def)
qed

lemma handshake_state_in_use: "st \<noteq> IDLE \<Longrightarrow> handshake_state ret st \<noteq> IDLE"
  by (simp add: handshake_state_def)

lemma session_step_drive:
  assumes "i < length (dt_sessions d)" "in_use (dt_sessions d ! i)" "dt_current d = Some i"
  shows "session_step k i d (driveHandshake mb now i d)"
  unfolding driveHandshake_def
  using session_step_ssl [OF assms, of _ k now "mb_handshake mb (ss_ssl (dt_sessions d ! i))"]
  by (simp add: split_beta in_use_def handshake_state_in_use)

lemma session_step_write:
  assumes "i < length (dt_sessions d)" "in_use (dt_sessions d ! i)" "dt_current d = Some i"
  shows "session_step k i d (snd (sslWrite mb now i data d))"
  unfolding sslWrite_def
  using session_step_ssl [OF assms, of _ k now "mb_write mb data (ss_ssl (dt_sessions d ! i))"]
  by (simp add: split_beta in_use_def)

lemma session_step_upd:
  assumes "i < length (dt_sessions d)" "in_use (dt_sessions d ! i)" "dt_current d = Some i"
    and "\<And>s. in_use s \<Longrightarrow> in_use (f s) \<and> ss_peer (f s) = ss_peer s \<and> ss_txBuf (f s) = ss_txBuf s"
  shows "session_step k i d (upd_session i f d)"
  using session_step_ssl [OF assms, of k now "Done ()"] by simp

lemma session_step_trans:
  assumes "session_step k i d d'" "session_step k i d' d''"
  shows "session_step k i d d''"
  using assms by (auto simp: session_step_def intro: emitted_trans)

text \<open>The states that \<open>session_step_drive\<close> and its companions start from.\<close>

lemma session_step_next:
  assumes "session_step k i d d'" "i < length (dt_sessions d)" "dt_current d = Some i"
  shows "i < length (dt_sessions d')" "in_use (dt_sessions d' ! i)" "dt_current d' = Some i"
  using assms by (simp_all add: session_step_def)

section \<open>The three calls\<close>

lemma table_inv_tick:
  "table_inv k d \<Longrightarrow> i < length (dt_sessions d) \<Longrightarrow> table_inv k (tick_session mb k now i d)"
  by (auto simp: tick_session_def Let_def intro: table_inv_reset)

lemma tick_session_length [simp]:
  "length (dt_sessions (tick_session mb k now i d)) = length (dt_sessions d)"
  by (simp add: tick_session_def Let_def)

lemma tickTimeouts_frame:
  "length (dt_sessions (tickTimeouts mb k now d)) = length (dt_sessions d) \<and>
   dt_udp (tickTimeouts mb k now d) = dt_udp d \<and> dt_current (tickTimeouts mb k now d) = dt_current d \<and>
   dt_isServer (tickTimeouts mb k now d) = dt_isServer d"
proof -
  have "length (dt_sessions (fold (tick_session mb k now) is d)) = length (dt_sessions d) \<and>
      dt_udp (fold (tick_session mb k now) is d) = dt_udp d \<and>
      dt_current (fold (tick_session mb k now) is d) = dt_current d \<and>
      dt_isServer (fold (tick_session mb k now) is d) = dt_isServer d" for "is"
    by (induction "is" arbitrary: d) (simp_all add: tick_session_def Let_def)
  then show ?thesis by (simp add: tickTimeouts_def)
qed

lemma table_inv_tickTimeouts:
  assumes "table_inv k d"
  shows "table_inv k (tickTimeouts mb k now d)"
proof -
  let ?P = "\<lambda>e. table_inv k e \<and> length (dt_sessions e) = length (dt_sessions d)"
  have "?P (fold (tick_session mb k now) [0..<length (dt_sessions d)] d)"
    by (rule fold_inv) (use assms in \<open>auto intro: table_inv_tick\<close>)
  then show ?thesis by (simp add: tickTimeouts_def)
qed

lemma emitted_refl [simp]: "emitted ep d d"
  by (rule emitted_same) simp

lemma emitted_current [simp]:
  "emitted ep (d\<lparr>dt_current := c\<rparr>) d' = emitted ep d d'"
  "emitted ep d (d'\<lparr>dt_current := c\<rparr>) = emitted ep d d'"
  by (simp_all add: emitted_def)

lemma session_step_emitted:
  assumes "session_step k i d1 d2" "ud_sent (dt_udp d1) = ud_sent (dt_udp d)" "ss_peer (dt_sessions d1 ! i) = ep"
  shows "emitted ep d d2"
  using assms by (auto simp: session_step_def emitted_def)

lemma dtls_send_new:
  assumes "dtls_inv k d" "findSession to d = None"
  shows "dtls_inv k (snd (dtls_send mb k now to data d)) \<and> emitted to d (snd (dtls_send mb k now to data d))"
proof (cases "allocSession mb to d")
  case (Pair slot d1)
  show ?thesis
  proof (cases slot)
    case None
    with Pair assms show ?thesis by (auto simp: dtls_send_def dest!: allocSession_NoneD)
  next
    case (Some i)
    have t: "table_inv k d" and c: "dt_current d = None" using assms(1) by (simp_all add: dtls_inv_def)
    note a = allocSession_SomeD [OF t assms(2) Pair [unfolded Some]]
    obtain ok d2 where d2: "initSession mb now i d1 = (ok, d2)" by fastforce
    have f: "dt_udp d2 = dt_udp d" "dt_current d2 = None" "length (dt_sessions d2) = length (dt_sessions d1)"
      using initSession_simps [of mb now i d1] d2 a c by simp_all
    show ?thesis
    proof (cases ok)
      case True
      then have "initSession mb now i d1 = (True, d2)" using d2 by simp
      note n = initSession_True [OF a(1,2) this]
      let ?d3 = "(bufferTx k i data d2)\<lparr>dt_current := Some i\<rparr>"
      have i: "i < length (dt_sessions d2)" using a(2) f by (simp add: fresh_slot_def)
      have u: "in_use (dt_sessions d2 ! i)" by (subst n(2)) (simp add: in_use_def)
      have p: "ss_peer (dt_sessions d2 ! i) = to" using a(2) by (subst n(2)) (simp add: fresh_slot_def)
      have s: "session_step k i ?d3 (driveHandshake mb now i ?d3)"
        by (rule session_step_drive) (use i u in \<open>simp_all add: in_use_def\<close>)
      have "table_inv k (driveHandshake mb now i ?d3)"
        using s table_inv_bufferTx [OF n(1) i] by (simp add: session_step_def)
      moreover have "emitted to d (driveHandshake mb now i ?d3)"
        by (rule session_step_emitted [OF s]) (use f i p in simp_all)
      ultimately show ?thesis
        using Pair Some d2 True assms(2) by (simp add: dtls_send_def dtls_inv_def)
    next
      case False
      then have "initSession mb now i d1 = (False, d2)" using d2 by simp
      then show ?thesis
        using Pair Some assms(2) f initSession_False [OF a(1,2)]
        by (simp add: dtls_send_def dtls_inv_def emitted_same)
    qed
  qed
qed

lemma dtls_send_known:
  assumes "dtls_inv k d" "findSession to d = Some i"
  shows "dtls_inv k (snd (dtls_send mb k now to data d)) \<and>
    emitted (ss_peer (dt_sessions d ! i)) d (snd (dtls_send mb k now to data d))"
proof -
  have t: "table_inv k d" and c: "dt_current d = None" using assms(1) by (simp_all add: dtls_inv_def)
  note i = findSession_SomeD [OF assms(2)]
  show ?thesis
  proof (cases "ss_state (dt_sessions d ! i)")
    case IDLE
    with i show ?thesis by (simp add: in_use_def)
  next
    case HANDSHAKING
    let ?d1 = "(bufferTx k i data d)\<lparr>dt_current := Some i\<rparr>"
    let ?d2 = "driveHandshake mb now i ?d1" and ?clear = "upd_session i (\<lambda>s. s\<lparr>ss_txPending := False\<rparr>)"
    have s1: "i < length (dt_sessions ?d1)" "in_use (dt_sessions ?d1 ! i)" "dt_current ?d1 = Some i"
      using i by (simp_all add: in_use_def)
    have s2: "session_step k i ?d1 ?d2" by (rule session_step_drive [OF s1])
    have s4: "session_step k i ?d1 (?clear (snd (sslWrite mb now i w ?d2)))" for w
    proof -
      note n2 = session_step_next [OF s2 s1(1,3)]
      have s3: "session_step k i ?d2 (snd (sslWrite mb now i w ?d2))" by (rule session_step_write [OF n2])
      have "session_step k i (snd (sslWrite mb now i w ?d2)) (?clear (snd (sslWrite mb now i w ?d2)))"
        by (rule session_step_upd [OF session_step_next [OF s3 n2(1,3)]]) (simp add: in_use_def)
      with s2 s3 show ?thesis by (blast intro: session_step_trans)
    qed
    have fin: "table_inv k d'" "emitted (ss_peer (dt_sessions d ! i)) d d'" if "session_step k i ?d1 d'" for d'
      using that table_inv_bufferTx [OF t i(1), of data] session_step_emitted [OF that, of d] i(1)
      by (simp_all add: session_step_def)
    show ?thesis
      using HANDSHAKING assms(2) fin [OF s2] fin [OF s4]
      by (simp add: dtls_send_def dtls_inv_def split_beta Let_def)
  next
    case ESTABLISHED
    have s: "session_step k i (d\<lparr>dt_current := Some i\<rparr>) (snd (sslWrite mb now i data (d\<lparr>dt_current := Some i\<rparr>)))"
      by (rule session_step_write) (use i in simp_all)
    with t session_step_emitted [OF s, of d] ESTABLISHED assms(2) show ?thesis
      by (simp add: dtls_send_def dtls_inv_def split_beta session_step_def)
  next
    case FAILED
    with t c assms(2) i show ?thesis
      by (simp add: dtls_send_def dtls_inv_def table_inv_reset emitted_same)
  qed
qed

text \<open>The record is put before the session, which becomes the current one.\<close>

definition present_record :: "nat \<Rightarrow> 'c dtls \<Rightarrow> 'c dtls" where
  "present_record i d =
     (upd_session i (\<lambda>s. s\<lparr>ss_rxPtr := True, ss_rxLen := dt_rawLen d, ss_rxConsumed := 0\<rparr>) d)
       \<lparr>dt_current := Some i\<rparr>"

lemma present_record_simps [simp]:
  "length (dt_sessions (present_record i d)) = length (dt_sessions d)"
  "dt_udp (present_record i d) = dt_udp d"
  "dt_current (present_record i d) = Some i"
  "i < length (dt_sessions d) \<Longrightarrow> dt_sessions (present_record i d) ! i =
     (dt_sessions d ! i)\<lparr>ss_rxPtr := True, ss_rxLen := dt_rawLen d, ss_rxConsumed := 0\<rparr>"
  "j \<noteq> i \<Longrightarrow> dt_sessions (present_record i d) ! j = dt_sessions d ! j"
  by (simp_all add: present_record_def)

lemma table_inv_present:
  assumes "table_inv k d" "i < length (dt_sessions d)"
  shows "table_inv k (present_record i d)"
  unfolding present_record_def table_inv_current
  by (rule table_inv_upd) (use assms in \<open>auto simp: in_use_def table_inv_def\<close>)

lemma feed_session_step:
  assumes "table_inv k d" "i < length (dt_sessions d)" "in_use (dt_sessions d ! i)"
  shows "dtls_inv k (snd (feed_session mb now cap rawFrom i d)) \<and>
    emitted (ss_peer (dt_sessions d ! i)) d (snd (feed_session mb now cap rawFrom i d))"
proof -
  let ?d1 = "present_record i d" and ?clear = "upd_session i (\<lambda>s. s\<lparr>ss_txPending := False\<rparr>)"
  let ?d2 = "driveHandshake mb now i ?d1"
  have s1: "i < length (dt_sessions ?d1)" "in_use (dt_sessions ?d1 ! i)" "dt_current ?d1 = Some i"
    using assms by (simp_all add: in_use_def)
  have fin: "table_inv k d' \<and> emitted (ss_peer (dt_sessions d ! i)) d d'" if "session_step k i ?d1 d'" for d'
    using that table_inv_present [OF assms(1,2)] session_step_emitted [OF that, of d] assms(2)
    by (simp add: session_step_def)
  have s2: "session_step k i ?d1 ?d2" by (rule session_step_drive [OF s1])
  note n2 = session_step_next [OF s2 s1(1,3)]
  have s4: "session_step k i ?d1 (?clear (snd (sslWrite mb now i w ?d2)))" for w
  proof -
    have s3: "session_step k i ?d2 (snd (sslWrite mb now i w ?d2))" by (rule session_step_write [OF n2])
    have "session_step k i (snd (sslWrite mb now i w ?d2)) (?clear (snd (sslWrite mb now i w ?d2)))"
      by (rule session_step_upd [OF session_step_next [OF s3 n2(1,3)]]) (simp add: in_use_def)
    with s2 s3 show ?thesis by (blast intro: session_step_trans)
  qed
  have s5: "session_step k i ?d1 (upd_session i (\<lambda>s. s\<lparr>ss_ssl := c\<rparr>) (snd (run_ssl i now p ?d1)))"
    for c and p :: "((int + bytes) \<times> 'a) ssl_prog"
    by (rule session_step_ssl [OF s1]) (simp add: in_use_def)
  have s0: "session_step k i ?d1 ?d1"
    using s1 by (simp add: session_step_def)
  note fins = fin [OF s0] fin [OF s2] fin [OF s4] fin [OF s5]
  show ?thesis
    unfolding feed_session_def present_record_def [symmetric]
    using fins by (auto simp: dtls_inv_def split_beta Let_def split: sum.split)
qed

text \<open>The table as \<^verbatim>\<open>receive\<close> hands it on, the record in the raw buffer.\<close>

definition loaded :: "'c mbedtls \<Rightarrow> dtls_config \<Rightarrow> u32 \<Rightarrow> bytes \<Rightarrow> (bytes \<times> u16 \<times> bytes) list \<Rightarrow> 'c dtls \<Rightarrow> 'c dtls" where
  "loaded mb k now packet rest d0 =
     (let d = tickTimeouts mb k now d0
      in read_record packet (d\<lparr>dt_udp := (dt_udp d)\<lparr>ud_inbox := rest\<rparr>\<rparr>))"

lemma loaded_simps [simp]:
  "dt_sessions (loaded mb k now packet rest d) = dt_sessions (tickTimeouts mb k now d)"
  "dt_current (loaded mb k now packet rest d) = dt_current d"
  "dt_live (loaded mb k now packet rest d) = dt_live (tickTimeouts mb k now d)"
  "dt_isServer (loaded mb k now packet rest d) = dt_isServer d"
  "ud_sent (dt_udp (loaded mb k now packet rest d)) = ud_sent (dt_udp d)"
  "table_inv k (loaded mb k now packet rest d) = table_inv k (tickTimeouts mb k now d)"
  using tickTimeouts_frame [of mb k now d]
  by (simp_all add: loaded_def read_record_def Let_def table_inv_def)

text \<open>One call of \<^verbatim>\<open>receive\<close>: nothing usable is there, or the record of its sender is handled.\<close>

lemma dtls_receive_cases:
  obtains d1 where "dtls_receive mb k now cap d = ((empty_endpoint, []), d1)"
      "dt_sessions d1 = dt_sessions (tickTimeouts mb k now d)" "dt_current d1 = dt_current d"
      "dt_live d1 = dt_live (tickTimeouts mb k now d)" "ud_sent (dt_udp d1) = ud_sent (dt_udp d)"
  | ip port packet rest where "ud_inbox (dt_udp d) = (ip, port, packet) # rest"
      "dtls_receive mb k now cap d =
        receive_record mb now cap (raw_peer ip port) (loaded mb k now packet rest d)"
proof (cases "ud_inbox (dt_udp d)")
  case Nil
  with that(1) [of "tickTimeouts mb k now d"] tickTimeouts_frame [of mb k now d] show thesis
    by (simp add: dtls_receive_def)
next
  case (Cons x rest)
  obtain ip port packet where x: "x = (ip, port, packet)" by (metis prod.exhaust)
  let ?t = "tickTimeouts mb k now d"
  let ?d1 = "?t\<lparr>dt_udp := (dt_udp ?t)\<lparr>ud_inbox := rest\<rparr>\<rparr>"
  show thesis
  proof (cases "packet = [] \<or> dt_rawBuf ?t = []")
    case True
    with Cons x that(1) [of ?d1] tickTimeouts_frame [of mb k now d] show thesis
      by (auto simp: dtls_receive_def Let_def)
  next
    case False
    with Cons x that(2) [of ip port packet rest] tickTimeouts_frame [of mb k now d] show thesis
      by (auto simp: dtls_receive_def loaded_def Let_def)
  qed
qed

lemma receive_record_step:
  assumes "table_inv k d" "dt_current d = None"
  shows "dtls_inv k (snd (receive_record mb now cap rawFrom d)) \<and>
    (\<exists>ep. ep_eq ep rawFrom \<and> emitted ep d (snd (receive_record mb now cap rawFrom d)))"
proof (cases "findSession rawFrom d")
  case (Some i)
  note f = findSession_SomeD [OF Some]
  from feed_session_step [OF assms(1) f(1,2)] f(3) Some show ?thesis
    by (auto simp: receive_record_def)
next
  case None
  obtain slot d1 where a0: "allocSession mb rawFrom d = (slot, d1)" by fastforce
  have here: "\<exists>ep. ep_eq ep rawFrom \<and> emitted ep d d'" if "ud_sent (dt_udp d') = ud_sent (dt_udp d)" for d'
    using emitted_same [OF that, of rawFrom] by (intro exI [of _ rawFrom]) simp
  show ?thesis
  proof (cases "slot = None \<or> \<not> dt_isServer d")
    case True
    with None assms a0 here [of d] show ?thesis
      by (auto simp: receive_record_def dtls_inv_def dest!: allocSession_NoneD)
  next
    case False
    then obtain i where "slot = Some i" by auto
    note a = allocSession_SomeD [OF assms(1) None a0 [unfolded this]]
    obtain ok d2 where d2: "initSession mb now i d1 = (ok, d2)" by fastforce
    have f: "dt_udp d2 = dt_udp d" "dt_current d2 = None" "length (dt_sessions d2) = length (dt_sessions d1)"
      using initSession_simps [of mb now i d1] d2 a assms(2) by simp_all
    have r: "receive_record mb now cap rawFrom d =
        (if \<not> ok then ((empty_endpoint, []), resetSession mb i d2) else feed_session mb now cap rawFrom i d2)"
      using None False a0 \<open>slot = Some i\<close> d2 by (simp add: receive_record_def)
    show ?thesis
    proof (cases ok)
      case True
      then have "initSession mb now i d1 = (True, d2)" using d2 by simp
      note n = initSession_True [OF a(1,2) this]
      have i: "i < length (dt_sessions d2)" using a(2) f by (simp add: fresh_slot_def)
      have u: "in_use (dt_sessions d2 ! i)" by (subst n(2)) (simp add: in_use_def)
      have p: "ss_peer (dt_sessions d2 ! i) = rawFrom" using a(2) by (subst n(2)) (simp add: fresh_slot_def)
      from feed_session_step [OF n(1) i u, of mb now cap rawFrom] p f True r show ?thesis
        by (auto simp: emitted_def intro: exI [of _ rawFrom])
    next
      case False
      then have "initSession mb now i d1 = (False, d2)" using d2 by simp
      from initSession_False [OF a(1,2) this] False r f here [of "resetSession mb i d2"] show ?thesis
        by (simp add: dtls_inv_def)
    qed
  qed
qed

lemma dtls_receive_step:
  assumes "dtls_inv k d"
  shows "dtls_inv k (snd (dtls_receive mb k now cap d))"
    and "ud_inbox (dt_udp d) = (ip, port, packet) # rest \<Longrightarrow>
      \<exists>ep. ep_eq ep (raw_peer ip port) \<and> emitted ep d (snd (dtls_receive mb k now cap d))"
proof -
  have t: "table_inv k (tickTimeouts mb k now d)" and c: "dt_current d = None"
    using assms by (simp_all add: dtls_inv_def table_inv_tickTimeouts)
  have "dtls_inv k (snd (dtls_receive mb k now cap d)) \<and>
    (ud_inbox (dt_udp d) = (ip, port, packet) # rest \<longrightarrow>
      (\<exists>ep. ep_eq ep (raw_peer ip port) \<and> emitted ep d (snd (dtls_receive mb k now cap d))))"
  proof (cases rule: dtls_receive_cases [of mb k now cap d])
    case (1 d1)
    with t c show ?thesis
      by (auto simp: dtls_inv_def table_inv_cong [of d1 "tickTimeouts mb k now d"] intro: emitted_same
          intro!: exI [of _ "raw_peer ip port"])
  next
    case (2 ip' port' packet' rest')
    let ?d = "loaded mb k now packet' rest' d"
    have r: "dtls_inv k (snd (receive_record mb now cap (raw_peer ip' port') ?d)) \<and>
        (\<exists>ep. ep_eq ep (raw_peer ip' port') \<and>
          emitted ep ?d (snd (receive_record mb now cap (raw_peer ip' port') ?d)))"
      by (rule receive_record_step) (simp_all add: t c)
    with 2 show ?thesis by (auto simp: emitted_def)
  qed
  then show "dtls_inv k (snd (dtls_receive mb k now cap d))"
    and "ud_inbox (dt_udp d) = (ip, port, packet) # rest \<Longrightarrow>
      \<exists>ep. ep_eq ep (raw_peer ip port) \<and> emitted ep d (snd (dtls_receive mb k now cap d))"
    by blast+
qed

lemma new_dtls_inv: "dtls_inv k (new_dtls mb k udp server)"
  by (simp add: dtls_inv_def table_inv_def new_dtls_def distinct_peers_def occupancy_def)

end
