(* ===== verification/Coap_Dtls_Session.thy ===== *)
theory Coap_Dtls_Session
  imports Coap_Dtls_Inv
begin

text \<open>
  What single calls of the DTLS adapter do: which sessions a timeout resets, when a packet
  counts as sent, what is delivered, what happens to the datagrams of a failed session, and
  how the key store answers.
\<close>

section \<open>Handshake timeouts\<close>

definition handshake_expired :: "dtls_config \<Rightarrow> u32 \<Rightarrow> 'c session \<Rightarrow> bool" where
  "handshake_expired k now s \<longleftrightarrow>
     ss_state s = HANDSHAKING \<and> now - ss_handshakeStartMs s > dtls_handshake_timeout_ms k"

lemma tick_session_nth:
  "j < length (dt_sessions d) \<Longrightarrow> dt_sessions (tick_session mb k now i d) ! j =
     (if j = i \<and> handshake_expired k now (dt_sessions d ! j) then zero_session mb else dt_sessions d ! j)"
  by (cases "j = i") (auto simp: tick_session_def handshake_expired_def Let_def)

lemma tick_upto_nth:
  "n \<le> length (dt_sessions d) \<Longrightarrow> j < length (dt_sessions d) \<Longrightarrow>
   dt_sessions (fold (tick_session mb k now) [0..<n] d) ! j =
     (if j < n \<and> handshake_expired k now (dt_sessions d ! j) then zero_session mb else dt_sessions d ! j)"
proof (induction n)
  case (Suc n)
  have "length (dt_sessions (fold (tick_session mb k now) is d)) = length (dt_sessions d)" for "is"
    by (induction "is" arbitrary: d) simp_all
  with Suc show ?case by (auto simp: tick_session_nth less_Suc_eq)
qed simp

lemma tickTimeouts_nth:
  "j < length (dt_sessions d) \<Longrightarrow> dt_sessions (tickTimeouts mb k now d) ! j =
     (if handshake_expired k now (dt_sessions d ! j) then zero_session mb else dt_sessions d ! j)"
  by (simp add: tickTimeouts_def tick_upto_nth)

lemma tickTimeouts_map:
  "dt_sessions (tickTimeouts mb k now d) =
     map (\<lambda>s. if handshake_expired k now s then zero_session mb else s) (dt_sessions d)"
  by (rule nth_equalityI) (simp_all add: tickTimeouts_frame tickTimeouts_nth)

section \<open>Sending\<close>

lemma sslWrite_True:
  assumes "sslWrite mb now i data d = (True, d')"
  obtains c e where "run_ssl i now (mb_write mb data (ss_ssl (dt_sessions d ! i))) d = ((int (length data), c), e)"
    and "d' = upd_session i (\<lambda>s. s\<lparr>ss_ssl := c\<rparr>) e"
  using assms by (auto simp: sslWrite_def split: prod.splits)

lemma sslWrite_state:
  "i < length (dt_sessions d) \<Longrightarrow>
   ss_state (dt_sessions (snd (sslWrite mb now i data d)) ! i) = ss_state (dt_sessions d ! i)"
  using core_fields [OF run_ssl_core [of i d i now "mb_write mb data (ss_ssl (dt_sessions d ! i))"]]
  by (simp add: sslWrite_def split_beta run_ssl_length)

text \<open>\<open>accepted_by i w e d'\<close>: mbedTLS took all of \<open>w\<close> on session \<open>i\<close>, established in \<open>e\<close>.\<close>

definition accepted_by :: "'c mbedtls \<Rightarrow> u32 \<Rightarrow> nat \<Rightarrow> bytes \<Rightarrow> 'c dtls \<Rightarrow> bool" where
  "accepted_by mb now i w e \<longleftrightarrow>
     dt_current e = Some i \<and> ss_state (dt_sessions e ! i) = ESTABLISHED \<and>
     fst (fst (run_ssl i now (mb_write mb w (ss_ssl (dt_sessions e ! i))) e)) = int (length w)"

lemma sslWrite_accepted:
  assumes "sslWrite mb now i w e = (True, e')" "dt_current e = Some i" "ss_state (dt_sessions e ! i) = ESTABLISHED"
  shows "accepted_by mb now i w e"
  by (rule sslWrite_True [OF assms(1)]) (simp add: accepted_by_def assms(2,3))

lemma driveHandshake_current:
  "dt_current (driveHandshake mb now i d) = dt_current d"
  using run_ssl_frame [THEN conjunct2, THEN dt_current_outside]
  by (simp add: driveHandshake_def split_beta)

lemma driveHandshake_txBuf:
  assumes "i < length (dt_sessions d)"
  shows "ss_txBuf (dt_sessions (driveHandshake mb now i d) ! i) = ss_txBuf (dt_sessions d ! i)"
    and "length (dt_sessions (driveHandshake mb now i d)) = length (dt_sessions d)"
  using core_fields [OF run_ssl_core [OF assms, of i now "mb_handshake mb (ss_ssl (dt_sessions d ! i))"]] assms
  by (simp_all add: driveHandshake_def split_beta run_ssl_length)

lemma dtls_send_True:
  assumes "dtls_send mb k now to data d = (True, d')" "length data \<le> max_msg_size k"
  shows "\<exists>i e. findSession to d = Some i \<and> accepted_by mb now i data e \<and> ss_state (dt_sessions d' ! i) = ESTABLISHED"
proof (cases "findSession to d")
  case None
  with assms show ?thesis
    by (auto simp: dtls_send_def Let_def split: option.splits prod.splits if_splits)
next
  case (Some i)
  note i = findSession_SomeD(1) [OF Some]
  show ?thesis
  proof (cases "ss_state (dt_sessions d ! i)")
    case HANDSHAKING
    let ?d1 = "(bufferTx k i data d)\<lparr>dt_current := Some i\<rparr>"
    let ?d2 = "driveHandshake mb now i ?d1"
    have d2: "ss_txBuf (dt_sessions ?d2 ! i) = data" "dt_current ?d2 = Some i" "i < length (dt_sessions ?d2)"
      using driveHandshake_txBuf [of i ?d1 mb now] i assms(2) by (simp_all add: driveHandshake_current)
    obtain d3 where e: "ss_state (dt_sessions ?d2 ! i) = ESTABLISHED"
      and w: "sslWrite mb now i data ?d2 = (True, d3)"
      and d': "d' = (upd_session i (\<lambda>s. s\<lparr>ss_txPending := False\<rparr>) d3)\<lparr>dt_current := None\<rparr>"
      using assms(1) HANDSHAKING Some d2 by (auto simp: dtls_send_def Let_def split: prod.splits if_splits)
    have "i < length (dt_sessions d3)" "ss_state (dt_sessions d3 ! i) = ESTABLISHED"
      using w d2 e sslWrite_state [OF d2(3), of mb now data]
      by (auto simp: sslWrite_def run_ssl_length dest!: arg_cong [of _ _ snd] split: prod.splits)
    with Some sslWrite_accepted [OF w d2(2) e] show ?thesis by (auto simp: d')
  next
    case ESTABLISHED
    let ?d1 = "d\<lparr>dt_current := Some i\<rparr>"
    obtain d3 where w: "sslWrite mb now i data ?d1 = (True, d3)" and d': "d' = d3\<lparr>dt_current := None\<rparr>"
      using assms(1) ESTABLISHED Some by (auto simp: dtls_send_def split: prod.splits)
    with Some ESTABLISHED sslWrite_accepted [OF w] sslWrite_state [of i ?d1 mb now data] i show ?thesis by auto
  qed (use assms Some in \<open>auto simp: dtls_send_def\<close>)
qed

section \<open>Delivering\<close>

lemma feed_session_data:
  assumes "feed_session mb now cap rawFrom i d = ((remote, data), d')" "data \<noteq> []" "i < length (dt_sessions d)"
  shows "remote = rawFrom \<and> ss_state (dt_sessions d ! i) = ESTABLISHED \<and>
    (\<exists>c. fst (run_ssl i now (mb_read mb cap (ss_ssl (dt_sessions d ! i))) (present_record i d)) = (Inr data, c))"
  using assms
  by (auto simp: feed_session_def present_record_def [symmetric] Let_def split: prod.splits sum.splits if_splits)

lemma dtls_receive_data:
  assumes inv: "dtls_inv k d" and r: "dtls_receive mb k now cap d = ((remote, data), d')" "data \<noteq> []"
  shows "\<exists>ip port packet rest i c. ud_inbox (dt_udp d) = (ip, port, packet) # rest \<and> remote = raw_peer ip port \<and>
    i < length (dt_sessions d) \<and> ss_state (dt_sessions d ! i) = ESTABLISHED \<and>
    ep_eq (ss_peer (dt_sessions d ! i)) remote \<and>
    fst (run_ssl i now (mb_read mb cap (ss_ssl (dt_sessions d ! i)))
      (present_record i (loaded mb k now packet rest d))) = (Inr data, c)"
proof (cases rule: dtls_receive_cases [of mb k now cap d])
  case (1 d1)
  with r show ?thesis by simp
next
  case (2 ip port packet rest)
  let ?d = "loaded mb k now packet rest d"
  have l: "length (dt_sessions ?d) = length (dt_sessions d)" using tickTimeouts_frame [of mb k now d] by simp
  show ?thesis
  proof (cases "findSession (raw_peer ip port) ?d")
    case (Some i)
    note f = findSession_SomeD [OF Some]
    have "feed_session mb now cap (raw_peer ip port) i ?d = ((remote, data), d')"
      using Some 2 r by (simp add: receive_record_def)
    from feed_session_data [OF this r(2) f(1)]
    have fd: "remote = raw_peer ip port" "ss_state (dt_sessions ?d ! i) = ESTABLISHED"
        "\<exists>c. fst (run_ssl i now (mb_read mb cap (ss_ssl (dt_sessions ?d ! i))) (present_record i ?d)) = (Inr data, c)"
      by blast+
    have i: "i < length (dt_sessions d)" using f(1) l by simp
    have "dt_sessions ?d ! i = dt_sessions d ! i"
      using fd(2) tickTimeouts_nth [OF i, of mb k now] by (simp split: if_splits)
    with 2 i f(3) fd show ?thesis by fastforce
  next
    case None
    obtain slot d1 where a0: "allocSession mb (raw_peer ip port) ?d = (slot, d1)" by fastforce
    have t: "table_inv k ?d" using inv by (simp add: dtls_inv_def table_inv_tickTimeouts)
    show ?thesis
    proof (cases slot)
      case None
      with 2 r a0 \<open>findSession _ _ = None\<close> show ?thesis by (simp add: receive_record_def split: if_splits)
    next
      case (Some i)
      note a = allocSession_SomeD [OF t None a0 [unfolded Some]]
      obtain ok d2 where d2: "initSession mb now i d1 = (ok, d2)" by fastforce
      have ok: "ok" "feed_session mb now cap (raw_peer ip port) i d2 = ((remote, data), d')"
        using 2 r a0 None Some d2 by (auto simp: receive_record_def split: if_splits)
      then have d2': "initSession mb now i d1 = (True, d2)" using d2 by simp
      have i: "i < length (dt_sessions d2)"
        using a(2) initSession_simps(3) [of mb now i d1] d2 by (simp add: fresh_slot_def)
      have "ss_state (dt_sessions d2 ! i) = HANDSHAKING"
        by (subst initSession_True(2) [OF a(1,2) d2']) simp
      with feed_session_data [OF ok(2) r(2) i] show ?thesis by simp
    qed
  qed
qed

section \<open>Failed sessions\<close>

lemma ep_eq_find:
  assumes "table_inv k d" "i < length (dt_sessions d)" "in_use (dt_sessions d ! i)" "ep_eq (ss_peer (dt_sessions d ! i)) ep"
  shows "findSession ep d = Some i"
proof -
  have "\<exists>j. findSession ep d = Some j"
    unfolding findSession_def first_slot_Some_ex using assms(2-4) by (auto simp: in_use_def intro: nth_mem)
  then obtain j where j: "findSession ep d = Some j" by blast
  note f = findSession_SomeD [OF j]
  have "ep_eq (ss_peer (dt_sessions d ! j)) (ss_peer (dt_sessions d ! i))"
    using f(3) assms(4) ep_eq_sym ep_eq_trans by blast
  with assms f have "j = i" by (auto simp: table_inv_def distinct_peers_def)
  with j show ?thesis by simp
qed

lemma feed_failed:
  assumes "ss_state (dt_sessions d ! i) = FAILED" "i < length (dt_sessions d)"
  shows "feed_session mb now cap rawFrom i d = ((empty_endpoint, []), (present_record i d)\<lparr>dt_current := None\<rparr>)"
  using assms by (simp add: feed_session_def present_record_def [symmetric] Let_def)

text \<open>A datagram whose sender has a failed session does nothing, and leaves it failed.\<close>

definition failed_for :: "endpoint \<Rightarrow> nat \<Rightarrow> 'c dtls \<Rightarrow> bool" where
  "failed_for ep i d \<longleftrightarrow>
     i < length (dt_sessions d) \<and> ss_state (dt_sessions d ! i) = FAILED \<and> ep_eq (ss_peer (dt_sessions d ! i)) ep"

lemma tickTimeouts_failed:
  "failed_for ep i d \<Longrightarrow> failed_for ep i (tickTimeouts mb k now d)"
  by (simp add: failed_for_def tickTimeouts_frame tickTimeouts_nth handshake_expired_def)

lemma dtls_receive_failed:
  assumes inv: "dtls_inv k d" and f: "failed_for ep i d"
    and from_ep: "\<forall>(ip, port, packet) \<in> set (ud_inbox (dt_udp d)). ep_eq (raw_peer ip port) ep"
  shows "fst (dtls_receive mb k now cap d) = (empty_endpoint, [])"
    and "failed_for ep i (snd (dtls_receive mb k now cap d))"
    and "ud_sent (dt_udp (snd (dtls_receive mb k now cap d))) = ud_sent (dt_udp d)"
    and "set (ud_inbox (dt_udp (snd (dtls_receive mb k now cap d)))) \<subseteq> set (ud_inbox (dt_udp d))"
proof -
  let ?t = "tickTimeouts mb k now d"
  have tf: "failed_for ep i ?t" by (rule tickTimeouts_failed [OF f])
  have fr: "dt_udp ?t = dt_udp d" "length (dt_sessions ?t) = length (dt_sessions d)"
    using tickTimeouts_frame by auto
  have t: "table_inv k ?t" using inv by (simp add: dtls_inv_def table_inv_tickTimeouts)
  have "fst (dtls_receive mb k now cap d) = (empty_endpoint, []) \<and>
    failed_for ep i (snd (dtls_receive mb k now cap d)) \<and>
    ud_sent (dt_udp (snd (dtls_receive mb k now cap d))) = ud_sent (dt_udp d) \<and>
    set (ud_inbox (dt_udp (snd (dtls_receive mb k now cap d)))) \<subseteq> set (ud_inbox (dt_udp d))"
  proof (cases "ud_inbox (dt_udp d)")
    case Nil
    with fr tf show ?thesis by (simp add: dtls_receive_def)
  next
    case (Cons x rest)
    obtain ip port packet where x: "x = (ip, port, packet)" by (metis prod.exhaust)
    let ?d1 = "?t\<lparr>dt_udp := (dt_udp ?t)\<lparr>ud_inbox := rest\<rparr>\<rparr>"
    let ?d2 = "read_record packet ?d1"
    have d2: "dt_sessions ?d2 = dt_sessions ?t" "table_inv k ?d2" "dt_udp ?d2 = (dt_udp d)\<lparr>ud_inbox := rest\<rparr>"
      using t fr by (simp_all add: read_record_def Let_def table_inv_def)
    have "ep_eq (raw_peer ip port) ep" using from_ep Cons x by simp
    then have "findSession (raw_peer ip port) ?d2 = Some i"
      using tf d2 by (intro ep_eq_find) (auto simp: failed_for_def in_use_def intro: ep_eq_sym ep_eq_trans)
    moreover have "ss_state (dt_sessions ?d2 ! i) = FAILED" "i < length (dt_sessions ?d2)"
      using tf d2 by (simp_all add: failed_for_def)
    ultimately have "receive_record mb now cap (raw_peer ip port) ?d2 =
        ((empty_endpoint, []), (present_record i ?d2)\<lparr>dt_current := None\<rparr>)"
      by (simp add: receive_record_def feed_failed)
    with Cons x fr tf d2 show ?thesis
      by (auto simp: dtls_receive_def Let_def failed_for_def)
  qed
  then show "fst (dtls_receive mb k now cap d) = (empty_endpoint, [])"
    and "failed_for ep i (snd (dtls_receive mb k now cap d))"
    and "ud_sent (dt_udp (snd (dtls_receive mb k now cap d))) = ud_sent (dt_udp d)"
    and "set (ud_inbox (dt_udp (snd (dtls_receive mb k now cap d)))) \<subseteq> set (ud_inbox (dt_udp d))"
    by blast+
qed

section \<open>The key store\<close>

lemma first_slot_skip:
  assumes "\<not> P (xs ! i)" "\<not> P y"
  shows "first_slot P (xs[i := y]) = first_slot P xs"
  using assms
proof (induction xs arbitrary: i)
  case (Cons x xs)
  then show ?case by (cases i) simp_all
qed simp

lemma psk_secret_fill: "length secret < 256 \<Longrightarrow> psk_secret (fill_psk (idn, secret) e) = secret"
  by (simp add: psk_secret_def fill_psk_def unat_of_nat)

lemma addPsk_True:
  assumes "addPsk k (Some idn) (Some secret) d = (True, d')"
  obtains i where "i < length (dt_pskStore d)" "\<not> pk_used (dt_pskStore d ! i)"
    and "d' = d\<lparr>dt_pskStore := (dt_pskStore d)[i := fill_psk (idn, secret) (dt_pskStore d ! i)]\<rparr>"
    and "length secret \<le> dtls_psk_max_len k" "0 < length secret" "0 < length idn" "length idn < dtls_identity_max_len k"
  using assms claim_slot_SomeD [of pk_used "fill_psk (idn, secret)" "dt_pskStore d"]
  by (auto simp: addPsk_def Let_def split: if_splits option.splits prod.splits)

lemma sPskCallback_added:
  assumes "addPsk k (Some idn) (Some secret) d = (True, d')" "dtls_psk_max_len k < 256"
  shows "sPskCallback idn d = None \<Longrightarrow> sPskCallback idn d' = Some secret"
    and "identity \<noteq> idn \<Longrightarrow> sPskCallback identity d' = sPskCallback identity d"
proof -
  let ?P = "\<lambda>identity e. pk_used e \<and> length (pk_identity e) = length identity \<and> pk_identity e = identity"
  obtain i where i: "i < length (dt_pskStore d)" "\<not> pk_used (dt_pskStore d ! i)"
    and d': "d' = d\<lparr>dt_pskStore := (dt_pskStore d)[i := fill_psk (idn, secret) (dt_pskStore d ! i)]\<rparr>"
    and len: "length secret \<le> dtls_psk_max_len k"
    by (rule addPsk_True [OF assms(1)])
  let ?store = "(dt_pskStore d)[i := fill_psk (idn, secret) (dt_pskStore d ! i)]"
  show "sPskCallback idn d' = Some secret" if "sPskCallback idn d = None"
  proof -
    have none: "\<not> ?P idn (dt_pskStore d ! j)" if "j < length (dt_pskStore d)" for j
      using \<open>sPskCallback idn d = None\<close> that by (auto simp: sPskCallback_def first_slot_None_iff)
    have "first_slot (?P idn) ?store = Some i"
      by (rule first_slot_unique) (use i(1) none in \<open>simp_all add: fill_psk_def\<close>)
    with i(1) len assms(2) show ?thesis by (simp add: sPskCallback_def d' psk_secret_fill)
  qed
  show "sPskCallback identity d' = sPskCallback identity d" if "identity \<noteq> idn"
  proof -
    have "first_slot (?P identity) ?store = first_slot (?P identity) (dt_pskStore d)"
      by (rule first_slot_skip) (use i(2) that in \<open>simp_all add: fill_psk_def\<close>)
    moreover have "j \<noteq> i" if "first_slot (?P identity) (dt_pskStore d) = Some j" for j
      using first_slot_sat [OF that] i(2) by auto
    ultimately show ?thesis
      by (cases "first_slot (?P identity) (dt_pskStore d)") (simp_all add: sPskCallback_def d')
  qed
qed

section \<open>The life of the adapter\<close>

text \<open>A call of the application or an arrival, and what each makes of the adapter.\<close>

datatype dtls_event =
    DtlsSend u32 endpoint bytes
  | DtlsReceive u32 nat
  | DtlsArrive bytes u16 bytes

definition dtls_step :: "'c mbedtls \<Rightarrow> dtls_config \<Rightarrow> dtls_event \<Rightarrow> 'c dtls \<Rightarrow> 'c dtls" where
  "dtls_step mb k e d =
     (case e of
        DtlsSend now to data \<Rightarrow> snd (dtls_send mb k now to data d)
      | DtlsReceive now cap \<Rightarrow> snd (dtls_receive mb k now cap d)
      | DtlsArrive ip port packet \<Rightarrow>
          d\<lparr>dt_udp := (dt_udp d)\<lparr>ud_inbox := ud_inbox (dt_udp d) @ [(ip, port, packet)]\<rparr>\<rparr>)"

definition dtls_run :: "'c mbedtls \<Rightarrow> dtls_config \<Rightarrow> dtls_event list \<Rightarrow> 'c dtls \<Rightarrow> 'c dtls" where
  "dtls_run mb k es d = fold (dtls_step mb k) es d"

lemma dtls_send_step:
  assumes "dtls_inv k d"
  shows "dtls_inv k (snd (dtls_send mb k now to data d))"
    and "\<exists>ep. ep_eq ep to \<and> emitted ep d (snd (dtls_send mb k now to data d))"
  using dtls_send_new [OF assms, of to mb now data] dtls_send_known [OF assms, of to _ mb now data]
    findSession_SomeD(3) [of to d]
  by (cases "findSession to d"; fastforce intro: exI [of _ to])+

lemma dtls_inv_udp [simp]: "dtls_inv k (d\<lparr>dt_udp := u\<rparr>) = dtls_inv k d"
  by (simp add: dtls_inv_def table_inv_def)

lemma dtls_step_inv: "dtls_inv k d \<Longrightarrow> dtls_inv k (dtls_step mb k e d)"
  by (cases e) (simp_all add: dtls_step_def dtls_send_step dtls_receive_step)

lemma dtls_run_inv: "dtls_inv k d \<Longrightarrow> dtls_inv k (dtls_run mb k es d)"
  unfolding dtls_run_def by (rule fold_inv) (simp_all add: dtls_step_inv)

lemma dtls_begin_inv: "dtls_inv k d \<Longrightarrow> dtls_inv k (snd (dtls_begin mb port d))"
  by (auto simp: dtls_begin_def Let_def dtls_inv_def table_inv_def split: option.split)

lemma addPsk_inv: "dtls_inv k d \<Longrightarrow> dtls_inv k (snd (addPsk k' idn secret d))"
  by (auto simp: addPsk_def Let_def dtls_inv_def table_inv_def split: option.split prod.split)

text \<open>The contexts that the destructor needs are initialised by \<^verbatim>\<open>begin\<close> only.\<close>

definition contexts_ready :: "'c dtls \<Rightarrow> bool" where
  "contexts_ready d \<longleftrightarrow> dt_conf_init d \<and> (dt_isServer d \<longrightarrow> dt_cookie_init d)"

lemma dtls_destroy_ready:
  "dtls_inv k d \<Longrightarrow> dtls_destroy d = (if contexts_ready d then Some 0 else None)"
  by (auto simp: dtls_destroy_def contexts_ready_def dtls_inv_def table_inv_def)

text \<open>No call after \<^verbatim>\<open>begin\<close> touches them.\<close>

definition role :: "'c dtls \<Rightarrow> bool \<times> bool \<times> bool" where
  "role d = (dt_conf_init d, dt_cookie_init d, dt_isServer d)"

lemma role_simps [simp]:
  "role (upd_session i f d) = role d" "role (d\<lparr>dt_current := c\<rparr>) = role d" "role (d\<lparr>dt_udp := u\<rparr>) = role d"
  "role (resetSession mb i d) = role d" "role (set_peer ep i d) = role d" "role (bufferTx k i data d) = role d"
  "role (d\<lparr>dt_live := n\<rparr>) = role d" "role (read_record packet d) = role d"
  by (simp_all add: role_def upd_session_def resetSession_def set_peer_def bufferTx_def read_record_def Let_def)

lemma role_run_ssl [simp]: "role (snd (run_ssl i now p d)) = role d"
proof (induction p arbitrary: d)
  case (BioSend buf k)
  have "role (snd (sBioSend buf d)) = role d"
    by (simp add: sBioSend_def Let_def split_beta split: option.split)
  with BioSend show ?case by simp
next
  case (BioRecv len k)
  have "role (snd (sBioRecv len d)) = role d"
    by (simp add: sBioRecv_def Let_def split: option.split)
  with BioRecv show ?case by simp
qed simp_all

lemma role_steps [simp]:
  "role (snd (allocSession mb ep d)) = role d" "role (snd (initSession mb now i d)) = role d"
  "role (driveHandshake mb now i d) = role d" "role (snd (sslWrite mb now i data d)) = role d"
  by (simp_all add: allocSession_def initSession_def driveHandshake_def sslWrite_def Let_def split_beta
      split: option.split)

lemma role_fold_tick: "role (fold (tick_session mb k now) is d) = role d"
  by (induction "is" arbitrary: d) (simp_all add: tick_session_def Let_def)

lemma role_send: "role (snd (dtls_send mb k now to data d)) = role d"
  using role_steps(1) [of mb to d]
  by (auto simp: dtls_send_def Let_def split_beta split: option.split session_state.split prod.split)

lemma role_feed [simp]: "role (snd (feed_session mb now cap rawFrom i d)) = role d"
  by (auto simp: feed_session_def Let_def split_beta split: sum.split)

lemma role_receive: "role (snd (dtls_receive mb k now cap d)) = role d"
proof -
  have "role (snd (receive_record mb now cap ep e)) = role e" for ep e
    using role_steps(1) [of mb ep e]
    by (auto simp: receive_record_def Let_def split_beta split: option.split prod.split)
  then show ?thesis
    by (simp add: dtls_receive_def tickTimeouts_def role_fold_tick Let_def split: list.split)
qed

lemma role_run: "role (dtls_run mb k es d) = role d"
proof (induction es arbitrary: d)
  case (Cons e es)
  have "role (dtls_step mb k e d) = role d"
    by (cases e) (simp_all add: dtls_step_def role_send role_receive)
  with Cons show ?case by (simp add: dtls_run_def)
qed (simp add: dtls_run_def)

lemma contexts_ready_run: "contexts_ready (dtls_run mb k es d) = contexts_ready d"
  using role_run [of mb k es d] by (auto simp: contexts_ready_def role_def)

lemma dtls_begin_ready:
  "dtls_begin mb port d = (True, d') \<Longrightarrow> contexts_ready d'"
  by (auto simp: dtls_begin_def contexts_ready_def Let_def split: option.splits if_splits)

end
