(* ===== verification/Props_Transport.thy ===== *)
theory Props_Transport
  imports Coap_Lwip Coap_Posix Coap_Dtls_Session
begin

text \<open>
  The properties of the transport adapters. The concrete instances use a ring of four or of
  three slots, two UDP peers, and for the DTLS adapter a stand-in for mbedTLS that answers
  the first record of a peer and finishes the handshake on the next.
\<close>

section \<open>The seam\<close>


section \<open>The ring of the lwIP adapter\<close>

definition ring_of :: "nat \<Rightarrow> lwip_knobs" where
  "ring_of n = \<lparr>rx_slots = n, lwip_ipv6 = True\<rparr>"

definition peer_a :: "lwip_addr \<times> u16" where
  "peer_a = (Lw4 0x0100000A, 5683)"

definition peer_b :: "lwip_addr \<times> u16" where
  "peer_b = (Lw4 0x0200000A, 5683)"


lemma ring_of_ok: "n \<in> {1, 2, 4, 8} \<Longrightarrow> ring_ok (ring_of n)"
  by (auto simp: ring_ok_def ring_of_def)

definition two_arrivals :: "(lwip_addr \<times> u16) net_event list" where
  "two_arrivals = [Arrive peer_a [1], Arrive peer_b [2], Receive 256, Receive 256]"

lemma two_accepted:
  "lwip_ring.accepted (ring_of 4) default_config two_arrivals (new_lwip (ring_of 4)) =
     [(lwip_origin peer_a, [1]), (lwip_origin peer_b, [2])]"
  unfolding two_arrivals_def lwip_ring.accepted.simps
  by (simp add: ring_of_def new_lwip_def lwip_arrive_def lwip_recvCallback_def length_lwip_waiting
      default_config_def Let_def)


text \<open>
  With three slots, which do not divide \<open>2 ^ 32\<close>, the queue breaks when the counters wrap:
  after \<open>2 ^ 32 - 1\<close> datagrams have come and gone, the next two are both accepted, the
  second overwrites the first, and \<^verbatim>\<open>receive\<close> hands out the second one twice.
\<close>

theorem lwip_ring_wrap_corrupts:
  shows "let s = lwip_ring.final (ring_of 3) default_config
           (concat (replicate (2 ^ 32 - 1) [Arrive peer_a [0], Receive 256])) (new_lwip (ring_of 3))
    in lwip_ring.accepted (ring_of 3) default_config two_arrivals s =
         [(lwip_origin peer_a, [1]), (lwip_origin peer_b, [2])] \<and>
       lwip_ring.delivered (ring_of 3) default_config two_arrivals s =
         [(lwip_origin peer_b, [2]), (lwip_origin peer_b, [2])]"
proof -
  define es :: "nat \<Rightarrow> (lwip_addr \<times> u16) net_event list"
    where "es n = concat (replicate n [Arrive peer_a [0], Receive 256])" for n
  let ?fin = "\<lambda>n s. lwip_ring.final (ring_of 3) default_config (es n) s"
  let ?level = "\<lambda>s h. lw_head s = h \<and> lw_tail s = h \<and> length (lw_slots s) = 3"
  have round: "?level (?fin n s) (h + of_nat n)" if "?level s h" for n s h
    using that
  proof (induction n arbitrary: s h)
    case (Suc n)
    let ?s = "snd (lwip_receive (ring_of 3) 256 (lwip_arrive default_config (ring_of 3) peer_a [0] s))"
    have "?level ?s (h + 1)"
      using Suc.prems by (simp add: lwip_receive_def lwip_arrive_def lwip_recvCallback_def Let_def ring_of_def)
    from Suc.IH [OF this] show ?case by (simp add: es_def algebra_simps)
  qed (simp add: es_def)
  obtain s where fin: "?fin (2 ^ 32 - 1) (new_lwip (ring_of 3)) = s" by blast
  have s: "lw_head s = 0xFFFFFFFF" "lw_tail s = 0xFFFFFFFF" "length (lw_slots s) = 3"
    using round [of "new_lwip (ring_of 3)" 0 "2 ^ 32 - 1"] unfolding fin by (simp_all add: new_lwip_def ring_of_def)
  have i: "lwip_index (ring_of 3) 0xFFFFFFFF = 0" "lwip_index (ring_of 3) 4294967296 = 0"
    by (simp_all add: lwip_index_def ring_of_def)
  have sizes: "rx_slots (ring_of 3) = 3" "max_msg_size default_config = 256"
    by (simp_all add: ring_of_def default_config_def)
  have "lwip_ring.accepted (ring_of 3) default_config two_arrivals s =
         [(lwip_origin peer_a, [1]), (lwip_origin peer_b, [2])]"
    unfolding two_arrivals_def lwip_ring.accepted.simps
    by (simp add: s i sizes lwip_arrive_def lwip_recvCallback_def length_lwip_waiting Let_def)
  moreover have "lwip_ring.delivered (ring_of 3) default_config two_arrivals s =
         [(lwip_origin peer_b, [2]), (lwip_origin peer_b, [2])]"
    unfolding two_arrivals_def lwip_ring.delivered.simps
    by (simp add: s i sizes lwip_arrive_def lwip_recvCallback_def lwip_receive_def receipt_def lwip_origin_def Let_def)
  ultimately show ?thesis
    using fin by (simp only: es_def Let_def)
qed

section \<open>Addresses\<close>

text \<open>
  On a little-endian target the lwIP adapter answers to where a datagram came from:
  translating the sender's address into an endpoint and back gives the same address, IPv4 or
  IPv6. On a big-endian target, where \<^verbatim>\<open>IP4_ADDR\<close> packs the first byte highest, the bytes of
  an IPv4 address come back reversed.
\<close>

theorem lwip_reply_address:
  assumes "case a of Lw4 w \<Rightarrow> True | Lw6 b \<Rightarrow> lwip_ipv6 k"
  shows "lwip_dest k little_endian4 (lwip_source a port) = a \<and> ep_port (lwip_source a port) = port \<and>
    lwip_dest k big_endian4 (lwip_source (Lw4 (big_endian4 a1 a2 a3 a4)) port) = Lw4 (big_endian4 a4 a3 a2 a1)"
  using assms
  by (simp add: lwip_dest_def lwip_source_def big_endian4_def little_endian4_bytes bytes_little_endian4
      split: lwip_addr.splits)

lemma lwip_reply_address_witness:
  "lwip_dest (ring_of 4) little_endian4 (lwip_source (Lw6 [0x20, 1]) 5683) = Lw6 [0x20, 1] \<and>
   lwip_dest (ring_of 4) big_endian4 (lwip_source (Lw4 (big_endian4 10 0 0 1)) 5683) = Lw4 (big_endian4 1 0 0 10)"
  using lwip_reply_address [of "ring_of 4" "Lw6 [0x20, 1]" 5683 10 0 0 1] by (simp add: ring_of_def)

text \<open>
  The POSIX adapter answers to the address and port a datagram came from, on an IPv4 and
  on a dual-stack socket, IPv4-mapped senders included; only the scope of an IPv6 sender is
  lost, so a link-local sender is answered with scope 0.
\<close>

theorem posix_reply_address:
  assumes "wf_sockaddr ss" "dual \<longleftrightarrow> (case ss of SockIn _ _ \<Rightarrow> False | SockIn6 _ _ _ \<Rightarrow> True)"
  shows "posix_dest dual (fillEndpoint ss) =
    (case ss of SockIn a p \<Rightarrow> SockIn a p | SockIn6 b p scope \<Rightarrow> SockIn6 b p 0)"
  using assms posix_reply_v4 posix_reply_v6 by (cases ss) auto

definition link_local :: sockaddr where
  "link_local = SockIn6 ([0xFE, 0x80] @ replicate 13 0 @ [1]) [0x16, 0x33] 2"

lemma posix_reply_address_witness:
  "posix_dest True (fillEndpoint link_local) = SockIn6 ([0xFE, 0x80] @ replicate 13 0 @ [1]) [0x16, 0x33] 0 \<and>
   posix_dest True (fillEndpoint link_local) \<noteq> link_local"
  using posix_reply_address [of link_local True] by (simp add: link_local_def wf_sockaddr_def)

section \<open>The DTLS adapter\<close>

text \<open>
  The stand-in for mbedTLS: a handshake answers once without input, then ends with \<open>verdict\<close>
  on the first record it reads. Packets travel behind one byte.
\<close>

definition demo_tls :: "int \<Rightarrow> nat mbedtls" where
  "demo_tls verdict = \<lparr>mb_zero = 0, mb_init = 1, mb_setup = (\<lambda>server psk c. (True, c)),
     mb_transport_id = (\<lambda>cid c. c),
     mb_handshake = (\<lambda>c. BioRecv 64 (\<lambda>(n, b).
        if n \<le> 0 then BioSend [22] (\<lambda>_. Done (MBEDTLS_ERR_SSL_WANT_READ, c + 1))
        else Done (verdict, c + 1))),
     mb_write = (\<lambda>data c. BioSend (23 # data) (\<lambda>n. Done (if n < 0 then n else int (length data), c))),
     mb_read = (\<lambda>cap c. BioRecv 64 (\<lambda>(n, b). Done (if n \<le> 0 then Inl n else Inr (take cap (tl b)), c))),
     mb_seed = True, mb_defaults = True, mb_cookie_setup = True, mb_conf_psk = (\<lambda>key idn. True)\<rparr>"

definition small_dtls :: dtls_config where
  "small_dtls = default_dtls_config\<lparr>max_msg_size := 12, dtls_max_sessions := 2, dtls_max_psk_entries := 2\<rparr>"

definition quiet_udp :: arduino_udp where
  "quiet_udp = \<lparr>ud_begin_ok = True, ud_results = [], ud_sent = [], ud_inbox = []\<rparr>"

definition tls_peer :: endpoint where
  "tls_peer = raw_peer [10, 0, 0, 9] 5684"

definition demo_adapter :: "bool \<Rightarrow> nat dtls" where
  "demo_adapter server =
     snd (dtls_begin (demo_tls 0) 5684
       (snd (addPsk small_dtls (Some (str ''node'')) (Some [1, 2, 3, 4]) (new_dtls (demo_tls 0) small_dtls quiet_udp server))))"

text \<open>A client that has sent a packet, and whose peer has answered.\<close>

definition demo_session :: "nat dtls" where
  "demo_session = dtls_run (demo_tls 0) small_dtls
     [DtlsSend 0 tls_peer [64, 1], DtlsArrive [10, 0, 0, 9] 5684 [22, 2], DtlsReceive 5 12] (demo_adapter False)"

lemma demo_adapter_inv: "dtls_inv small_dtls (demo_adapter server)"
  unfolding demo_adapter_def by (intro dtls_begin_inv addPsk_inv new_dtls_inv)

lemma demo_session_inv: "dtls_inv small_dtls demo_session"
  unfolding demo_session_def by (intro dtls_run_inv demo_adapter_inv)



text \<open>
  C35: \<^verbatim>\<open>send\<close> reports success only when mbedTLS took the whole packet on the established
  session of that peer: never on first contact, during a handshake or on a failed session.
\<close>

theorem dtls_send_accepted:
  assumes "dtls_send mb k now to data d = (True, d')" "length data \<le> max_msg_size k"
  shows "\<exists>i e. findSession to d = Some i \<and> accepted_by mb now i data e \<and>
    ss_state (dt_sessions d' ! i) = ESTABLISHED"
  using assms by (rule dtls_send_True)

lemma demo_send:
  "fst (dtls_send (demo_tls 0) small_dtls 9 tls_peer [64, 2] demo_session) = True \<and>
   ud_sent (dt_udp (snd (dtls_send (demo_tls 0) small_dtls 9 tls_peer [64, 2] demo_session))) =
     [([10, 0, 0, 9], 5684, [22]), ([10, 0, 0, 9], 5684, [23, 64, 1]), ([10, 0, 0, 9], 5684, [23, 64, 2])]"
  by code_simp

lemma dtls_send_accepted_witness:
  "\<exists>i e. findSession tls_peer demo_session = Some i \<and> accepted_by (demo_tls 0) 9 i [64, 2] e"
  using dtls_send_accepted [of "demo_tls 0" small_dtls 9 tls_peer "[64, 2]" demo_session] demo_send
  by (auto simp: small_dtls_def prod_eq_iff)

text \<open>
  C30: \<^verbatim>\<open>receive\<close> hands up nothing but what mbedTLS decrypted: a datagram that comes out is the
  result of \<^verbatim>\<open>mbedtls_ssl_read\<close> on the session of its sender, which was established before the
  call, with that sender's record presented to it.
\<close>

theorem dtls_receive_authentic:
  assumes "dtls_inv k d" "dtls_receive mb k now cap d = ((remote, data), d')" "data \<noteq> []"
  shows "\<exists>ip port packet rest i c. ud_inbox (dt_udp d) = (ip, port, packet) # rest \<and> remote = raw_peer ip port \<and>
    i < length (dt_sessions d) \<and> ss_state (dt_sessions d ! i) = ESTABLISHED \<and>
    ep_eq (ss_peer (dt_sessions d ! i)) remote \<and>
    fst (run_ssl i now (mb_read mb cap (ss_ssl (dt_sessions d ! i)))
      (present_record i (loaded mb k now packet rest d))) = (Inr data, c)"
  using assms by (rule dtls_receive_data)

definition demo_incoming :: "nat dtls" where
  "demo_incoming = dtls_run (demo_tls 0) small_dtls [DtlsArrive [10, 0, 0, 9] 5684 [23, 96, 0]] demo_session"

lemma demo_receive: "fst (dtls_receive (demo_tls 0) small_dtls 9 12 demo_incoming) = (tls_peer, [96, 0])"
  by code_simp

lemma dtls_receive_authentic_witness:
  "\<exists>i. i < length (dt_sessions demo_incoming) \<and> ss_state (dt_sessions demo_incoming ! i) = ESTABLISHED \<and>
     ep_eq (ss_peer (dt_sessions demo_incoming ! i)) tls_peer"
proof -
  have inv: "dtls_inv small_dtls demo_incoming"
    unfolding demo_incoming_def by (intro dtls_run_inv demo_session_inv)
  have "dtls_receive (demo_tls 0) small_dtls 9 12 demo_incoming =
      ((tls_peer, [96, 0]), snd (dtls_receive (demo_tls 0) small_dtls 9 12 demo_incoming))"
    by (simp add: demo_receive prod_eq_iff)
  from dtls_receive_authentic [OF inv this] show ?thesis by blast
qed


text \<open>A server on which a client's two flights arrive, the first asking for a cookie.\<close>

definition cookie_server :: "nat dtls" where
  "cookie_server = dtls_run (demo_tls (- 0x6A80)) small_dtls
     [DtlsArrive [10, 0, 0, 9] 5684 [22, 1], DtlsReceive 0 12, DtlsArrive [10, 0, 0, 9] 5684 [22, 3]]
     (demo_adapter True)"

lemma cookie_server_state:
  "ss_state (dt_sessions cookie_server ! 0) = FAILED \<and> ss_peer (dt_sessions cookie_server ! 0) = tls_peer \<and>
   length (dt_sessions cookie_server) = 2 \<and> ud_inbox (dt_udp cookie_server) = [([10, 0, 0, 9], 5684, [22, 3])]"
  by code_simp


text \<open>
  A handshake is given up at the first \<^verbatim>\<open>receive\<close> more than the timeout after it began, even
  when the clock wraps in between, and its slot is then empty; every other session is kept.
  \<open>t\<close> is the true age of the handshake in milliseconds.
\<close>

theorem dtls_handshake_timeout:
  assumes "i < length (dt_sessions d)" "ud_inbox (dt_udp d) = []" "t < 2 ^ 32"
    and "now = ss_handshakeStartMs (dt_sessions d ! i) + of_nat t"
  shows "dt_sessions (snd (dtls_receive mb k now cap d)) ! i =
    (if ss_state (dt_sessions d ! i) = HANDSHAKING \<and> unat (dtls_handshake_timeout_ms k) < t
     then zero_session mb else dt_sessions d ! i)"
proof -
  have "unat (of_nat t :: u32) = t" using assms(3) by (simp add: unat_of_nat)
  then have "handshake_expired k now (dt_sessions d ! i) \<longleftrightarrow>
      ss_state (dt_sessions d ! i) = HANDSHAKING \<and> unat (dtls_handshake_timeout_ms k) < t"
    by (simp add: handshake_expired_def assms(4) word_less_nat_alt)
  with assms(1,2) tickTimeouts_frame [of mb k now d] show ?thesis
    by (simp add: dtls_receive_def tickTimeouts_nth)
qed

definition stuck_client :: "nat dtls" where
  "stuck_client = dtls_run (demo_tls 0) small_dtls [DtlsSend (- 5) tls_peer [64, 1]] (demo_adapter False)"

lemma stuck_client_state:
  "ss_state (dt_sessions stuck_client ! 0) = HANDSHAKING \<and> ss_handshakeStartMs (dt_sessions stuck_client ! 0) = - 5 \<and>
   length (dt_sessions stuck_client) = 2 \<and> ud_inbox (dt_udp stuck_client) = []"
  by code_simp

lemma dtls_handshake_timeout_witness:
  "dt_sessions (snd (dtls_receive (demo_tls 0) small_dtls 9996 12 stuck_client)) ! 0 = zero_session (demo_tls 0)"
  using dtls_handshake_timeout [of 0 stuck_client 10001 9996 "demo_tls 0" small_dtls 12] stuck_client_state
  by (simp add: small_dtls_def default_dtls_config_def dtls_config.defs config.defs)

text \<open>
  A key that was added is the key mbedTLS gets for its identity, and adding it changes no
  other lookup; the identity and the key come back byte for byte.
\<close>

theorem psk_round_trip:
  assumes "addPsk k (Some idn) (Some secret) d = (True, d')" "dtls_psk_max_len k < 256" "sPskCallback idn d = None"
  shows "sPskCallback identity d' = (if identity = idn then Some secret else sPskCallback identity d)"
  using sPskCallback_added [OF assms(1,2)] assms(3) by simp

lemma psk_round_trip_witness:
  "sPskCallback (str ''node'')
     (snd (addPsk small_dtls (Some (str ''node'')) (Some [1, 2, 3, 4]) (new_dtls (demo_tls 0) small_dtls quiet_udp True))) =
   Some [1, 2, 3, 4]"
proof -
  let ?d = "new_dtls (demo_tls 0) small_dtls quiet_udp True"
  have "fst (addPsk small_dtls (Some (str ''node'')) (Some [1, 2, 3, 4]) ?d) \<and> sPskCallback (str ''node'') ?d = None \<and>
      dtls_psk_max_len small_dtls = 32"
    by code_simp
  then show ?thesis
    using psk_round_trip [of small_dtls "str ''node''" "[1, 2, 3, 4]" ?d
        "snd (addPsk small_dtls (Some (str ''node'')) (Some [1, 2, 3, 4]) ?d)" "str ''node''"]
    by (simp add: prod_eq_iff)
qed

text \<open>
  The destructor frees every mbedTLS context exactly once after a \<^verbatim>\<open>begin\<close> that succeeded,
  over any sequence of calls in between. On an adapter that was never begun, and on a server
  whose random generator could not be seeded, it frees contexts that were never initialised.
\<close>

theorem dtls_destroy_balanced:
  assumes "dtls_begin mb port (new_dtls mb k udp server) = (True, d)"
  shows "dtls_destroy (dtls_run mb k es d) = Some 0 \<and>
    dtls_destroy (new_dtls mb k udp server) = None \<and>
    dtls_destroy (snd (dtls_begin (mb\<lparr>mb_seed := False\<rparr>) port (new_dtls mb k udp True))) = None"
proof -
  have "dtls_inv k d" using dtls_begin_inv [OF new_dtls_inv, of k mb port mb udp server] assms by simp
  then have "dtls_inv k (dtls_run mb k es d)" by (rule dtls_run_inv)
  moreover have "contexts_ready (dtls_run mb k es d)"
    by (simp add: contexts_ready_run dtls_begin_ready [OF assms])
  ultimately show ?thesis
    by (simp add: dtls_destroy_ready) (simp add: dtls_destroy_def new_dtls_def dtls_begin_def)
qed

lemma dtls_destroy_balanced_witness:
  "dtls_destroy (dtls_run (demo_tls 0) small_dtls [DtlsSend 0 tls_peer [64, 1]]
     (snd (dtls_begin (demo_tls 0) 5684 (new_dtls (demo_tls 0) small_dtls quiet_udp True)))) = Some 0"
proof -
  have "fst (dtls_begin (demo_tls 0) 5684 (new_dtls (demo_tls 0) small_dtls quiet_udp True))"
    by (simp add: dtls_begin_def new_dtls_def demo_tls_def arduino_begin_def quiet_udp_def)
  then show ?thesis
    using dtls_destroy_balanced [of "demo_tls 0" 5684 small_dtls quiet_udp True
        "snd (dtls_begin (demo_tls 0) 5684 (new_dtls (demo_tls 0) small_dtls quiet_udp True))"
        "[DtlsSend 0 tls_peer [64, 1]]"]
    by (simp add: prod_eq_iff)
qed

end
