(* ===== verification/Coap_End_To_End.thy ===== *)
theory Coap_End_To_End
  imports Coap_Exchange Coap_Transfer Coap_Client_Request Coap_Client_Response
begin

text \<open>
  A client and a server that talk to each other: what the server reads from the client's
  datagrams, and what the client makes of the server's.
\<close>

section \<open>The request at the server\<close>

lemma segments_bytes: "s \<in> set (segments p) \<Longrightarrow> set s \<subseteq> set p"
proof (induction p arbitrary: s rule: path_induct)
  case (slashes p)
  then show ?case by (simp add: segments_slashes)
next
  case (segment p seg rest)
  have "set (seg @ rest) \<subseteq> set p" unfolding segment.hyps(1) [symmetric] by (auto dest: set_dropWhileD)
  with segment.IH [of s] segment.prems segments_segment [OF segment.hyps(1-4)] show ?case by auto
qed

lemma canonical_path_nul:
  assumes "0 \<notin> set p"
  shows "0 \<notin> set (canonical_path p)"
proof -
  have "0 \<notin> set s" if "s \<in> set (segments p)" for s using segments_bytes [OF that] assms by blast
  then show ?thesis by (auto simp: canonical_path_def spell_def slash_def)
qed

lemma request_option_absent:
  "number \<noteq> Opt_UriPath \<Longrightarrow> number \<noteq> Opt_ContentFormat \<Longrightarrow>
   findOption number (request_of con mid tok meth (request_options cfg False False path p fmt) b) = None"
  by (intro findOption_None)
    (auto simp: request_of_def request_options_def observe_options_def Let_def uri_option_def)

lemma request_accepted:
  assumes path: "short_path path" "0 \<notin> set path" "length (canonical_path path) < max_uri_path_len cfg"
    and m: "m = sent_request cfg path meth payload fmt True False False c" "wf_message cfg m"
    and cfg: "valid_config cfg" and mask: "requested_mask meth = Some methodBit"
    and r: "route cfg rs (canonical_path path) = Some (i, ps)" "rs_methods (rs ! i) AND methodBit \<noteq> 0"
  shows "joinUriPath m (max_uri_path_len cfg) = Some (canonical_path path)"
    and "refusal cfg rs m = None"
proof -
  have u: "uri_segments m = segments path"
    by (simp add: m(1) sent_request_def request_uri_segments [OF path(1)])
  have w: "list_all wf_option (msg_options m)" "2 \<le> max_uri_path_len cfg"
    using m(2) cfg by (simp_all add: wf_message_def valid_config_def)
  show j: "joinUriPath m (max_uri_path_len cfg) = Some (canonical_path path)"
    using path(3) unfolding joinUriPath_spec [OF w] u
    by (cases "segments path = []") (simp_all add: canonical_path_def, simp add: spell_def)
  have "requested_mask (msg_code m) = Some methodBit" by (simp add: m(1) sent_request_def request_of_def mask)
  then show "refusal cfg rs m = None"
    using r cstr_no_nul [OF canonical_path_nul [OF path(2)]]
    by (simp add: refusal_def j method_allowed_def)
qed

lemma serve_request:
  assumes inv: "server_inv cfg s" "valid_config cfg" and m: "wf_message cfg m"
    and plain: "findOption Opt_Block1 m = None" "findOption Opt_Observe m = None"
    and ok: "refusal cfg (sv_resources s) m = None" "joinUriPath m (max_uri_path_len cfg) = Some p"
      "route cfg (sv_resources s) (cstr p) = Some (i, ps)"
    and d: "reserve_deferred from m s = (d, s2)"
    and run: "run_handler cfg env (sv_resources s2 ! i) (make_request m from d None ps) s2 = (res, s3)"
    and now: "\<not> res_deferred res \<or> d = None" "fits_one_block cfg m (res_payload res)"
    and reply: "reply = response_to m (sv_nextMessageId s3) (res_code res) (res_payload res)
      (res_contentFormat res) (- 1)" "encode reply (max_msg_size cfg) \<noteq> []"
  shows "\<exists>s4. handleRequest cfg env m from s = Some s4 \<and>
    tp_sent (sv_transport s4) = tp_sent (sv_transport s3) @ [(from, encode reply (max_msg_size cfg))] \<and>
    sv_resources s4 = sv_resources s3 \<and> server.more s4 = server.more s3"
proof -
  have obs: "handle_observe i m from s = (- 1, s)" by (simp add: handle_observe_def plain(2))
  have "handleRequest cfg env m from s = Some (handle_plain cfg env i ps m from (- 1) s)"
    using plain(1) by (intro handleRequest_accepted [OF inv ok(1) _ ok(2,3) obs]) simp
  moreover have "handle_plain cfg env i ps m from (- 1) s = send_encoded cfg reply from
      ((unreserve_deferred d s3)\<lparr>sv_nextMessageId := next_id m (sv_nextMessageId s3)\<rparr>)"
    unfolding reply(1) by (rule handle_plain_immediate [OF m inv(2) now(2) d run now(1)])
  moreover have "tp_sent (sv_transport (unreserve_deferred d s3)) = tp_sent (sv_transport s3)"
    "sv_resources (unreserve_deferred d s3) = sv_resources s3" "server.more (unreserve_deferred d s3) = server.more s3"
    by (simp_all add: unreserve_deferred_def split: option.split)
  ultimately show ?thesis using reply(2) by (simp add: send_encoded_def sv_send_def)
qed

section \<open>The response at the client\<close>

lemma response_reply:
  assumes "wf_message cfg m" "valid_config cfg" "msg_type m = Confirmable"
    and "reply = response_to m fresh code payload fmt (- 1)" "encode reply (max_msg_size cfg) \<noteq> []"
  shows "decode cfg (encode reply (max_msg_size cfg)) = Decoded reply"
    and "msg_type reply = Acknowledgement" "msg_code reply = code" "msg_token reply = msg_token m"
      "msg_messageId reply = msg_messageId m" "msg_payload reply = reply_payload payload"
    and "response_format reply = (if payload = None \<or> payload = Some [] then CF_TextPlain else fmt)"
    and "findOption Opt_Block2 reply = None"
proof -
  have o': "reply_options fmt (- 1) payload =
      (if payload = None \<or> payload = Some [] then [] else [uint_option Opt_ContentFormat (ucast fmt)])"
    by (simp add: reply_options_def)
  have "list_all wf_option (reply_options fmt (- 1) payload)"
    "length (reply_options fmt (- 1) payload) \<le> max_options cfg" "reply_payload payload \<noteq> Some []"
    using assms(2) by (simp_all add: o' wf_uint_option valid_config_def reply_payload_def)
  with decode_answer [OF assms(1)] assms(2) encode_eq_wire [OF assms(5)]
  show "decode cfg (encode reply (max_msg_size cfg)) = Decoded reply"
    by (simp add: assms(4) response_to_def valid_config_def)
  show "msg_type reply = Acknowledgement" "msg_code reply = code" "msg_token reply = msg_token m"
      "msg_messageId reply = msg_messageId m" "msg_payload reply = reply_payload payload"
    using assms(3) by (simp_all add: assms(4) response_to_def answer_def)
  have opts: "msg_options reply = (if payload = None \<or> payload = Some [] then []
      else [uint_option Opt_ContentFormat (ucast fmt)])"
    by (simp add: assms(4) response_to_def answer_def o')
  then show "findOption Opt_Block2 reply = None"
    by (intro findOption_None) (auto simp: opt_defs)
  have "(ucast (ucast fmt :: u32) :: u16) = fmt" by (rule bit_word_eqI) (simp add: bit_simps)
  moreover have "findOption Opt_ContentFormat reply = Some (uint_option Opt_ContentFormat (ucast fmt))"
    if "\<not> (payload = None \<or> payload = Some [])"
    using that opts by (intro findOption_Some [where xs = "[]" and ys = "[]"]) simp_all
  moreover have "findOption Opt_ContentFormat reply = None" if "payload = None \<or> payload = Some []"
    using that opts by (intro findOption_None) auto
  ultimately show "response_format reply = (if payload = None \<or> payload = Some [] then CF_TextPlain else fmt)"
    by (simp add: response_format_def optionAsUint_uint_option)
qed

text \<open>A call that has gone out waits in a slot that its token finds.\<close>

lemma waiting_call:
  assumes "sendRequest cfg srv path meth payload fmt True False False h ctx False c = (True, c1)"
    and "valid_config cfg" "short_path path"
    and m: "m = sent_request cfg path meth payload fmt True False False c"
    and "client_inv cfg c" "list_all (\<lambda>p. \<not> pending_matches (msg_token m) p) (cl_pending c)"
  obtains slot where "slot < length (cl_pending c)" "encode m (max_msg_size cfg) \<noteq> []" "wf_message cfg m"
    "tp_sent (cl_transport c1) = tp_sent (cl_transport c) @ [(srv, encode m (max_msg_size cfg))]"
    "findPendingByToken (msg_token m) c1 = Some slot" "cl_discovers c1 = cl_discovers c"
    "pd_onResponse (cl_pending c1 ! slot) = h" "pd_userContext (cl_pending c1 ! slot) = ctx"
    "\<And>r. findOption Opt_Block2 r = None \<Longrightarrow> plain_response cfg slot r c1"
proof -
  obtain slot where slot: "slot < length (cl_pending c)" "encode m (max_msg_size cfg) \<noteq> []" "wf_message cfg m"
    "cl_transport c1 = snd (transport_send srv (encode m (max_msg_size cfg)) (cl_transport c))"
    "cl_pending c1 = (cl_pending c)[slot := pending_entry srv (cl_nextTokenByte c) h ctx False
                                             (stored_path cfg path)]"
    "cl_discovers c1 = cl_discovers c"
    "slot < length (cl_uploads c) \<and> enable_blockwise cfg \<longrightarrow> \<not> up_active (cl_uploads c1 ! slot)"
    by (rule sendRequest_success [OF assms(1-3) m])
  have tok: "msg_token m = [cl_nextTokenByte c]" by (simp add: m sent_request_def request_of_def)
  have "findPendingByToken (msg_token m) c1 = Some slot"
    unfolding findPendingByToken_def
  proof (rule first_slot_unique)
    show "slot < length (cl_pending c1)" "pending_matches (msg_token m) (cl_pending c1 ! slot)"
      using slot(1) by (simp_all add: slot(5) pending_matches_def pending_entry_def tok)
    show "\<not> pending_matches (msg_token m) (cl_pending c1 ! j)" if "j < slot" for j
      using that slot(1) assms(6) by (simp add: slot(5) list_all_length)
  qed
  then show thesis
    using slot(1,7) assms(5) by (intro that [OF slot(1-3) _ _ slot(6)])
      (simp_all add: slot(4,5) pending_entry_def plain_response_def client_inv_def)
qed

text \<open>The client's state when the response reaches its callback: the transaction is complete.\<close>

definition at_callback :: "u32 \<Rightarrow> endpoint \<Rightarrow> u16 \<Rightarrow> 'c client_scheme \<Rightarrow> 'c client_scheme" where
  "at_callback now from mid c =
     c\<lparr>cl_lastNowMs := now, cl_transport := (cl_transport c)\<lparr>tp_inbox := tl (tp_inbox (cl_transport c))\<rparr>,
       cl_pool := snd (tx_complete from mid (cl_pool c))\<rparr>"

lemma poll_delivers:
  assumes "decode cfg d = Decoded r" "d \<noteq> []" "length d \<le> max_msg_size cfg" "valid_config cfg"
    and "msg_type r = Acknowledgement" "msg_code r \<noteq> Code_Empty" "\<not> isMethodCode (msg_code r)"
    and "tp_inbox (cl_transport c) = (from, d) # rest"
    and "list_all (\<lambda>d. \<not> discover_matches (msg_token r) d) (cl_discovers c)"
    and "findPendingByToken (msg_token r) c = Some slot" "plain_response cfg slot r c"
  shows "client_poll cfg env now c =
    Some (poll_timers cfg env now (deliver_response env slot r (at_callback now from (msg_messageId r) c)))"
proof -
  let ?c = "at_callback now from (msg_messageId r) c"
  have "first_slot (discover_matches (msg_token r)) (cl_discovers ?c) = None"
    using assms(9) by (simp add: at_callback_def first_slot_None_iff list_all_iff)
  moreover have "findPendingByToken (msg_token r) ?c = Some slot"
    using assms(10) by (simp add: at_callback_def findPendingByToken_def)
  moreover have "acked cfg r from ?c = ?c" using assms(5) by (simp add: acked_def)
  moreover have "plain_response cfg slot r ?c" using assms(11) by (simp add: at_callback_def plain_response_def)
  moreover have "4 \<le> max_msg_size cfg" using assms(4) by (simp add: valid_config_def)
  ultimately have "handle_response cfg env r from ?c = deliver_response env slot r ?c"
    by (simp add: handle_response_acked dispatch_plain)
  moreover have "transport_receive (max_msg_size cfg) (cl_transport c) =
      ((from, d), (cl_transport c)\<lparr>tp_inbox := rest\<rparr>)"
    using assms(3,8) by (simp add: transport_receive_def)
  ultimately show ?thesis
    using assms(1,2,5-8) by (simp add: client_poll_def at_callback_def Let_def)
qed

section \<open>Bodies in blocks\<close>

text \<open>The last block of a body of length \<open>len\<close> in blocks of size \<open>sz\<close>.\<close>

definition last_block :: "nat \<Rightarrow> nat \<Rightarrow> nat" where
  "last_block len sz = (len - 1) div sz"

lemma last_block_more:
  assumes "0 < sz" "0 < len" "n \<le> last_block len sz"
  shows "n * sz + sz < len \<longleftrightarrow> n < last_block len sz"
proof -
  have "n < (len - 1) div sz \<longleftrightarrow> Suc n * sz \<le> len - 1"
    using assms(1) by (simp add: less_eq_div_iff_mult_less_eq Suc_le_eq [symmetric])
  with assms(2) show ?thesis by (auto simp: last_block_def)
qed

lemma last_block_all: "0 < sz \<Longrightarrow> len \<le> Suc (last_block len sz) * sz"
  using dividend_less_times_div [of sz "len - 1"] by (simp add: last_block_def algebra_simps)

lemma last_block_in:
  assumes "0 < sz" "0 < len" "n \<le> last_block len sz"
  shows "n * sz < len"
proof -
  have "n * sz \<le> last_block len sz * sz" using assms(3) by simp
  also have "\<dots> \<le> len - 1" by (simp add: last_block_def)
  finally show ?thesis using assms(2) by simp
qed

lemma block_size_pos:
  assumes "szx \<le> (6 :: u8)"
  shows "0 < unat (shift_size szx)"
proof -
  have "szx \<le> 7" using assms by (rule order_trans) simp
  then show ?thesis by (simp only: unat_shift_size) simp
qed

text \<open>Messages that carry the blocks of a body, whatever else they are, carry the body.\<close>

lemma blocks_body:
  assumes "0 < sz" "\<And>n. n \<le> last_block (length p) sz \<Longrightarrow> payload_bytes (f n) = slice p sz n"
  shows "body_of (map f [0..<Suc (last_block (length p) sz)]) = p"
proof -
  have "map (payload_bytes \<circ> f) [0..<Suc (last_block (length p) sz)] =
      map (slice p sz) [0..<Suc (last_block (length p) sz)]"
    using assms(2) by (intro map_cong) auto
  then show ?thesis
    using slices_concat [OF last_block_all [OF assms(1)], of p] by (simp only: body_of_def map_map)
qed

lemma in_order_map:
  assumes "\<And>j. j < n \<Longrightarrow> is_block token (k + j) True (f j)"
  shows "in_order token k (map f [0..<n])"
  using assms
proof (induction n arbitrary: k f)
  case (Suc n)
  have "map f [0..<Suc n] = f 0 # map (\<lambda>j. f (Suc j)) [0..<n]"
    by (simp only: map_upt_Suc)
  with Suc.IH [of "Suc k" "\<lambda>j. f (Suc j)"] Suc.prems [of 0] Suc.prems [of "Suc _"] show ?case by simp
qed simp

lemma blocks2_in_order_map:
  assumes "\<And>j. j < n \<Longrightarrow> is_block2 (k + j) True (f j)"
  shows "blocks2_in_order k (map f [0..<n])"
  using assms
proof (induction n arbitrary: k f)
  case (Suc n)
  have "map f [0..<Suc n] = f 0 # map (\<lambda>j. f (Suc j)) [0..<n]"
    by (simp only: map_upt_Suc)
  with Suc.IH [of "Suc k" "\<lambda>j. f (Suc j)"] Suc.prems [of 0] Suc.prems [of "Suc _"] show ?case by simp
qed simp

lemma block1_message_is_block:
  assumes "p \<noteq> []" "szx \<le> 6" "n < 2 ^ 20" "n \<le> last_block (length p) (unat (shift_size szx))"
  shows "is_block [tok] n (n < last_block (length p) (unat (shift_size szx)))
    (block1_message mid tok meth path fmt p szx n)"
  using block1_message_fields [OF assms(3,2)] last_block_more [OF block_size_pos [OF assms(2)] _ assms(4)] assms(1)
  by (simp add: is_block_def)

lemma block2_message_is_block:
  assumes "p \<noteq> []" "szx \<le> 6" "n < 2 ^ 20" "n \<le> last_block (length p) (unat (shift_size szx))"
  shows "is_block2 n (n < last_block (length p) (unat (shift_size szx)))
      (block2_message m fresh code p fmt obs (of_nat n) szx)"
    and "payload_bytes (block2_message m fresh code p fmt obs (of_nat n) szx) =
      slice p (unat (shift_size szx)) n"
proof -
  let ?sz = "unat (shift_size szx)"
  have n: "unat (of_nat n :: u32) = n" using assms(3) by (simp add: unat_of_nat)
  let ?opt = "uint_option Opt_Block2 (toOptionValue (of_nat n) (n * ?sz + ?sz < length p) szx)"
  let ?pre = "(if 0 \<le> sint obs then [uint_option Opt_Observe obs] else []) @
    [uint_option Opt_ContentFormat (ucast fmt)]"
  have "findOption Opt_Block2 (block2_message m fresh code p fmt obs (of_nat n) szx) = Some ?opt"
    by (rule findOption_Some [where xs = ?pre and ys = "[]"])
      (auto simp: block2_message_def answer_def Let_def n opt_defs)
  moreover have "szx \<le> 7" using assms(2) by (rule order_trans) simp
  with assms(3) n have "fromOption ?opt = Some \<lparr>blk_num = of_nat n, blk_m = (n * ?sz + ?sz < length p),
      blk_szx = szx\<rparr>"
    by (intro fromOption_uint_option) simp_all
  ultimately show "is_block2 n (n < last_block (length p) (unat (shift_size szx)))
      (block2_message m fresh code p fmt obs (of_nat n) szx)"
    using last_block_more [OF block_size_pos [OF assms(2)] _ assms(4)] assms(1)
    by (simp add: is_block2_def block2_of_def)
  show "payload_bytes (block2_message m fresh code p fmt obs (of_nat n) szx) =
      slice p (unat (shift_size szx)) n"
    by (simp add: block2_message_def answer_def payload_bytes_def Let_def n)
qed

lemma block2_message_format:
  "response_format (block2_message m fresh code p fmt obs num szx) = fmt"
proof -
  have "findOption Opt_ContentFormat (block2_message m fresh code p fmt obs num szx) =
      Some (uint_option Opt_ContentFormat (ucast fmt))"
    by (rule findOption_Some [where xs = "if 0 \<le> sint obs then [uint_option Opt_Observe obs] else []" and
          ys = "[uint_option Opt_Block2 (toOptionValue num (unat num * unat (shift_size szx) +
            unat (shift_size szx) < length p) szx)]"])
      (auto simp: block2_message_def answer_def Let_def opt_defs)
  moreover have "(ucast (ucast fmt :: u32) :: u16) = fmt" by (rule bit_word_eqI) (simp add: bit_simps)
  ultimately show ?thesis by (simp add: response_format_def optionAsUint_uint_option)
qed

end
