(* ===== verification/Coap_Recovery.thy ===== *)
theory Coap_Recovery
  imports Coap_End_To_End
begin

text \<open>
  Recovery from losses: what a client does between a call and the response when datagrams are
  lost. Its polls find nothing, and the tick of the pool resends the stored datagram of the one
  transaction that is in flight.
\<close>

section \<open>A pool with one transaction in flight\<close>

definition only_slot :: "nat \<Rightarrow> pool \<Rightarrow> bool" where
  "only_slot k p \<longleftrightarrow> k < length p \<and> (\<forall>j < length p. j \<noteq> k \<longrightarrow> \<not> in_flight (p ! j))"

lemma only_slot_update [simp]: "only_slot k p \<Longrightarrow> only_slot k (p[k := t])"
  by (simp add: only_slot_def)

lemma tick_idle_slots:
  assumes "\<And>i. i \<in> set xs \<Longrightarrow> \<not> in_flight (get s ! i)"
  shows "fold (tick_slot cfg get put_pool resend onTimeout now) xs s = s"
  using assms by (induction xs) (simp_all add: tick_slot_tick_tx tick_tx_def)

lemma tick_only_slot:
  assumes "only_slot k (get s)" "s' = tick_slot cfg get put_pool resend onTimeout now k s"
    and "only_slot k (get s')" "length (get s') = length (get s)"
  shows "tx_tick cfg get put_pool resend onTimeout now s = s'"
proof -
  have k: "k < length (get s)" using assms(1) by (simp add: only_slot_def)
  then have "[0..<length (get s)] = [0..<k] @ k # [Suc k..<length (get s)]"
    using upt_add_eq_append [of 0 k "length (get s) - k"] upt_conv_Cons [OF k] by simp
  moreover have "fold (tick_slot cfg get put_pool resend onTimeout now) [0..<k] s = s"
    using assms(1) by (intro tick_idle_slots) (simp add: only_slot_def)
  moreover have "fold (tick_slot cfg get put_pool resend onTimeout now) [Suc k..<length (get s)] s' = s'"
    using assms(3,4) by (intro tick_idle_slots) (simp add: only_slot_def)
  ultimately show ?thesis by (simp add: tx_tick_def assms(2))
qed

lemma client_tick_only_slot:
  assumes "only_slot k (cl_pool c)" "tick_tx cfg now (cl_pool c ! k) = (t', e)" "e \<noteq> GaveUp"
  shows "tx_tick cfg cl_pool put_cl_pool clientResend (clientTimeout env) now c =
    (case e of Resent \<Rightarrow> clientResend (tx_remote t') (tx_message t') (put_cl_pool ((cl_pool c)[k := t']) c)
     | _ \<Rightarrow> c)"
proof -
  have t': "tx_remote t' = tx_remote (cl_pool c ! k)" "tx_message t' = tx_message (cl_pool c ! k)"
    using tick_tx_static(1,2) [of cfg now "cl_pool c ! k"] assms(2) by simp_all
  then have s: "tick_slot cfg cl_pool put_cl_pool clientResend (clientTimeout env) now k c =
      (case e of Resent \<Rightarrow> clientResend (tx_remote t') (tx_message t') (put_cl_pool ((cl_pool c)[k := t']) c)
       | _ \<Rightarrow> c)"
    using assms(2,3) by (cases e) (simp_all add: tick_slot_tick_tx Let_def)
  show ?thesis
    using assms(1) by (intro tick_only_slot [where k = k])
      (cases e; simp add: s clientResend_def put_cl_pool_def frame_simps)+
qed

section \<open>Polls while the network is silent\<close>

text \<open>
  \<open>silent_since c1 ... c\<close>: the client was in \<open>c1\<close> when its request went out to \<open>srv\<close> as
  \<open>buf\<close> in transaction slot \<open>k\<close>, and since then it was polled, the last time at \<open>n0\<close>, and
  received nothing; \<open>r\<close> copies went out.
\<close>

definition silent_since ::
    "config \<Rightarrow> 'c client_scheme \<Rightarrow> nat \<Rightarrow> endpoint \<Rightarrow> bytes \<Rightarrow> nat \<Rightarrow> nat \<Rightarrow> nat \<Rightarrow> nat \<Rightarrow> nat \<Rightarrow> nat \<Rightarrow> 'c client_scheme \<Rightarrow> bool" where
  "silent_since cfg c1 k srv buf b T G n0 D r c \<longleftrightarrow>
     cl_pending c = cl_pending c1 \<and> cl_uploads c = cl_uploads c1 \<and> cl_recvs c = cl_recvs c1 \<and>
     cl_onTimeout c = cl_onTimeout c1 \<and> cl_nextMessageId c = cl_nextMessageId c1 \<and>
     cl_nextTokenByte c = cl_nextTokenByte c1 \<and>
     (\<forall>tok. list_all (\<lambda>d. \<not> discover_matches tok d) (cl_discovers c1) \<longrightarrow>
        list_all (\<lambda>d. \<not> discover_matches tok d) (cl_discovers c)) \<and>
     tp_inbox (cl_transport c) = [] \<and>
     tp_sent (cl_transport c) = tp_sent (cl_transport c1) @ replicate r (srv, buf) \<and>
     only_slot k (cl_pool c) \<and> length (cl_pool c) = length (cl_pool c1) \<and>
     tx_remote (cl_pool c ! k) = srv \<and> tx_message (cl_pool c ! k) = buf \<and>
     tx_token (cl_pool c ! k) = tx_token (cl_pool c1 ! k) \<and>
     tx_messageId (cl_pool c ! k) = tx_messageId (cl_pool c1 ! k) \<and>
     scheduled cfg b T G n0 D r (cl_pool c ! k)"

lemma expire_discovers_frame [frame_simps]:
  "cl_pool (expire_discovers cfg now c) = cl_pool c" "cl_pending (expire_discovers cfg now c) = cl_pending c"
  "cl_transport (expire_discovers cfg now c) = cl_transport c"
  "cl_uploads (expire_discovers cfg now c) = cl_uploads c" "cl_recvs (expire_discovers cfg now c) = cl_recvs c"
  "cl_onTimeout (expire_discovers cfg now c) = cl_onTimeout c"
  "cl_nextMessageId (expire_discovers cfg now c) = cl_nextMessageId c"
  "cl_nextTokenByte (expire_discovers cfg now c) = cl_nextTokenByte c"
  by (simp_all add: expire_discovers_def)

lemma expire_discovers_unmatched:
  "list_all (\<lambda>d. \<not> discover_matches tok d) (cl_discovers c) \<Longrightarrow>
   list_all (\<lambda>d. \<not> discover_matches tok d) (cl_discovers (expire_discovers cfg now c))"
  by (auto simp: expire_discovers_def list_all_iff discover_matches_def)

lemma silent_poll:
  assumes "silent_since cfg c1 k srv buf b T G n0 D r c"
    and "0 < b" "b * 2 ^ max_retransmit cfg < 2 ^ 31" "max_retransmit cfg \<le> 255"
    and "n0 \<le> n" "n \<le> n0 + G" "G < 2 ^ 31" "r < max_retransmit cfg \<or> n < T + give_up_time cfg b"
  shows "\<exists>c' r' D'. client_poll cfg env (of_nat n) c = Some c' \<and> r' \<in> {r, Suc r} \<and>
    silent_since cfg c1 k srv buf b T G n D' r' c'"
proof -
  let ?c = "c\<lparr>cl_lastNowMs := of_nat n\<rparr>" and ?t = "cl_pool c ! k"
  have i: "tp_inbox (cl_transport c) = []" "scheduled cfg b T G n0 D r ?t" "only_slot k (cl_pool c)"
    using assms(1) by (simp_all add: silent_since_def)
  obtain t' e where t: "tick_tx cfg (of_nat n) ?t = (t', e)" by fastforce
  note s = scheduled_tick [OF i(2) assms(2-7) t]
  with assms(8) have e: "e \<noteq> GaveUp" by auto
  have st: "tx_remote t' = tx_remote ?t" "tx_message t' = tx_message ?t" "tx_token t' = tx_token ?t"
    "tx_messageId t' = tx_messageId ?t"
    using tick_tx_static [of cfg "of_nat n" ?t] t by simp_all
  let ?x = "expire_discovers cfg (of_nat n) ?c"
  have "transport_receive (max_msg_size cfg) (cl_transport c) = ((empty_endpoint, []), cl_transport c)"
    using i(1) by (simp add: transport_receive_def)
  then have poll: "client_poll cfg env (of_nat n) c = Some (poll_timers cfg env (of_nat n) ?c)"
    by (simp add: client_poll_def)
  have timers: "poll_timers cfg env (of_nat n) ?c = (case e of
      Resent \<Rightarrow> clientResend srv buf (put_cl_pool ((cl_pool c)[k := t']) ?x) | _ \<Rightarrow> ?x)"
    using client_tick_only_slot [where c = ?x, OF _ _ e] t i(3) st assms(1)
    by (cases e) (simp_all add: poll_timers_def frame_simps silent_since_def)
  have k: "k < length (cl_pool c)" using i(3) by (simp add: only_slot_def)
  have d: "list_all (\<lambda>d. \<not> discover_matches tok d) (cl_discovers ?x)"
    if "list_all (\<lambda>d. \<not> discover_matches tok d) (cl_discovers c1)" for tok
    using that assms(1) by (intro expire_discovers_unmatched) (simp add: silent_since_def)
  have same: "t' = ?t" if "e = Quiet" using t that by (auto simp: tick_tx_def split: if_splits)
  have x: "silent_since cfg c1 k srv buf b T G n D r ?x" if "scheduled cfg b T G n D r ?t"
    using assms(1) that d by (simp add: silent_since_def frame_simps)
  have y: "silent_since cfg c1 k srv buf b T G n D' (Suc r)
      (clientResend srv buf (put_cl_pool ((cl_pool c)[k := t']) ?x))"
    if "scheduled cfg b T G n D' (Suc r) t'" for D'
    using assms(1) that d st k
    by (simp add: silent_since_def frame_simps clientResend_def put_cl_pool_def cl_send_def split_def Let_def
        replicate_append_same [symmetric])
  from s e show ?thesis
  proof (elim disjE conjE)
    assume "e = Quiet" "scheduled cfg b T G n D r t'"
    with x same poll timers show ?thesis by auto
  next
    assume "e = Resent" "scheduled cfg b T G n (n + b * 2 ^ Suc r) (Suc r) t'"
    moreover from this(2) have "silent_since cfg c1 k srv buf b T G n (n + b * 2 ^ Suc r) (Suc r)
        (clientResend srv buf (put_cl_pool ((cl_pool c)[k := t']) ?x))" by (rule y)
    ultimately show ?thesis using poll timers
      by (intro exI [of _ "clientResend srv buf (put_cl_pool ((cl_pool c)[k := t']) ?x)"] exI [of _ "Suc r"]
          exI [of _ "n + b * 2 ^ Suc r"]) (simp del: power_Suc)
  qed simp
qed

lemma polled_le_last: "polled G n0 ns \<Longrightarrow> n0 \<le> last (n0 # ns)"
  by (induction ns arbitrary: n0) fastforce+

lemma silent_polls:
  assumes "silent_since cfg c1 k srv buf b T G n0 D r c"
    and "0 < b" "b * 2 ^ max_retransmit cfg < 2 ^ 31" "max_retransmit cfg \<le> 255"
    and "polled G n0 ns" "G < 2 ^ 31" "last (n0 # ns) < T + give_up_time cfg b"
  shows "\<exists>c' r' D'. polls cfg env (map of_nat ns) c = Some c' \<and>
    silent_since cfg c1 k srv buf b T G (last (n0 # ns)) D' r' c'"
  using assms(1,5,7)
proof (induction ns arbitrary: n0 D r c)
  case Nil
  then show ?case by auto
next
  case (Cons n ns)
  have n: "n0 \<le> n" "n \<le> n0 + G" "polled G n ns" "n < T + give_up_time cfg b"
    using Cons.prems(2,3) polled_le_last [of G n ns] by auto
  obtain c' r' D' where c': "client_poll cfg env (of_nat n) c = Some c'"
    "silent_since cfg c1 k srv buf b T G n D' r' c'"
    using silent_poll [OF Cons.prems(1) assms(2-4) n(1,2) assms(6)] n(4) by blast
  from Cons.IH [OF c'(2) n(3)] Cons.prems(3) c'(1) show ?case by simp
qed

text \<open>How many copies went out: at least one more once the \<open>j\<close>-th deadline has passed.\<close>

lemma silent_copies:
  assumes "silent_since cfg c1 k srv buf b T G n D r c"
  shows "r \<le> max_retransmit cfg" and "T + b * (2 ^ Suc j - 1) + j * G \<le> n \<Longrightarrow> j < r"
proof -
  have s: "r \<le> max_retransmit cfg" "n < D" "D \<le> T + b * (2 ^ Suc r - 1) + r * G"
    using assms by (simp_all add: silent_since_def scheduled_def)
  show "r \<le> max_retransmit cfg" by (rule s)
  assume le: "T + b * (2 ^ Suc j - 1) + j * G \<le> n"
  show "j < r"
  proof (rule ccontr)
    assume "\<not> j < r"
    then have "b * (2 ^ Suc r - 1) \<le> b * (2 ^ Suc j - 1)" "r * G \<le> j * G"
      by (auto intro!: mult_left_mono diff_le_mono power_increasing)
    with s le show False by linarith
  qed
qed

lemma silent_start:
  assumes "sendRequest cfg srv path meth payload fmt True reg dereg h ctx mark c = (True, c1)"
    and "valid_config cfg" "short_path path" "client_inv cfg c" "backoff_fits cfg"
    and m: "m = sent_request cfg path meth payload fmt True reg dereg c"
    and "no_traffic c" "cl_lastNowMs c = of_nat T"
  shows "\<exists>k D. silent_since cfg c1 k srv (encode m (max_msg_size cfg))
    (first_timeout cfg (cl_nextMessageId c)) T G T D 0 c1"
proof -
  obtain slot where s: "slot < length (cl_pending c)"
    "cl_transport c1 = snd (transport_send srv (encode m (max_msg_size cfg)) (cl_transport c))"
    "cl_pool c1 = snd (tx_start cfg srv (msg_messageId m) (msg_token m)
       (encode m (max_msg_size cfg)) (cl_lastNowMs c) (cl_pool c))"
    using sendRequest_success [OF assms(1-3) m] by (metis (full_types))
  have m': "msg_messageId m = cl_nextMessageId c" "msg_token m = [cl_nextTokenByte c]"
    by (simp_all add: m sent_request_def request_of_def)
  have idle: "list_all (\<lambda>t. \<not> in_flight t) (cl_pool c)" "tp_inbox (cl_transport c) = []"
    using assms(7) by (simp_all add: no_traffic_def)
  have "length (cl_pool c) = length (cl_pending c)"
    using assms(4) by (simp add: client_inv_def wf_pool_def)
  moreover have "occupancy in_flight (cl_pool c) = 0"
    using idle(1) by (simp add: occupancy_def filter_empty_conv list_all_iff)
  ultimately have room: "\<not> (max_token_len cfg < length (msg_token m) \<or>
      max_msg_size cfg < length (encode m (max_msg_size cfg)) \<or>
      occupancy in_flight (cl_pool c) = length (cl_pool c))"
    using assms(2) s(1) encode_length [of m "max_msg_size cfg"] by (auto simp: m' valid_config_def)
  let ?b = "first_timeout cfg (cl_nextMessageId c)"
  show ?thesis
  proof (cases "tx_start cfg srv (msg_messageId m) (msg_token m) (encode m (max_msg_size cfg))
      (cl_lastNowMs c) (cl_pool c)" rule: prod.exhaust)
    case (Pair res p')
    then show ?thesis
    proof (cases rule: tx_start_cases)
      case refused
      with room show ?thesis by blast
    next
      case (started k)
      have o: "only_slot k (cl_pool c1)" "k < length (cl_pool c)"
        using started(2,4) idle(1) Pair s(3) by (simp_all add: only_slot_def list_all_length)
      have "scheduled cfg ?b T G T (T + ?b) 0 (cl_pool c1 ! k)"
        using scheduled_start [OF assms(5)] started(2,4) Pair by (simp add: s(3) assms(8) m'(1))
      with o show ?thesis
        using idle(2) started(2,4) Pair
        by (intro exI [of _ k] exI [of _ "T + ?b"])
          (simp add: silent_since_def s(2,3) fill_transaction_def Let_def)
    qed
  qed
qed

section \<open>The exchange, from any state of the client in which the call still waits\<close>

definition arriving :: "endpoint \<Rightarrow> bytes \<Rightarrow> 'c client_scheme \<Rightarrow> 'c client_scheme" where
  "arriving srv d c = c\<lparr>cl_transport := (cl_transport c)\<lparr>tp_inbox := [(srv, d)]\<rparr>\<rparr>"

definition same_wait :: "endpoint \<Rightarrow> bytes \<Rightarrow> bytes \<Rightarrow> 'c client_scheme \<Rightarrow> 'c client_scheme \<Rightarrow> bool" where
  "same_wait srv tok d c1 c2 \<longleftrightarrow>
     cl_pending c2 = cl_pending c1 \<and> cl_uploads c2 = cl_uploads c1 \<and>
     list_all (\<lambda>d. \<not> discover_matches tok d) (cl_discovers c2) \<and>
     tp_inbox (cl_transport c2) = [(srv, d)]"

lemma exchange_core:
  assumes "valid_config cfg" "client_inv cfg c" "server_inv cfg s"
    and "short_path path" "0 \<notin> set path" "length (canonical_path path) < max_uri_path_len cfg"
    and "sendRequest cfg srv path meth payload fmt True False False (Some h) ctx False c = (True, c1)"
    and "m = sent_request cfg path meth payload fmt True False False c"
    and "list_all (\<lambda>p. \<not> pending_matches (msg_token m) p) (cl_pending c)"
    and "route cfg (sv_resources s) (canonical_path path) = Some (i, ps)"
    and "rs_methods (sv_resources s ! i) AND methodBit \<noteq> 0"
    and "reserve_deferred me m s = (d, s2)"
    and "run_handler cfg senv (sv_resources s2 ! i) (make_request m me d None ps) s2 = (res, s3)"
    and "\<not> res_deferred res \<or> d = None" "fits_one_block cfg m (res_payload res)"
    and "reply = response_to m (sv_nextMessageId s3) (res_code res) (res_payload res)
           (res_contentFormat res) (- 1)"
    and "encode reply (max_msg_size cfg) \<noteq> []"
    and "res_code res \<noteq> Code_Empty" "\<not> isMethodCode (res_code res)"
    and "same_wait srv (msg_token m) (encode reply (max_msg_size cfg)) c1 c2"
    and "requested_mask meth = Some methodBit"
  shows "(\<exists>s4. handle_datagram cfg senv me (encode m (max_msg_size cfg)) s = Some s4 \<and>
       tp_sent (sv_transport s4) = tp_sent (sv_transport s3) @ [(me, encode reply (max_msg_size cfg))] \<and>
       sv_resources s4 = sv_resources s3 \<and> server.more s4 = server.more s3) \<and>
    (\<exists>slot < length (cl_pending c). client_poll cfg cenv now c2 =
       Some (poll_timers cfg cenv now (finish_slot slot
         (ce_response cenv h \<lparr>cr_code = res_code res, cr_payload = reply_payload (res_payload res),
             cr_contentFormat = (if res_payload res = None \<or> res_payload res = Some [] then CF_TextPlain
                                 else res_contentFormat res)\<rparr>
            ctx (at_callback now srv (cl_nextMessageId c) c2)))))"
proof -
  obtain slot where slot: "slot < length (cl_pending c)" "encode m (max_msg_size cfg) \<noteq> []" "wf_message cfg m"
    "findPendingByToken (msg_token m) c1 = Some slot"
    "pd_onResponse (cl_pending c1 ! slot) = Some h" "pd_userContext (cl_pending c1 ! slot) = ctx"
    "\<And>r. findOption Opt_Block2 r = None \<Longrightarrow> plain_response cfg slot r c1"
    using waiting_call [OF assms(7,1,4,8,2,9)] by blast
  have w: "cl_pending c2 = cl_pending c1" "cl_uploads c2 = cl_uploads c1"
    "list_all (\<lambda>d. \<not> discover_matches (msg_token m) d) (cl_discovers c2)"
    "tp_inbox (cl_transport c2) = [(srv, encode reply (max_msg_size cfg))]"
    using assms(20) by (simp_all add: same_wait_def)
  have m: "msg_code m = meth" "msg_type m = Confirmable" "msg_messageId m = cl_nextMessageId c"
      "m\<lparr>msg_lastOptionNumber := 0\<rparr> = m"
    by (simp_all add: assms(8) sent_request_def request_of_def)
  have plain: "findOption Opt_Block1 m = None" "findOption Opt_Observe m = None"
    unfolding assms(8) sent_request_def by (rule request_option_absent; simp add: opt_defs)+
  note acc = request_accepted [OF assms(4-6,8) slot(3) assms(1,21,10,11)]
  have r: "route cfg (sv_resources s) (cstr (canonical_path path)) = Some (i, ps)"
    using assms(10) cstr_no_nul [OF canonical_path_nul [OF assms(5)]] by simp
  obtain s4 where s4: "handleRequest cfg senv m me s = Some s4"
    "tp_sent (sv_transport s4) = tp_sent (sv_transport s3) @ [(me, encode reply (max_msg_size cfg))]"
    "sv_resources s4 = sv_resources s3" "server.more s4 = server.more s3"
    using serve_request [OF assms(3,1) slot(3) plain acc(2,1) r assms(12-17)] by blast
  have is_method: "isMethodCode meth"
    using assms(21) by (auto simp: requested_mask_def split: if_splits) code_simp+
  have "decode cfg (encode m (max_msg_size cfg)) = Decoded m"
    using decode_wire [OF slot(3)] assms(1) encode_eq_wire [OF slot(2)] m(4) by (simp add: valid_config_def)
  then have "handle_datagram cfg senv me (encode m (max_msg_size cfg)) s = Some s4"
    using slot(2) m(1,2) s4(1) is_method by (simp add: handle_datagram_def)
  moreover note rep = response_reply [OF slot(3) assms(1) m(2) assms(16,17)]
  have "findPendingByToken (msg_token reply) c2 = Some slot"
    using slot(4) by (simp add: findPendingByToken_def w(1) rep(4))
  moreover have "plain_response cfg slot reply c2"
    using slot(7) [OF rep(8)] by (simp add: plain_response_def w(2))
  ultimately have "client_poll cfg cenv now c2 = Some (poll_timers cfg cenv now
      (deliver_response cenv slot reply (at_callback now srv (msg_messageId reply) c2)))"
    using assms(1,17-19) encode_length [of reply "max_msg_size cfg"] rep(2-4)
    by (intro poll_delivers [where d = "encode reply (max_msg_size cfg)" and rest = "[]"])
      (simp_all add: rep(1) w(3,4))
  then have "client_poll cfg cenv now c2 = Some (poll_timers cfg cenv now (finish_slot slot
      (ce_response cenv h \<lparr>cr_code = res_code res, cr_payload = reply_payload (res_payload res),
         cr_contentFormat = (if res_payload res = None \<or> res_payload res = Some [] then CF_TextPlain
                             else res_contentFormat res)\<rparr>
        ctx (at_callback now srv (cl_nextMessageId c) c2))))"
    using slot(5,6) rep(3,5-7) m(3)
    by (simp add: deliver_response_def fire_response_def at_callback_def w(1))
  with \<open>handle_datagram _ _ _ _ _ = _\<close> s4(2-4) slot(1) show ?thesis by blast
qed

end
