(* ===== verification/Coap_Dtls_Client.thy ===== *)
theory Coap_Dtls_Client
  imports Coap_Client_Request Coap_Dtls_Session
begin

text \<open>
  A client over the DTLS adapter: what \<^verbatim>\<open>send\<close> does on first contact with a peer, and what the
  client makes of its result.
\<close>

section \<open>First contact\<close>

lemma dtls_first_contact: "findSession to d = None \<Longrightarrow> fst (dtls_send mb k now to data d) = False"
  by (auto simp: dtls_send_def Let_def split: option.split prod.split)

lemma allocSession_conf: "dt_conf_psk (snd (allocSession mb ep d)) = dt_conf_psk d"
  by (auto simp: allocSession_def set_peer_def resetSession_def upd_session_def Let_def split: option.split)

lemma driveHandshake_pending:
  assumes "i < length (dt_sessions d)"
  shows "ss_txPending (dt_sessions (driveHandshake mb now i d) ! i) = ss_txPending (dt_sessions d ! i)"
    and "ss_peer (dt_sessions (driveHandshake mb now i d) ! i) = ss_peer (dt_sessions d ! i)"
  using core_fields [OF run_ssl_core [OF assms, of i now "mb_handshake mb (ss_ssl (dt_sessions d ! i))"]] assms
  by (simp_all add: driveHandshake_def split_beta run_ssl_length)

text \<open>The packet of the first contact stays behind in the new session.\<close>

lemma dtls_first_contact_buffers:
  assumes "dtls_inv k d" "findSession to d = None" "s \<in> set (dt_sessions d)" "ss_state s \<noteq> HANDSHAKING"
    and "fst (mb_setup mb (dt_isServer d) (dt_conf_psk d) (mb_init mb))"
  shows "\<exists>i < length (dt_sessions d). let s' = dt_sessions (snd (dtls_send mb k now to data d)) ! i in
    ss_peer s' = to \<and> ss_txPending s' \<and> ss_txBuf s' = take (max_msg_size k) data"
proof -
  obtain slot d1 where a0: "allocSession mb to d = (slot, d1)" by fastforce
  have "slot \<noteq> None"
    using allocSession_full [of mb to d d1 s] a0 assms(3,4) by auto
  then obtain i where i: "slot = Some i" by auto
  have t: "table_inv k d" using assms(1) by (simp add: dtls_inv_def)
  note a = allocSession_SomeD [OF t assms(2) a0 [unfolded i]]
  obtain ok d2 where d2: "initSession mb now i d1 = (ok, d2)" by fastforce
  have "dt_conf_psk d1 = dt_conf_psk d" using allocSession_conf [of mb to d] a0 by simp
  then have ok using d2 a(5) assms(5) by (auto simp: initSession_def Let_def split: prod.splits if_splits)
  then have d2': "initSession mb now i d1 = (True, d2)" using d2 by simp
  note n = initSession_True [OF a(1,2) d2']
  have len: "length (dt_sessions d1) = length (dt_sessions d)"
    using a(1) t by (simp add: table_inv_def)
  have i2: "i < length (dt_sessions d2)"
    using a(2) initSession_simps(3) [of mb now i d1] d2 by (simp add: fresh_slot_def)
  have p2: "ss_peer (dt_sessions d2 ! i) = to" using a(2) by (subst n(2)) (simp add: fresh_slot_def)
  let ?d3 = "(bufferTx k i data d2)\<lparr>dt_current := Some i\<rparr>"
  have "snd (dtls_send mb k now to data d) = (driveHandshake mb now i ?d3)\<lparr>dt_current := None\<rparr>"
    using assms(2) a0 i d2' by (simp add: dtls_send_def)
  then show ?thesis
    using driveHandshake_pending [of i ?d3 mb now] driveHandshake_txBuf [of i ?d3 mb now] i2 p2 a(2) len
    by (intro exI [of _ i]) (simp add: fresh_slot_def)
qed

section \<open>The request of a client\<close>

lemma sendRequest_unsent:
  assumes "valid_config cfg" "short_path path"
    and "m = sent_request cfg path meth payload fmt con reg dereg c"
    and "tp_send_results (cl_transport c) = False # rs"
  shows "fst (sendRequest cfg server path meth payload fmt con reg dereg h ctx mark c) = False"
proof (cases "allocatePending c")
  case None
  then show ?thesis by (simp add: sendRequest_def)
next
  case (Some a)
  obtain slot c1 where a: "a = (slot, c1)" by fastforce
  have "cl_transport c1 = cl_transport c"
    using Some a by (auto simp: allocatePending_def split: option.splits prod.splits)
  then show ?thesis
    using assms(4)
    by (simp add: sendRequest_built [OF assms(1-3) Some [unfolded a] refl] cl_send_def transport_send_def
        Let_def split_beta)
qed

end
