(* ===== verification/Props_Network.thy ===== *)
theory Props_Network
  imports Coap_Recovery Props_Lifecycle Props_Client
begin

text \<open>
  What copies, losses and idle times on the network do. The message layer keeps no record of
  the requests it has served, so a retransmission that finds its first copy served is
  served again; these properties say with which effect.
\<close>

section \<open>Copies of a request\<close>

primrec receive_copies ::
    "config \<Rightarrow> 'w handler_env \<Rightarrow> endpoint \<Rightarrow> bytes \<Rightarrow> nat \<Rightarrow> 'w server_scheme \<Rightarrow> 'w server_scheme option" where
  "receive_copies cfg env from data 0 s = Some s"
| "receive_copies cfg env from data (Suc k) s =
     (case handle_datagram cfg env from data s of
        None \<Rightarrow> None | Some s' \<Rightarrow> receive_copies cfg env from data k s')"

definition defers :: "'w handler_env \<Rightarrow> nat \<Rightarrow> bool" where
  "defers env h \<longleftrightarrow> (\<forall>u req res s. snd (env h u req res s) = s \<and> res_deferred (fst (env h u req res s)))"

definition held_for :: "endpoint \<Rightarrow> bytes \<Rightarrow> deferred_request \<Rightarrow> bool" where
  "held_for remote tok d \<longleftrightarrow> df_active d \<and> df_remote d = remote \<and> df_token d = tok"

definition empty_ack :: "u16 \<Rightarrow> bytes" where
  "empty_ack mid = wire (reset_message\<lparr>msg_type := Acknowledgement, msg_code := Code_Empty, msg_messageId := mid\<rparr>)"

lemma sendEmptyAck_sent:
  assumes "4 \<le> max_msg_size cfg"
  shows "tp_sent (sv_transport (sendEmptyAck cfg mid to s)) = tp_sent (sv_transport s) @ [(to, empty_ack mid)]"
  using empty_ack_encodes [OF assms, of mid]
  by (simp add: sendEmptyAck_def send_encoded_def empty_ack_def frame_simps)

lemma reserve_inv:
  assumes "server_inv cfg s" "reserve_deferred from m s = (d, s1)" "length (msg_token m) \<le> max_token_len cfg"
  shows "server_inv cfg s1"
  using assms
  by (auto simp: reserve_deferred_def server_inv_def wf_deferred_def fill_deferred_def
      intro!: list_all_update split: option.splits)

lemma occupancy_claimed:
  assumes "i < length xs" "\<not> P (xs ! i)" "P y"
  shows "occupancy P (xs[i := y]) = Suc (occupancy P xs)"
  using length_filter_update [OF assms(1), of P y] assms(2,3) by (simp add: occupancy_def)

lemma deferred_copy:
  assumes "valid_config cfg" "server_inv cfg s" "defers env h"
    and "decode cfg data = Decoded m" "wf_message cfg m" "msg_type m = Confirmable" "isMethodCode (msg_code m)"
    and "findOption Opt_Observe m = None" "findOption Opt_Block1 m = None"
    and "refusal cfg (sv_resources s) m = None" "joinUriPath m (max_uri_path_len cfg) = Some p"
    and "route cfg (sv_resources s) (cstr p) = Some (i, ps)" "rs_handler (sv_resources s ! i) = AppHandler h"
    and "occupancy df_active (sv_deferred s) < length (sv_deferred s)"
  shows "\<exists>s'. handle_datagram cfg env from data s = Some s' \<and> server_inv cfg s' \<and>
    sv_resources s' = sv_resources s \<and> length (sv_deferred s') = length (sv_deferred s) \<and>
    occupancy df_active (sv_deferred s') = Suc (occupancy df_active (sv_deferred s)) \<and>
    occupancy (held_for from (msg_token m)) (sv_deferred s') =
      Suc (occupancy (held_for from (msg_token m)) (sv_deferred s)) \<and>
    tp_sent (sv_transport s') = tp_sent (sv_transport s) @ [(from, empty_ack (msg_messageId m))]"
proof -
  have "\<exists>d \<in> set (sv_deferred s). \<not> df_active d"
  proof (rule ccontr)
    assume "\<not> ?thesis"
    then have "filter df_active (sv_deferred s) = sv_deferred s" by (intro filter_True) blast
    with assms(14) show False by (simp add: occupancy_def)
  qed
  then obtain j where j: "allocateDeferred (sv_deferred s) = Some j"
    using first_slot_Some_ex [of "\<lambda>d. \<not> df_active d"] by (auto simp: allocateDeferred_def)
  note jj = first_slot_SomeD [OF j [unfolded allocateDeferred_def]]
  let ?d = "fill_deferred from m (sv_deferred s ! j)"
  let ?s1 = "s\<lparr>sv_deferred := (sv_deferred s)[j := ?d]\<rparr>"
  have r: "reserve_deferred from m s = (Some j, ?s1)" by (simp add: reserve_deferred_def j)
  obtain res where run: "run_handler cfg env (sv_resources ?s1 ! i) (make_request m from (Some j) None ps) ?s1 =
      (res, ?s1)" "res_deferred res"
    using assms(3,13) by (auto simp: run_handler_def defers_def prod_eq_iff)
  have o': "handle_observe i m from s = (- 1, s)" by (simp add: handle_observe_def assms(8))
  let ?s' = "sendEmptyAck cfg (msg_messageId m) from ?s1"
  have "handle_plain cfg env i ps m from (- 1) s = ?s'"
    using run assms(6) by (simp add: handle_plain_def r finish_deferred_def)
  moreover have "data \<noteq> []" using assms(4) by (auto simp: decode_def)
  ultimately have run': "handle_datagram cfg env from data s = Some ?s'"
    using handleRequest_accepted [OF assms(2,1,10) _ assms(11,12) o'] assms(4,6,7,9)
    by (simp add: handle_datagram_def)
  have "length (msg_token m) \<le> max_token_len cfg" using assms(5) by (simp add: wf_message_def)
  from reserve_inv [OF assms(2) r this] have "server_inv cfg ?s'" by (simp add: server_inv_def frame_simps)
  moreover have "4 \<le> max_msg_size cfg" using assms(1) by (simp add: valid_config_def)
  moreover have "df_active ?d" "held_for from (msg_token m) ?d" "\<not> held_for from (msg_token m) (sv_deferred s ! j)"
    using jj by (simp_all add: fill_deferred_def held_for_def)
  ultimately show ?thesis
    using run' jj by (simp add: frame_simps occupancy_claimed sendEmptyAck_sent)
qed

text \<open>
  C35: a Confirmable request that its handler defers is not recognised when it comes again: each
  of \<open>k\<close> copies of its datagram, as a lost acknowledgement causes, runs the handler again, takes
  one more deferred slot for the same peer and token, and gets one more empty acknowledgement,
  for as long as there are slots. So one client can fill the table with one request.
\<close>

theorem deferred_copies_take_slots:
  assumes "valid_config cfg" "server_inv cfg s" "defers env h"
    and "decode cfg data = Decoded m" "wf_message cfg m" "msg_type m = Confirmable" "isMethodCode (msg_code m)"
    and "findOption Opt_Observe m = None" "findOption Opt_Block1 m = None"
    and "refusal cfg (sv_resources s) m = None" "joinUriPath m (max_uri_path_len cfg) = Some p"
    and "route cfg (sv_resources s) (cstr p) = Some (i, ps)" "rs_handler (sv_resources s ! i) = AppHandler h"
    and "occupancy df_active (sv_deferred s) + k \<le> length (sv_deferred s)"
  shows "\<exists>s'. receive_copies cfg env from data k s = Some s' \<and>
    occupancy df_active (sv_deferred s') = occupancy df_active (sv_deferred s) + k \<and>
    occupancy (held_for from (msg_token m)) (sv_deferred s') =
      occupancy (held_for from (msg_token m)) (sv_deferred s) + k \<and>
    tp_sent (sv_transport s') =
      tp_sent (sv_transport s) @ replicate k (from, empty_ack (msg_messageId m))"
  using assms(2,10,12,13,14)
proof (induction k arbitrary: s)
  case 0
  then show ?case by simp
next
  case (Suc k)
  obtain s1 where s1: "handle_datagram cfg env from data s = Some s1" "server_inv cfg s1"
    "sv_resources s1 = sv_resources s" "length (sv_deferred s1) = length (sv_deferred s)"
    "occupancy df_active (sv_deferred s1) = Suc (occupancy df_active (sv_deferred s))"
    "occupancy (held_for from (msg_token m)) (sv_deferred s1) =
      Suc (occupancy (held_for from (msg_token m)) (sv_deferred s))"
    "tp_sent (sv_transport s1) = tp_sent (sv_transport s) @ [(from, empty_ack (msg_messageId m))]"
    using deferred_copy [OF assms(1) Suc.prems(1) assms(3-9) Suc.prems(2) assms(11) Suc.prems(3,4), of "from"]
      Suc.prems(5) by auto
  from Suc.IH [of s1] s1 Suc.prems(2-5) show ?case by auto
qed

definition deferring_env :: "'w handler_env" where
  "deferring_env h u req res s = (res\<lparr>res_deferred := True\<rparr>, s)"

theorem deferred_copies_take_slots_witness:
  "\<exists>s'. receive_copies default_config deferring_env client_a
      [0x41, 0x01, 0x00, 0x01, 0x01, 0xB4, 0x74, 0x65, 0x6D, 0x70] 2 (temp_server default_config) = Some s' \<and>
    occupancy df_active (sv_deferred s') = 2"
proof -
  let ?m = "get_message True" and ?s = "temp_server default_config"
  have d: "defers deferring_env 0" by (simp add: defers_def deferring_env_def)
  have m: "decode default_config [0x41, 0x01, 0x00, 0x01, 0x01, 0xB4, 0x74, 0x65, 0x6D, 0x70] = Decoded ?m"
    "wf_message default_config ?m" "msg_type ?m = Confirmable" "isMethodCode (msg_code ?m)"
    "findOption Opt_Observe ?m = None" "findOption Opt_Block1 ?m = None"
    "refusal default_config (sv_resources ?s) ?m = None"
    "joinUriPath ?m (max_uri_path_len default_config) = Some temp_path"
    "rs_handler (sv_resources ?s ! 0) = AppHandler 0" by code_simp+
  have f: "occupancy df_active (sv_deferred ?s) = 0" "length (sv_deferred ?s) = 2" by code_simp+
  then have room: "occupancy df_active (sv_deferred ?s) + 2 \<le> length (sv_deferred ?s)" by simp
  from deferred_copies_take_slots [OF default_config_valid temp_server_inv d m(1-8) temp_lookup(4) m(9) room, of client_a]
  show ?thesis unfolding f(1) by auto
qed

section \<open>The copy of the last block of an upload\<close>

text \<open>Handlers leave the upload sessions alone.\<close>

lemma notify_slots_sessions:
  "sv_block1sessions (fold (notify_slot cfg idx sq payload fmt con) js s) = sv_block1sessions s"
  by (rule fold_inv [where P = "\<lambda>s'. sv_block1sessions s' = sv_block1sessions s"])
    (simp_all add: notify_slot_def Let_def frame_simps)

lemma public_call_sessions:
  "sv_block1sessions (snd (addResource cfg p methods h ctx obs s)) = sv_block1sessions s"
  "sv_block1sessions (snd (setResourceType cfg path rt s)) = sv_block1sessions s"
  "sv_block1sessions (snd (notify cfg path payload fmt con s)) = sv_block1sessions s"
  "sv_block1sessions (snd (respond cfg hdl code payload fmt s)) = sv_block1sessions s"
     apply (simp add: addResource_def split: option.split)
    apply (simp add: setResourceType_def split: find_result.split)
   apply (simp add: notify_def Let_def notify_slots_sessions split: find_result.split)
  apply (simp add: respond_def Let_def frame_simps)
  done

lemma api_step_sessions: "api_step cfg s s' \<Longrightarrow> sv_block1sessions s' = sv_block1sessions s"
proof (induction rule: api_step.induct)
  case (api_add p methods h ctx observable s ok s')
  then show ?case using public_call_sessions(1) [of cfg "Some p" methods "Some (AppHandler h)" ctx observable s] by simp
next
  case (api_type path rt s ok s')
  then show ?case using public_call_sessions(2) [of cfg path rt s] by simp
next
  case (api_notify path payload fmt confirmable s ok s')
  then show ?case using public_call_sessions(3) [of cfg path payload fmt confirmable s] by simp
next
  case (api_respond hdl code payload fmt s ok s')
  then show ?case using public_call_sessions(4) [of cfg hdl code payload fmt s] by simp
qed simp

lemma run_handler_sessions:
  assumes "handlers_ok cfg env"
  shows "sv_block1sessions (snd (run_handler cfg env r req s)) = sv_block1sessions s"
proof -
  have reach: "sv_block1sessions s' = sv_block1sessions s" if "api_reach cfg s s'" for s'
    using that by (induction rule: rtranclp_induct) (auto dest: api_step_sessions)
  have "sv_block1sessions (snd (env h u req res s)) = sv_block1sessions s" for h u res
    by (rule reach) (use assms in \<open>simp add: handlers_ok_def\<close>)
  then show ?thesis
    by (simp add: run_handler_def wellKnownCoreHandler_def buildLinkFormat_def Let_def split: resource_handler.split)
qed

text \<open>The sessions of other slots while one upload is fed.\<close>

definition sole_session :: "endpoint \<Rightarrow> bytes \<Rightarrow> nat \<Rightarrow> 'w server_scheme \<Rightarrow> bool" where
  "sole_session remote token k s \<longleftrightarrow>
     (\<forall>j < length (sv_block1sessions s). j \<noteq> k \<longrightarrow> \<not> session_matches remote token (sv_block1sessions s ! j))"

lemma handle_block1_sole:
  assumes "uploading from (msg_token m) k n buf s" "sole_session from (msg_token m) k s"
    and "fromOption opt = Some b1" "blk_num b1 = of_nat n" "blk_m b1"
    and "length buf + length (payload_bytes m) \<le> block1_max_body cfg"
  shows "sole_session from (msg_token m) k (handle_block1 cfg env i ps m from obs opt s)"
  using assms
  by (simp add: handle_block1_def uploading_def accept_block1_def Let_def payloadLength_bytes
      payload_bytes_def [symmetric] sole_session_def frame_simps)

lemma feed_sole:
  assumes "in_order token n ms" "uploading from token k n buf s" "sole_session from token k s"
    "length buf + length (body_of ms) \<le> block1_max_body cfg"
  shows "sole_session from token k (feed cfg env i ps from obs ms s)"
  using assms
proof (induction ms arbitrary: n buf s)
  case Nil
  then show ?case by simp
next
  case (Cons m ms)
  then obtain opt b1 where opt: "findOption Opt_Block1 m = Some opt" "fromOption opt = Some b1"
      "blk_num b1 = of_nat n" "blk_m b1" and tok: "msg_token m = token"
    by (auto simp: is_block_def split: option.splits)
  have len: "length buf + length (payload_bytes m) \<le> block1_max_body cfg" using Cons.prems(4) by simp
  have up: "uploading from (msg_token m) k n buf s" "sole_session from (msg_token m) k s"
    using Cons.prems(2,3) tok by simp_all
  note step = handle_block1_more [OF up(1) opt(2-4) len] handle_block1_sole [OF up opt(2-4) len]
  from Cons.IH [OF _ step [unfolded tok]] Cons.prems(1,4) opt(1) show ?case by simp
qed

lemma unreserve_sessions: "sv_block1sessions (unreserve_deferred d s) = sv_block1sessions s"
  by (simp add: unreserve_deferred_def split: option.split)

lemma finish_block1_sessions:
  assumes "handlers_ok cfg env"
  shows "sv_block1sessions (finish_block1 cfg env i k ps m from obs s) =
    (if k < length (sv_block1sessions s)
     then (sv_block1sessions s)[k := release_block1 (sv_block1sessions s ! k)] else sv_block1sessions s)"
proof -
  have "sv_block1sessions (snd (reserve_deferred from m s)) = sv_block1sessions s"
    by (simp add: reserve_deferred_def split: option.split)
  then show ?thesis
    using run_handler_sessions [OF assms]
    by (simp add: finish_block1_def split_def Let_def freeBlock1Session_def finish_deferred_def frame_simps
        unreserve_sessions)
qed

lemma handle_block1_last_sole:
  assumes up: "uploading from (msg_token m) k n buf s" "sole_session from (msg_token m) k s"
    and opt: "fromOption opt = Some b1" "blk_num b1 = of_nat n" "\<not> blk_m b1"
    and fits: "length buf + length (payload_bytes m) \<le> block1_max_body cfg"
  obtains s1 where "handle_block1 cfg env i ps m from obs opt s = finish_block1 cfg env i k ps m from obs s1"
    "sole_session from (msg_token m) k s1" "k < length (sv_block1sessions s1)"
proof -
  let ?sess = "sv_block1sessions s ! k"
  let ?sess' = "?sess\<lparr>b1_buffer := buf @ payload_bytes m, b1_nextExpectedNum := of_nat (Suc n)\<rparr>"
  let ?s1 = "s\<lparr>sv_block1sessions := (sv_block1sessions s)[k := ?sess']\<rparr>"
  have "handle_block1 cfg env i ps m from obs opt s = finish_block1 cfg env i k ps m from obs ?s1"
    using up(1) opt fits
    by (simp add: handle_block1_def uploading_def accept_block1_def Let_def payloadLength_bytes
        payload_bytes_def [symmetric] add.commute [of _ 1])
  moreover have "k < length (sv_block1sessions s)"
    using up(1) by (auto simp: uploading_def findBlock1Session_def dest: first_slot_lt)
  ultimately show thesis using that [of ?s1] up(2) by (simp add: sole_session_def)
qed

lemma no_session_after_release:
  assumes "sole_session remote token k s" "k < length (sv_block1sessions s)"
    and "sv_block1sessions s' = (sv_block1sessions s)[k := release_block1 (sv_block1sessions s ! k)]"
  shows "findBlock1Session remote token (sv_block1sessions s') = None"
  unfolding findBlock1Session_def first_slot_None_iff
proof
  fix x assume "x \<in> set (sv_block1sessions s')"
  then obtain j where "j < length (sv_block1sessions s)" "x = sv_block1sessions s' ! j"
    by (auto simp: in_set_conv_nth assms(3))
  then show "\<not> session_matches remote token x"
    using assms(1,2) by (cases "j = k") (auto simp: assms(3) sole_session_def session_matches_def release_block1_def)
qed

lemma upload_leaves_no_session:
  assumes "handlers_ok cfg env"
    and none: "findBlock1Session from token (sv_block1sessions s) = None"
    and free: "occupancy b1_active (sv_block1sessions s) < length (sv_block1sessions s)"
    and ms: "in_order token 0 (m0 # ms)" and last: "is_block token (Suc (length ms)) False m"
    and fits: "length (body_of (m0 # ms @ [m])) \<le> block1_max_body cfg"
  shows "findBlock1Session from token (sv_block1sessions (feed cfg env i ps from obs (m0 # ms @ [m]) s)) = None"
proof -
  have "claim_slot b1_active (fill_block1 from token) (sv_block1sessions s) \<noteq> None"
    using free by (simp add: claim_slot_None_iff)
  then obtain k bs where c: "allocateBlock1Session from token (sv_block1sessions s) = Some (k, bs)"
    by (auto simp: allocateBlock1Session_def)
  obtain opt0 b0 where o0: "findOption Opt_Block1 m0 = Some opt0" "fromOption opt0 = Some b0"
      "blk_num b0 = 0" and tok0: "token = msg_token m0"
    using ms by (auto simp: is_block_def split: option.splits)
  note op = handle_block1_open [OF none [unfolded tok0] c [unfolded tok0] o0(2,3)]
  let ?s0 = "s\<lparr>sv_block1sessions := bs\<rparr>" and ?ms = "m0 # ms"
  have up: "uploading from token k 0 [] ?s0" using op(1) by (simp add: tok0)
  have sole: "sole_session from token k ?s0"
    using none claim_slot_SomeD [OF c [unfolded allocateBlock1Session_def]]
    by (simp add: sole_session_def findBlock1Session_def first_slot_None_iff nth_list_update)
  let ?s1 = "feed cfg env i ps from obs ?ms ?s0"
  have up1: "uploading from token k (length ?ms) (body_of ?ms) ?s1" "sole_session from token k ?s1"
    using feed_blocks [OF ms up] feed_sole [OF ms up sole] fits by simp_all
  obtain opt b where o': "findOption Opt_Block1 m = Some opt" "fromOption opt = Some b"
      "blk_num b = of_nat (length ?ms)" "\<not> blk_m b" and tok: "token = msg_token m"
    using last by (auto simp: is_block_def split: option.splits)
  have "length (body_of ?ms) + length (payload_bytes m) \<le> block1_max_body cfg" using fits by simp
  from handle_block1_last_sole [OF up1 [unfolded tok] o'(2-4) this] obtain s2 where
    s2: "handle_block1 cfg env i ps m from obs opt ?s1 = finish_block1 cfg env i k ps m from obs s2"
      "sole_session from (msg_token m) k s2" "k < length (sv_block1sessions s2)" by metis
  have "feed cfg env i ps from obs (m0 # ms @ [m]) s = finish_block1 cfg env i k ps m from obs s2"
    using op(2) o0(1) o'(1) s2(1) by (simp add: feed_append)
  moreover have "sv_block1sessions (finish_block1 cfg env i k ps m from obs s2) =
      (sv_block1sessions s2)[k := release_block1 (sv_block1sessions s2 ! k)]"
    using finish_block1_sessions [OF assms(1)] s2(3) by simp
  from no_session_after_release [OF s2(2,3) this]
  have "findBlock1Session from token (sv_block1sessions (finish_block1 cfg env i k ps m from obs s2)) = None"
    by (simp add: tok)
  ultimately show ?thesis by simp
qed

text \<open>
  When the response to the last block of an upload is lost, the client repeats that block, and
  the server, which has run the handler on the whole body and released the session, answers
  the copy with 4.08: the upload took effect and is reported as incomplete.
\<close>

theorem lost_final_response_becomes_error:
  assumes "handlers_ok cfg env" "p \<noteq> []" "szx \<le> 6"
    and "k = last_block (length p) (unat (shift_size szx))" "0 < k" "k < 2 ^ 20"
    and "length p \<le> block1_max_body cfg"
    and "findBlock1Session me [tok] (sv_block1sessions s) = None"
    and "occupancy b1_active (sv_block1sessions s) < length (sv_block1sessions s)"
    and "blk = (\<lambda>n. block1_message (mids n) tok meth path fmt p szx n)"
  shows "feed cfg env i ps me obs (map blk [0..<Suc k] @ [blk k]) s =
    send_error cfg (blk k) me Code_RequestEntityIncomplete (feed cfg env i ps me obs (map blk [0..<Suc k]) s)"
proof -
  have b: "is_block [tok] n (n < k) (blk n)" if "n \<le> k" for n
    using block1_message_is_block [OF assms(2,3), of n] that assms(4,6) by (simp add: assms(10))
  have body: "body_of (map blk [0..<Suc k]) = p"
    unfolding assms(4)
  proof (rule blocks_body [OF block_size_pos [OF assms(3)]])
    fix n assume "n \<le> last_block (length p) (unat (shift_size szx))"
    then show "payload_bytes (blk n) = slice p (unat (shift_size szx)) n"
      using block1_message_fields(3) [OF _ assms(3), of n] assms(4,6) by (simp add: assms(10))
  qed
  have "in_order [tok] 0 (map blk [0..<k])"
    by (rule in_order_map) (use b in \<open>metis add_0 less_imp_le_nat\<close>)
  moreover obtain k' where k': "k = Suc k'" using assms(5) by (cases k) auto
  have split: "map blk [0..<k] = blk 0 # map (\<lambda>j. blk (Suc j)) [0..<k']"
    unfolding k' by (simp only: map_upt_Suc)
  moreover have "is_block [tok] (Suc (length (map (\<lambda>j. blk (Suc j)) [0..<k']))) False (blk k)"
    using b [of k] by (simp add: k')
  moreover have all: "map blk [0..<Suc k] = blk 0 # map (\<lambda>j. blk (Suc j)) [0..<k'] @ [blk k]"
    using split by simp
  moreover have "length (body_of (blk 0 # map (\<lambda>j. blk (Suc j)) [0..<k'] @ [blk k])) \<le> block1_max_body cfg"
    unfolding all [symmetric] body by (rule assms(7))
  ultimately have none: "findBlock1Session me [tok]
      (sv_block1sessions (feed cfg env i ps me obs (map blk [0..<Suc k]) s)) = None"
    unfolding all using upload_leaves_no_session [OF assms(1,8,9)] by simp
  obtain opt bo where o': "findOption Opt_Block1 (blk k) = Some opt" "fromOption opt = Some bo"
      "blk_num bo = of_nat k" "msg_token (blk k) = [tok]"
    using b [of k] by (auto simp: is_block_def split: option.splits)
  have "of_nat k \<noteq> (0 :: u32)"
    using assms(5,6) unat_of_nat [where 'a = 32, of k] by auto
  with none o' show ?thesis by (simp only: feed_append feed.simps option.case) (simp add: handle_block1_def)
qed

theorem lost_final_response_becomes_error_witness:
  "feed default_config temp_env 0 [] client_a (- 1)
     (map (block1_message 5 7 Code_Put temp_uri CF_TextPlain (replicate 40 0x61) 0) [0..<3] @
      [block1_message 5 7 Code_Put temp_uri CF_TextPlain (replicate 40 0x61) 0 2]) (temp_server default_config) =
   send_error default_config (block1_message 5 7 Code_Put temp_uri CF_TextPlain (replicate 40 0x61) 0 2) client_a
     Code_RequestEntityIncomplete
     (feed default_config temp_env 0 [] client_a (- 1)
       (map (block1_message 5 7 Code_Put temp_uri CF_TextPlain (replicate 40 0x61) 0) [0..<3])
       (temp_server default_config))"
proof -
  have k: "2 = last_block (length (replicate 40 (0x61 :: u8))) (unat (shift_size 0))" by code_simp
  have f: "findBlock1Session client_a [7] (sv_block1sessions (temp_server default_config)) = None"
    "occupancy b1_active (sv_block1sessions (temp_server default_config)) <
      length (sv_block1sessions (temp_server default_config))" by code_simp+
  have "replicate 40 (0x61 :: u8) \<noteq> []" "(0 :: u8) \<le> 6" "(0 :: nat) < 2" "(2 :: nat) < 2 ^ 20"
    "length (replicate 40 (0x61 :: u8)) \<le> block1_max_body default_config"
    by (simp_all add: default_config_def)
  from lost_final_response_becomes_error [OF temp_handlers_ok this(1,2) k this(3-5) f,
      of "block1_message 5 7 Code_Put temp_uri CF_TextPlain (replicate 40 0x61) 0" "\<lambda>_. 5"]
  show ?thesis by (simp add: numeral_3_eq_3)
qed

section \<open>A call after a pause\<close>

text \<open>
  The timer of a request starts at the time of the last poll, not of the call. When the client
  was last polled at \<open>T\<close> and the first poll after the call comes one timeout \<open>b\<close> or more after
  \<open>T\<close>, that poll sends a second copy of the request, however short the time since the call:
  before the first poll \<open>T\<close> is 0, so that a request made in the set-up of a sketch that took
  longer than \<open>b\<close> goes out twice.
\<close>

theorem call_after_pause_resent:
  assumes "valid_config cfg" "client_inv cfg c" "backoff_fits cfg" "0 < max_retransmit cfg" "short_path path"
    and "sendRequest cfg srv path meth payload fmt True reg dereg h ctx mark c = (True, c1)"
    and "m = sent_request cfg path meth payload fmt True reg dereg c"
    and "no_traffic c" "cl_lastNowMs c = of_nat T"
    and "T + first_timeout cfg (msg_messageId m) \<le> n" "n < T + 2 ^ 31"
  shows "\<exists>c2. client_poll cfg env (of_nat n) c1 = Some c2 \<and>
    tp_sent (cl_transport c2) = tp_sent (cl_transport c) @
      [(srv, encode m (max_msg_size cfg)), (srv, encode m (max_msg_size cfg))]"
proof -
  let ?b = "first_timeout cfg (cl_nextMessageId c)" and ?buf = "encode m (max_msg_size cfg)"
  have b: "first_timeout cfg (msg_messageId m) = ?b" by (simp add: assms(7) sent_request_def request_of_def)
  from sendRequest_success [OF assms(6,1,5,7)] obtain
    sent: "cl_transport c1 = snd (transport_send srv ?buf (cl_transport c))" by metis
  obtain k D where start: "silent_since cfg c1 k srv ?buf ?b T (n - T) T D 0 c1"
    using silent_start [OF assms(6,1,5,2,3,7-9), of "n - T"] by blast
  have fits: "0 < ?b" "?b * 2 ^ max_retransmit cfg < 2 ^ 31" "max_retransmit cfg \<le> 255"
    using first_timeout_bounds [OF assms(3)] assms(3) by (simp_all add: backoff_fits_def)
  have n: "T \<le> n" "n \<le> T + (n - T)" "n - T < 2 ^ 31" using assms(10,11) by simp_all
  obtain c2 r D' where c2: "client_poll cfg env (of_nat n) c1 = Some c2" "r \<in> {0, Suc 0}"
    "silent_since cfg c1 k srv ?buf ?b T (n - T) n D' r c2"
    using silent_poll [OF start fits n disjI1 [OF assms(4)]] by blast
  moreover have "0 < r" using silent_copies(2) [OF c2(3), of 0] assms(10) by (simp add: b)
  ultimately have "r = 1" by auto
  with c2 sent show ?thesis by (simp add: silent_since_def)
qed

theorem call_after_pause_resent_witness:
  "\<exists>c2. client_poll default_config (silent_env default_config) 4000
      (snd (client_get default_config some_server temp_uri (Some 7) (Some 3) True (fresh_client 4))) = Some c2 \<and>
    tp_sent (cl_transport c2) =
      [(some_server, [0x41, 0x01, 0x00, 0x01, 0x01, 0xB4, 0x74, 0x65, 0x6D, 0x70]),
       (some_server, [0x41, 0x01, 0x00, 0x01, 0x01, 0xB4, 0x74, 0x65, 0x6D, 0x70])]"
proof -
  have q: "table_config 4 = default_config" by (simp add: table_config_def default_config_def)
  have n: "(0 :: nat) < 4" "(4 :: nat) \<le> 255" by simp_all
  have "first_timeout default_config (msg_messageId (get_message True)) < 3000" by code_simp
  then have t: "0 + first_timeout default_config (msg_messageId (get_message True)) \<le> 4000"
    "(4000 :: nat) < 0 + 2 ^ 31" by simp_all
  have c: "no_traffic (fresh_client 4)" "cl_lastNowMs (fresh_client 4) = of_nat 0"
    "tp_sent (cl_transport (fresh_client 4)) = []" "0 < max_retransmit default_config"
    by (simp_all add: no_traffic_def fresh_client_def new_client_def quiet_network_def reset_pool_def
        empty_transaction_def in_flight_def list_all_iff default_config_def)
  have e: "max_msg_size default_config = 256" by (simp add: default_config_def)
  from call_after_pause_resent [OF default_config_valid fresh_client_inv [of 4, unfolded q] default_backoff_fits
      c(4) temp_uri_short fresh_get [OF n, of True, unfolded q client_get_def]
      fresh_message [of 4 True, symmetric, unfolded q] c(1,2) t]
  show ?thesis by (simp add: c(3) e get_message_bytes client_get_def)
qed

section \<open>A Block2 answer out of order\<close>

text \<open>
  A final Block2 answer with a number the transfer does not expect ends it all the same: its
  bytes are not taken, and the callback gets what has been received so far as if it were
  the whole body.
\<close>

theorem wrong_final_block_truncates:
  assumes "enable_blockwise cfg" "\<not> up_active (cl_uploads c ! slot)" "slot < length (cl_recvs c)"
    and "rv_active (cl_recvs c ! slot)" "block2_of m = Some b" "\<not> blk_m b"
    and "blk_num b \<noteq> rv_nextNum (cl_recvs c ! slot)" "pd_onResponse (cl_pending c ! slot) = Some h"
  shows "dispatch_pending cfg env slot m from c =
    finish_slot slot (upd_recv slot (\<lambda>r. r\<lparr>rv_active := False\<rparr>)
      (ce_response env h \<lparr>cr_code = msg_code m, cr_payload = Some (rv_buffer (cl_recvs c ! slot)),
         cr_contentFormat = rv_contentFormat (cl_recvs c ! slot)\<rparr> (pd_userContext (cl_pending c ! slot)) c))"
proof -
  have keep: "(absorb_block cfg m b \<circ> open_recv m from b) (cl_recvs c ! slot) = cl_recvs c ! slot"
    using assms(4,7) by (simp add: absorb_block_def open_recv_def)
  then have "upd_recv slot (absorb_block cfg m b \<circ> open_recv m from b) c = c"
    by (simp add: upd_recv_def)
  then show ?thesis
    using dispatch_block2 [OF assms(1,2,5)] assms(6,8) by (simp add: handle_block2_def fire_response_def Let_def)
qed

end
