(* ===== verification/Props_Limits.thy ===== *)
theory Props_Limits
  imports Props_Server Props_Client Coap_End_To_End
begin

text \<open>
  Where fixed sizes and narrow counters show: blocks against the message buffer, the 8-bit
  token, the 16-bit option fields of the decoder, the Observe sequence number; and what a
  callback that makes calls does to its own slot.
\<close>

section \<open>Block size and message size\<close>

lemma oversized_payload: "d \<noteq> [] \<Longrightarrow> cap < 5 + length d \<Longrightarrow> encode (setPayload (Some d) m) cap = []"
  by (simp add: encode_wire_gen wire_def wire_header_def wire_payload_def setPayload_def)

lemma sendBlock1_oversized:
  assumes "up = cl_uploads c ! slot" "up_nextNum up = 0" "sz = unat (shift_size (up_szx up))" "0 < sz"
    and "sz < length (up_fullPayload up)" "max_msg_size cfg < sz + 5"
  shows "\<not> fst (sendBlock1 cfg slot c)" "cl_transport (snd (sendBlock1 cfg slot c)) = cl_transport c"
proof -
  have b: "take sz (up_fullPayload up) \<noteq> []" "length (take sz (up_fullPayload up)) = sz"
    using assms(4,5) by auto
  have e: "encode (setPayload (Some (take sz (up_fullPayload up))) m) (max_msg_size cfg) = []" for m
    using assms(6) b by (intro oversized_payload) simp_all
  have "length (up_fullPayload up) \<noteq> 0" using assms(5) by linarith
  then show "\<not> fst (sendBlock1 cfg slot c)" "cl_transport (snd (sendBlock1 cfg slot c)) = cl_transport c"
    using assms(5) e
    by (simp_all add: sendBlock1_def Let_def split_def assms(1) [symmetric] assms(2) assms(3) [symmetric])
qed

lemma sendBlock2Response_oversized:
  assumes "0 < unat (shift_size szx)" "unat (shift_size szx) < length p"
    and "max_msg_size cfg < unat (shift_size szx) + 5"
  shows "sv_transport (sendBlock2Response cfg m to code p fmt obs 0 hasMore szx s) = sv_transport s"
proof -
  let ?sz = "unat (shift_size szx)"
  have b: "take ?sz p \<noteq> []" "length (take ?sz p) = ?sz" using assms(1,2) by auto
  have e: "encode (setPayload (Some (take ?sz p)) m') (max_msg_size cfg) = []" for m'
    using assms(3) b by (intro oversized_payload) simp_all
  have "p \<noteq> []" using assms(2) by auto
  then show ?thesis
    using assms(2) e
    by (simp add: sendBlock2Response_def reply_message_def Let_def split_def send_encoded_def)
qed

text \<open>
  A block must fit a message. When PULSECOAP_MAX_MSG_SIZE is less than the block size plus 5
  bytes, as with the default knobs (256 bytes for both), a block-wise transfer cannot start: every PUT
  or POST of a body longer than a block returns false and sends nothing, and a response with
  such a body, to a request without a Block2 option, is not sent at all.
\<close>

theorem blockwise_needs_bigger_messages:
  assumes "enable_blockwise cfg" "block_szx cfg \<le> 6" "sz = unat (shift_size (block_szx cfg))"
    and "max_msg_size cfg < sz + 5" "sz < length p"
    and "length (cl_uploads c) = length (cl_pending c)" "findOption Opt_Block2 m = None"
  shows "\<not> fst (client_put cfg srv path p fmt h ctx con c) \<and>
    cl_transport (snd (client_put cfg srv path p fmt h ctx con c)) = cl_transport c \<and>
    \<not> fst (client_post cfg srv path p fmt h ctx con c) \<and>
    cl_transport (snd (client_post cfg srv path p fmt h ctx con c)) = cl_transport c \<and>
    (res_payload res = Some p \<longrightarrow>
       sv_transport (reply_plain cfg m from obs res s) = sv_transport s)"
proof -
  have pos: "0 < sz" using block_size_pos [OF assms(2)] assms(3) by simp
  have u: "\<not> fst (start_upload cfg srv path meth p fmt h ctx c) \<and>
      cl_transport (snd (start_upload cfg srv path meth p fmt h ctx c)) = cl_transport c" for meth
  proof (cases "allocatePending c")
    case None
    then show ?thesis by (simp add: start_upload_def)
  next
    case (Some a)
    obtain slot c1 where a: "a = (slot, c1)" by fastforce
    with Some have c1: "cl_transport c1 = cl_transport c" "cl_uploads c1 = cl_uploads c"
      "slot < length (cl_uploads c)"
      using assms(6) by (auto simp: allocatePending_def split: option.splits dest: claim_slot_SomeD(1))
    obtain tok c2 where t: "nextToken c1 = (tok, c2)" by fastforce
    then have c2: "cl_transport c2 = cl_transport c" "cl_uploads c2 = cl_uploads c"
      using c1 by (auto simp: nextToken_def)
    let ?c5 = "upd_recv slot (\<lambda>r. r\<lparr>rv_active := False\<rparr>) (upd_pending slot (\<lambda>p. p\<lparr>pd_path := path\<rparr>)
        (upd_upload slot (\<lambda>u. u\<lparr>up_path := path\<rparr>)
          (upd_upload slot (\<lambda>u. u\<lparr>up_active := True, up_fullPayload := p,
                     up_nextNum := 0, up_szx := block_szx cfg, up_contentFormat := fmt,
                     up_method := meth, up_server := srv, up_token := tok\<rparr>)
            (upd_pending slot (\<lambda>p. p\<lparr>pd_server := srv, pd_token := [tok],
                     pd_onResponse := h, pd_userContext := ctx,
                     pd_observing := False\<rparr>) c2))))"
    have up: "up_nextNum (cl_uploads ?c5 ! slot) = 0" "up_szx (cl_uploads ?c5 ! slot) = block_szx cfg"
      "up_fullPayload (cl_uploads ?c5 ! slot) = p"
      using c1(3) c2(2) by (simp_all add: upd_recv_def upd_pending_def upd_upload_def)
    have "\<not> fst (sendBlock1 cfg slot ?c5)" "cl_transport (snd (sendBlock1 cfg slot ?c5)) = cl_transport ?c5"
      by (rule sendBlock1_oversized [OF refl up(1) refl]; simp add: up assms(3) [symmetric] pos assms(4,5))+
    moreover have "cl_transport ?c5 = cl_transport c"
      by (simp add: upd_recv_def upd_pending_def upd_upload_def c2(1))
    ultimately show ?thesis
      by (simp add: start_upload_def Some a t Let_def split_def)
        (simp add: upd_recv_def upd_pending_def upd_upload_def c2(1))
  qed
  have "p \<noteq> []" using assms(5) by auto
  then have "sv_transport (reply_plain cfg m from obs res s) = sv_transport s" if "res_payload res = Some p"
    using that assms(1,5,7) sendBlock2Response_oversized [of "block_szx cfg" p cfg] pos assms(3,4)
    by (simp add: reply_plain_def Let_def)
  with u assms(1,3,5) show ?thesis by (simp add: client_put_def client_post_def)
qed

definition big_block_config :: config where
  "big_block_config = default_config\<lparr>enable_blockwise := True\<rparr>"

theorem blockwise_needs_bigger_messages_witness:
  "\<not> fst (client_put big_block_config some_server temp_uri (replicate 512 0x41) CF_OctetStream (Some 7) None True
      (fresh_client 4)) \<and>
   sv_transport (reply_plain big_block_config (get_message True) client_a (- 1)
     (default_response\<lparr>res_payload := Some (replicate 300 0x41)\<rparr>) (temp_server default_config)) =
   sv_transport (temp_server default_config)"
proof -
  have c: "enable_blockwise big_block_config" "block_szx big_block_config \<le> 6" "block_szx big_block_config = 4"
    "max_msg_size big_block_config = 256" by (simp_all add: big_block_config_def default_config_def)
  have sz: "unat (shift_size (4 :: u8)) = 256" by code_simp
  have fits: "max_msg_size big_block_config < unat (shift_size (block_szx big_block_config)) + 5"
    "unat (shift_size (block_szx big_block_config)) < length (replicate 512 (0x41 :: u8))"
    "unat (shift_size (block_szx big_block_config)) < length (replicate 300 (0x41 :: u8))"
    by (simp_all add: c sz)
  have t: "length (cl_uploads (fresh_client 4)) = length (cl_pending (fresh_client 4))"
    by (simp add: fresh_client_def new_client_def)
  have o2: "findOption Opt_Block2 (get_message True) = None" by code_simp
  note big = blockwise_needs_bigger_messages [OF c(1,2) refl fits(1)]
  from big [OF fits(2) t o2, of some_server temp_uri CF_OctetStream "Some 7" None True default_response client_a "- 1"
      "temp_server default_config"]
    big [OF fits(3) t o2, of _ _ _ _ _ _ "default_response\<lparr>res_payload := Some (replicate 300 0x41)\<rparr>" client_a "- 1"
      "temp_server default_config"]
  show ?thesis by simp
qed

section \<open>The token byte\<close>

text \<open>
  C26: tokens are one byte and are not checked against the calls that wait: when the next token byte
  is still that of a waiting call in slot \<open>i\<close>, an observation for example, a new call
  succeeds under the same token in another slot \<open>j\<close>, and every response with it, of either call,
  goes to the slot with the smaller index. The other one is never answered.
\<close>

theorem token_reuse_shadows:
  assumes "sendRequest cfg srv path meth payload fmt con reg dereg h ctx mark c = (True, c1)"
    and "valid_config cfg" "short_path path"
    and "findPendingByToken [cl_nextTokenByte c] c = Some i"
  shows "\<exists>j < length (cl_pending c). j \<noteq> i \<and> pd_onResponse (cl_pending c1 ! j) = h \<and>
    pending_matches [cl_nextTokenByte c] (cl_pending c1 ! j) \<and> cl_pending c1 ! i = cl_pending c ! i \<and>
    findPendingByToken [cl_nextTokenByte c] c1 = Some (min i j)"
proof -
  obtain j where j: "j < length (cl_pending c)" "\<not> pd_active (cl_pending c ! j)"
    "cl_pending c1 = (cl_pending c)[j := pending_entry srv (cl_nextTokenByte c) h ctx mark (stored_path cfg path)]"
    using sendRequest_success [OF assms(1-3) refl] by metis
  note i = first_slot_SomeD [OF assms(4) [unfolded findPendingByToken_def]]
  have "j \<noteq> i" using i j(2) by (auto simp: pending_matches_def)
  moreover have entry: "pending_matches [cl_nextTokenByte c] (cl_pending c1 ! j)" "pd_onResponse (cl_pending c1 ! j) = h"
    using j(1) by (simp_all add: j(3) pending_entry_def pending_matches_def)
  moreover have "findPendingByToken [cl_nextTokenByte c] c1 = Some (min i j)"
    unfolding findPendingByToken_def
  proof (rule first_slot_unique)
    show "min i j < length (cl_pending c1)" using i j(1) by (simp add: j(3))
    show "pending_matches [cl_nextTokenByte c] (cl_pending c1 ! min i j)"
      using i entry(1) \<open>j \<noteq> i\<close> by (cases "i < j") (simp_all add: j(3) min_def)
    show "\<not> pending_matches [cl_nextTokenByte c] (cl_pending c1 ! k)" if "k < min i j" for k
      using that i by (simp add: j(3))
  qed
  ultimately show ?thesis using j(1,3) by auto
qed

definition watching_client :: client where
  "watching_client = (fresh_client 4)\<lparr>cl_pending :=
     replicate 2 (empty_pending) @ [pending_entry some_server 1 (Some 7) (Some 3) True temp_uri, empty_pending]\<rparr>"

theorem token_reuse_shadows_witness:
  "\<exists>j < 4. j \<noteq> 2 \<and> findPendingByToken [1] (snd (client_get (table_config 4) some_server temp_uri (Some 8) None True
     watching_client)) = Some (min 2 j)"
proof -
  let ?call = "client_get (table_config 4) some_server temp_uri (Some 8) None True watching_client"
  have ok: "fst ?call" by code_simp
  then have call: "sendRequest (table_config 4) some_server temp_uri Code_Get None CF_TextPlain True False False
      (Some 8) None False watching_client = (True, snd ?call)"
    by (simp add: client_get_def prod_eq_iff)
  have tok: "cl_nextTokenByte watching_client = 1" "length (cl_pending watching_client) = 4"
    by (simp_all add: watching_client_def fresh_client_def new_client_def)
  have wait: "findPendingByToken [cl_nextTokenByte watching_client] watching_client = Some 2" by code_simp
  have v: "valid_config (table_config 4)" by (rule table_config_valid) simp
  from token_reuse_shadows [OF call v temp_uri_short wait] show ?thesis unfolding tok by auto
qed

section \<open>A callback that cancels its observation\<close>

text \<open>
  A callback that cancels the observation it belongs to: the deregistration goes out, is tracked
  and takes the slot of the observation, which \<^verbatim>\<open>poll\<close> then frees as that of a one-shot
  request that has been answered. So nobody waits for the answer to the deregistration.
\<close>

definition cancel_env :: "'c client_env" where
  "cancel_env = scripted_env (table_config 4) (\<lambda>h res ctx. [CallCancel some_server temp_uri])
     (\<lambda>h ctx. []) (\<lambda>h ep p ctx. [])"

definition observed_once :: client where
  "observed_once = (fresh_client 4)\<lparr>cl_nextTokenByte := 2, cl_pending :=
     [pending_entry some_server 1 (Some 7) (Some 3) True temp_uri, empty_pending, empty_pending, empty_pending]\<rparr>"

lemma cancel_in_callback_forgotten:
  "list_all (\<lambda>p. \<not> pd_active p) (cl_pending (deliver_response cancel_env 0 reset_message observed_once)) \<and>
   map tx_token (filter in_flight (cl_pool (deliver_response cancel_env 0 reset_message observed_once))) = [[2]]"
  by code_simp

section \<open>Fields of the wire format\<close>

text \<open>
  An extended option delta of 65267 or more is not rejected: the sum with 269 wraps in the 16-bit
  variable, so that a datagram whose option number lies above 65535 is decoded as if it were
  \<open>v - 65267\<close>, 11 (Uri-Path) for \<open>v = 65278\<close> for example.
\<close>

theorem extended_delta_wraps:
  assumes "valid_config cfg" "65267 \<le> unat (v :: u16)"
  shows "\<exists>m. decode cfg [0x40, code, a, b, 0xE0, hi_byte v, lo_byte v] = Decoded m \<and>
    map opt_number (msg_options m) = [v - 65267] \<and> 65535 < unat v + 269"
proof -
  have n: "drop_bit 4 (0xE0 :: u8) = 14" "(0xE0 :: u8) AND 0x0F = 0" "drop_bit 6 (0x40 :: u8) = kVersion"
    "(0x40 :: u8) AND 0x0F = 0" by (code_simp, code_simp, code_simp, code_simp)
  have o': "1 \<le> max_options cfg" using assms(1) by (simp add: valid_config_def)
  have "(269 :: u16) + v = v - 65267" by simp
  with n o' have "\<exists>m. decode cfg [0x40, code, a, b, 0xE0, hi_byte v, lo_byte v] = Decoded m \<and>
    map opt_number (msg_options m) = [v - 65267]"
    by (simp add: decode_def Let_def rd_bytes_def decode_loop.simps rd_def decode_option_def read_bind_def
        decode_field_def be16_hi_lo reset_message_def)
  with assms(2) show ?thesis by auto
qed

theorem extended_delta_wraps_witness:
  "\<exists>m. decode default_config [0x40, 0x01, 0x00, 0x01, 0xE0, hi_byte 65278, lo_byte 65278] = Decoded m \<and>
     map opt_number (msg_options m) = [Opt_UriPath]"
  using extended_delta_wraps [OF default_config_valid, of 65278] by (auto simp: opt_defs)

text \<open>
  A datagram with a token length above 8 leaves the type of that datagram in the message.
\<close>

lemma bad_token_length_not_reset:
  "decode default_config [0x79, 0x00, 0x00, 0x00] = DecodeFailed BadTokenLength m \<Longrightarrow> m \<noteq> reset_message"
proof
  assume d: "decode default_config [0x79, 0x00, 0x00, 0x00] = DecodeFailed BadTokenLength m" "m = reset_message"
  have "decode default_config [0x79, 0x00, 0x00, 0x00] \<noteq> DecodeFailed BadTokenLength reset_message" by code_simp
  with d show False by simp
qed

text \<open>
  The Observe option of RFC 7641 has at most 3 bytes; the sequence number of a resource is not
  reduced to 24 bits, so from the notification number 16777216 on the option has 4.
\<close>

lemma observe_option_too_long:
  assumes "2 ^ 24 \<le> unat (seqno :: u32)"
  shows "opt_length (uint_option Opt_Observe seqno) = 4"
proof -
  have u: "unat (drop_bit k seqno) = unat seqno div 2 ^ k" for k
    using unsigned_less [of seqno, where 'a = nat]
    by (simp add: unsigned_drop_bit_eq take_bit_nat_eq_self flip: drop_bit_eq_div)
  have "0 < unat seqno div 2 ^ k" if "k \<le> 24" for k
  proof -
    have "(2 :: nat) ^ k \<le> 2 ^ 24" using that by (intro power_increasing) simp_all
    with assms show ?thesis by (simp add: div_greater_zero_iff)
  qed
  then have "drop_bit k seqno > 0" if "k \<le> 24" for k using that u by (simp add: word_less_nat_alt)
  from this [of 0] this [of 8] this [of 16] this [of 24]
  have "length (uint_little seqno 0) = 4"
    by (simp add: uint_little.simps drop_bit_drop_bit)
  then show ?thesis by (simp add: uint_option_def uint_scratch_def)
qed

end
