(* ===== verification/App_Console.thy ===== *)
theory App_Console
  imports Coap_Prelude
begin

text \<open>
  The standard library functions the sketches under \<^verbatim>\<open>examples/\<close> print and parse with: \<^verbatim>\<open>%d\<close>, \<^verbatim>\<open>%u\<close>
  and \<^verbatim>\<open>%lu\<close> of \<^verbatim>\<open>snprintf\<close>, the size limit of \<^verbatim>\<open>snprintf\<close>, \<^verbatim>\<open>atoi\<close>, and the output of
  \<^verbatim>\<open>Serial\<close>, which is the first field of every sketch's globals.
\<close>

section \<open>Numbers as text\<close>

fun digits :: "nat \<Rightarrow> bytes" where
  "digits n = (if n < 10 then [0x30 + of_nat n] else digits (n div 10) @ [0x30 + of_nat (n mod 10)])"

declare digits.simps [simp del]

definition decimal :: "int \<Rightarrow> bytes" where
  "decimal z = (if z < 0 then 0x2D # digits (nat (- z)) else digits (nat z))"

text \<open>Two decimals, with a leading zero: \<^verbatim>\<open>%02d\<close>.\<close>

definition decimal02 :: "nat \<Rightarrow> bytes" where
  "decimal02 n = (if n < 10 then 0x30 # digits n else digits n)"

text \<open>\<^verbatim>\<open>snprintf(buf, size, ...)\<close> keeps room for the NUL.\<close>

definition snprintf :: "nat \<Rightarrow> bytes \<Rightarrow> bytes" where
  "snprintf cap text = take (cap - 1) text"

definition is_digit :: "u8 \<Rightarrow> bool" where
  "is_digit c \<longleftrightarrow> 0x30 \<le> c \<and> c \<le> 0x39"

definition is_space :: "u8 \<Rightarrow> bool" where
  "is_space c \<longleftrightarrow> c = 0x20 \<or> 0x09 \<le> c \<and> c \<le> 0x0D"

definition number_of :: "bytes \<Rightarrow> nat" where
  "number_of ds = foldl (\<lambda>v c. 10 * v + unat (c - 0x30)) 0 ds"

text \<open>
  The value of the longest number at the start of the text, 0 if there is none. What \<^verbatim>\<open>atoi\<close> does
  with a number that an \<^verbatim>\<open>int\<close> of 32 bits cannot hold is undefined: the parameter \<open>ovf\<close>.
\<close>

definition atoi :: "(bytes \<Rightarrow> int) \<Rightarrow> bytes \<Rightarrow> int" where
  "atoi ovf text =
     (let s = dropWhile is_space text;
          neg = (s \<noteq> [] \<and> hd s = 0x2D);
          body = (if s \<noteq> [] \<and> (hd s = 0x2D \<or> hd s = 0x2B) then tl s else s);
          v = int (number_of (takeWhile is_digit body));
          z = (if neg then - v else v)
      in if - (2 ^ 31) \<le> z \<and> z < 2 ^ 31 then z else ovf text)"

lemma digit_of_nat:
  assumes "n < 10"
  shows "is_digit (0x30 + of_nat n)" "unat (0x30 + of_nat n - 0x30 :: u8) = n"
    "0x30 + of_nat n \<noteq> (0x2D :: u8)" "0x30 + of_nat n \<noteq> (0x2B :: u8)" "\<not> is_space (0x30 + of_nat n)"
proof -
  have "n \<in> {0, 1, 2, 3, 4, 5, 6, 7, 8, 9}" using assms by auto
  then show "is_digit (0x30 + of_nat n)" "unat (0x30 + of_nat n - 0x30 :: u8) = n"
    "0x30 + of_nat n \<noteq> (0x2D :: u8)" "0x30 + of_nat n \<noteq> (0x2B :: u8)" "\<not> is_space (0x30 + of_nat n)"
    by (elim insertE emptyE; simp add: is_digit_def is_space_def)+
qed

lemma digits_are_digits: "list_all is_digit (digits n)"
proof (induction n rule: digits.induct)
  case (1 n)
  then show ?case by (subst digits.simps) (simp add: digit_of_nat(1))
qed

lemma number_of_digits: "number_of (digits n) = n"
proof (induction n rule: digits.induct)
  case (1 n)
  then show ?case
    using digit_of_nat(2) [of n] digit_of_nat(2) [of "n mod 10"]
    by (subst digits.simps) (simp add: number_of_def)
qed

lemma digits_hd: "digits n \<noteq> [] \<and> (\<exists>k < 10. hd (digits n) = 0x30 + of_nat k)"
proof (induction n rule: digits.induct)
  case (1 n)
  then show ?case by (subst (1 2) digits.simps) (auto simp: hd_append)
qed

text \<open>\<^verbatim>\<open>atoi\<close> reads back what \<^verbatim>\<open>%d\<close> prints.\<close>

lemma atoi_decimal:
  assumes "- (2 ^ 31) \<le> z" "z < 2 ^ 31"
  shows "atoi ovf (decimal z) = z"
proof -
  have all: "takeWhile is_digit (digits n) = digits n" for n
    using digits_are_digits by (simp add: takeWhile_eq_all_conv list_all_iff)
  obtain k where k: "k < 10" "hd (digits (nat z)) = 0x30 + of_nat k" "digits (nat z) \<noteq> []"
    using digits_hd by blast
  then have d: "dropWhile is_space (digits (nat z)) = digits (nat z)"
    by (cases "digits (nat z)") (simp_all add: digit_of_nat(5))
  show ?thesis
  proof (cases "z < 0")
    case True
    have "dropWhile is_space (decimal z) = decimal z"
      using True by (simp add: decimal_def is_space_def)
    moreover have "nat (- z) \<le> 2147483648" using assms(1) by simp
    ultimately show ?thesis
      using True assms by (simp add: atoi_def Let_def decimal_def all number_of_digits)
  next
    case False
    then show ?thesis
      using assms d k by (simp add: atoi_def Let_def decimal_def all number_of_digits digit_of_nat(3,4))
  qed
qed

lemma length_digits: "n < 10 ^ Suc k \<Longrightarrow> length (digits n) \<le> Suc k"
proof (induction k arbitrary: n)
  case 0
  then show ?case by (simp add: digits.simps)
next
  case (Suc k)
  then have "n div 10 < 10 ^ Suc k" by (simp add: less_mult_imp_div_less)
  with Suc.IH show ?case by (subst digits.simps) simp
qed

section \<open>Single-precision numbers\<close>

text \<open>
  The sensor values are \<^verbatim>\<open>float\<close>. Their arithmetic and their text are parameters of the models: a
  literal \<open>fl_lit m d\<close> is \<open>m / 10 ^ d\<close>, \<open>fl_show d x\<close> is what \<^verbatim>\<open>%.<d>f\<close> prints. The proofs
  use nothing of them. \<open>tenths\<close> is an instance to evaluate with.
\<close>

record 'f float_ops =
  fl_lit :: "int \<Rightarrow> nat \<Rightarrow> 'f"
  fl_add :: "'f \<Rightarrow> 'f \<Rightarrow> 'f"
  fl_div :: "'f \<Rightarrow> 'f \<Rightarrow> 'f"
  fl_neg :: "'f \<Rightarrow> 'f"
  fl_less :: "'f \<Rightarrow> 'f \<Rightarrow> bool"
  fl_show :: "nat \<Rightarrow> 'f \<Rightarrow> bytes"

definition tenths :: "int float_ops" where
  "tenths = \<lparr>fl_lit = (\<lambda>m d. m * 10 div 10 ^ d), fl_add = (+), fl_div = (\<lambda>a b. a * 10 div b),
     fl_neg = uminus, fl_less = (<),
     fl_show = (\<lambda>d x. (if x < 0 then [0x2D] else []) @ digits (nat (\<bar>x\<bar> div 10)) @ 0x2E #
                 digits (nat (\<bar>x\<bar> mod 10)) @ replicate (d - 1) 0x30)\<rparr>"

section \<open>The console\<close>

record console =
  con_serial :: bytes

definition serial_print :: "bytes \<Rightarrow> 'a console_scheme \<Rightarrow> 'a console_scheme" where
  "serial_print text g = g\<lparr>con_serial := con_serial g @ text\<rparr>"

definition serial_println :: "bytes \<Rightarrow> 'a console_scheme \<Rightarrow> 'a console_scheme" where
  "serial_println text g = serial_print (text @ [13, 10]) g"

lemma serial_simps [simp]:
  "con_serial (serial_print t g) = con_serial g @ t"
  "console.more (serial_print t g) = console.more g"
  "con_serial (serial_println t g) = con_serial g @ t @ [13, 10]"
  "console.more (serial_println t g) = console.more g"
  by (simp_all add: serial_print_def serial_println_def)

end
