(* ===== verification/App_Common.thy ===== *)
theory App_Common
  imports Coap_Exchange Coap_Transfer App_Console
begin

text \<open>
  What the sketches under \<^verbatim>\<open>examples/\<close> rest on. A sketch is a server or a client whose globals are
  the extension of its record. The library leaves the globals and the registered resources alone,
  so that a datagram changes them through one run of one handler, or not at all: \<open>App_Common\<close>
  proves that once, for every sketch, and what follows for the states of a sketch's loop.
\<close>

section \<open>What the application sees of a server\<close>

text \<open>Its own globals and what it registered.\<close>

definition app_view :: "'w server_scheme \<Rightarrow> (bytes \<times> u8 \<times> resource_handler \<times> nat \<times> bool \<times> bool) list \<times> 'w" where
  "app_view s = (map registration (sv_resources s), server.more s)"

abbreviation globals :: "'w server_scheme \<Rightarrow> 'w" where
  "globals \<equiv> server.more"

abbreviation upd_globals :: "('w \<Rightarrow> 'w) \<Rightarrow> 'w server_scheme \<Rightarrow> 'w server_scheme" where
  "upd_globals \<equiv> server.more_update"

named_theorems view_simps \<open>library operations leave the application's view alone\<close>

lemma view_fields [view_simps]:
  "app_view (s\<lparr>sv_transport := t\<rparr>) = app_view s" "app_view (s\<lparr>sv_observers := os\<rparr>) = app_view s"
  "app_view (s\<lparr>sv_deferred := ds\<rparr>) = app_view s" "app_view (s\<lparr>sv_txPool := p\<rparr>) = app_view s"
  "app_view (s\<lparr>sv_lastNowMs := n\<rparr>) = app_view s" "app_view (s\<lparr>sv_nextMessageId := i\<rparr>) = app_view s"
  "app_view (s\<lparr>sv_linkFormat := l\<rparr>) = app_view s" "app_view (s\<lparr>sv_block1sessions := bs\<rparr>) = app_view s"
  "app_view (upd_globals f s) = (fst (app_view s), f (snd (app_view s)))"
  by (simp_all add: app_view_def)

lemma view_sequence [view_simps]:
  "app_view (s\<lparr>sv_resources := (sv_resources s)[i := (sv_resources s ! i)\<lparr>rs_observeSequence := q\<rparr>]\<rparr>) = app_view s"
  "app_view (s\<lparr>sv_resources := (sv_resources s)[i := (sv_resources s ! i)\<lparr>rs_resourceType := t\<rparr>]\<rparr>) = app_view s"
  by (cases "i < length (sv_resources s)";
      simp add: app_view_def map_update registration_def list_update_beyond list_update_same_conv)+

lemma view_sending [view_simps]:
  "app_view (sv_send to d s) = app_view s"
  "app_view (send_encoded cfg m to s) = app_view s"
  "app_view (snd (reply_message cfg m code s)) = app_view s"
  by (simp_all add: sv_send_def send_encoded_def reply_message_def Let_def view_simps)

lemma view_replying [view_simps]:
  "app_view (sendPiggybackedResponse cfg m to code p fmt obs s) = app_view s"
  "app_view (sendEmptyAck cfg mid to s) = app_view s"
  "app_view (sendContinue cfg m to v s) = app_view s"
  "app_view (sendBlock2Response cfg m to code b fmt obs num hm szx s) = app_view s"
  by (simp_all add: sendPiggybackedResponse_def sendEmptyAck_def sendContinue_def sendBlock2Response_def
      Let_def split_def view_simps)

lemma view_request [view_simps]:
  "app_view (send_error cfg m to code s) = app_view s"
  "app_view (reply_plain cfg m to obs res s) = app_view s"
  "app_view (finish_deferred cfg m to s) = app_view s"
  "app_view (freeBlock1Session k s) = app_view s"
  "app_view (unreserve_deferred d s) = app_view s"
  "app_view (snd (reserve_deferred to m s)) = app_view s"
  "app_view (snd (handle_observe i m to s)) = app_view s"
  by (simp_all add: send_error_def reply_plain_def finish_deferred_def freeBlock1Session_def
      unreserve_deferred_def reserve_deferred_def handle_observe_def Let_def view_simps split: option.split)

lemma view_discovery [view_simps]: "app_view (snd (wellKnownCoreHandler cfg res s)) = app_view s"
  by (simp add: wellKnownCoreHandler_def buildLinkFormat_def Let_def view_simps)

lemma view_notify_slots: "app_view (fold (notify_slot cfg i sq p fmt con) js s) = app_view s"
  by (rule fold_inv [where P = "\<lambda>s'. app_view s' = app_view s"])
    (simp_all add: notify_slot_def Let_def view_simps)

lemma view_calls [view_simps]:
  "app_view (snd (setResourceType cfg path rt s)) = app_view s"
  "app_view (snd (notify cfg path payload fmt con s)) = app_view s"
  "app_view (snd (respond cfg hdl code payload fmt s)) = app_view s"
  by (simp_all add: setResourceType_def notify_def respond_def Let_def view_notify_slots view_simps
      split: find_result.split)

lemma view_tick [view_simps]:
  "app_view (tx_tick cfg sv_txPool put_sv_pool separateResend observeTimeout now s) = app_view s"
  unfolding tx_tick_def
  by (rule fold_inv [where P = "\<lambda>s'. app_view s' = app_view s"])
    (simp_all add: tick_slot_def Let_def put_sv_pool_def separateResend_def observeTimeout_def view_simps)

text \<open>What \<^verbatim>\<open>setup\<close> registers.\<close>

definition core_registration :: "bytes \<times> u8 \<times> resource_handler \<times> nat \<times> bool \<times> bool" where
  "core_registration = (well_known_core, MethodGet, WellKnownCore, 0, False, False)"

lemma view_add:
  "length (fst (app_view s)) < max_resources cfg \<Longrightarrow>
   app_view (snd (addResource cfg (Some p) methods (Some h) ctx obs s)) =
     (fst (app_view s) @ [(p, methods, h, ctx, obs, has_param p)], snd (app_view s))"
  by (simp add: app_view_def addResource_def registration_def)

lemma view_begin:
  "length (fst (app_view s)) < max_resources cfg \<Longrightarrow>
   app_view (snd (server_begin cfg port s)) =
     (fst (app_view s) @ (if transport_begin port (sv_transport s) then [core_registration] else []), snd (app_view s))"
  by (simp add: server_begin_def Let_def view_add view_simps core_registration_def)
    (simp add: well_known_core_def str_def slash_def colon_def)

lemma view_deploy [view_simps]: "app_view (deploy g (new_server cfg t)) = ([], g)"
  by (simp add: app_view_def new_server_def)

lemma setResourceType_keeps: "server_inv cfg s \<Longrightarrow> server_inv cfg (snd (setResourceType cfg path rt s))"
  using api_step_inv [OF api_type [OF prod.collapse [symmetric]]] by blast

lemma view_resources:
  assumes "app_view s' = app_view s"
  shows "length (sv_resources s') = length (sv_resources s)"
    and "i < length (sv_resources s) \<Longrightarrow> registration (sv_resources s' ! i) = registration (sv_resources s ! i)"
    and "globals s' = globals s"
proof -
  have m: "map registration (sv_resources s') = map registration (sv_resources s)" "globals s' = globals s"
    using assms by (simp_all add: app_view_def)
  from arg_cong [OF m(1), where f = length] show len: "length (sv_resources s') = length (sv_resources s)" by simp
  show "registration (sv_resources s' ! i) = registration (sv_resources s ! i)" if "i < length (sv_resources s)"
    using arg_cong [OF m(1), where f = "\<lambda>xs. xs ! i"] that len by simp
  show "globals s' = globals s" by (rule m(2))
qed

section \<open>One datagram, at most one handler run\<close>

text \<open>
  The view changes as one run of the handler of resource \<open>i\<close> changes it, on a request made
  of the message, whose body is its payload or, in a block-wise upload, the assembled blocks.
\<close>

definition ran :: "bool \<Rightarrow> 'w handler_env \<Rightarrow> endpoint \<Rightarrow> message \<Rightarrow> nat \<Rightarrow> path_param list \<Rightarrow>
    'w server_scheme \<Rightarrow> 'w server_scheme \<Rightarrow> bool" where
  "ran upload env from m i ps s s' \<longleftrightarrow>
     (\<exists>h d body s1. (body \<noteq> None \<longrightarrow> upload) \<and> rs_handler (sv_resources s ! i) = AppHandler h \<and> app_view s1 = app_view s \<and>
        app_view s' = app_view (snd (env h (rs_userContext (sv_resources s ! i))
                                  (make_request m from d body ps) default_response s1)))"

lemma ran_view:
  assumes "ran upload env from m i ps s s'" "app_view s0 = app_view s" "i < length (sv_resources s0)"
    and "app_view s0' = app_view s'"
  shows "ran upload env from m i ps s0 s0'"
proof -
  have "registration (sv_resources s0 ! i) = registration (sv_resources s ! i)"
    using view_resources(1,2) [OF assms(2)] assms(3) by simp
  then show ?thesis using assms(1,2,4) unfolding ran_def by (auto simp: registration_def)
qed

lemma run_handler_view:
  assumes "body \<noteq> None \<Longrightarrow> upload" "i < length (sv_resources s)" "app_view s1 = app_view s"
  shows "app_view (snd (run_handler cfg env (sv_resources s1 ! i) (make_request m from d body ps) s1)) = app_view s \<or>
    ran upload env from m i ps s
      (snd (run_handler cfg env (sv_resources s1 ! i) (make_request m from d body ps) s1))"
proof (cases "rs_handler (sv_resources s1 ! i)")
  case WellKnownCore
  then show ?thesis using assms(3) by (simp add: run_handler_def view_simps)
next
  case (AppHandler h)
  have "registration (sv_resources s1 ! i) = registration (sv_resources s ! i)"
    by (rule view_resources(2) [OF assms(3,2)])
  then have "rs_handler (sv_resources s ! i) = AppHandler h"
    "rs_userContext (sv_resources s1 ! i) = rs_userContext (sv_resources s ! i)"
    using AppHandler by (simp_all add: registration_def)
  then show ?thesis using AppHandler assms(1,3) unfolding ran_def by (auto simp: run_handler_def)
qed

lemma route_lt: "route cfg rs p = Some (i, ps) \<Longrightarrow> i < length rs"
  by (auto simp: route_def first_slot_Some_iff split: option.splits)

definition effect :: "bool \<Rightarrow> 'w handler_env \<Rightarrow> endpoint \<Rightarrow> message \<Rightarrow> nat \<Rightarrow> path_param list \<Rightarrow>
    'w server_scheme \<Rightarrow> 'w server_scheme \<Rightarrow> bool" where
  "effect upload env from m i ps s s' \<longleftrightarrow> app_view s' = app_view s \<or> ran upload env from m i ps s s'"

lemma effect_view:
  assumes "effect upload env from m i ps s s'" "app_view s0 = app_view s" "i < length (sv_resources s0)"
    and "app_view s0' = app_view s'"
  shows "effect upload env from m i ps s0 s0'"
  using assms ran_view [OF _ assms(2-4)] by (auto simp: effect_def)

lemma handle_plain_effect:
  assumes "i < length (sv_resources s)"
  shows "effect False env from m i ps s (handle_plain cfg env i ps m from obs s)"
proof -
  have "effect False env from m i ps s (snd (run_handler cfg env (sv_resources (snd (reserve_deferred from m s)) ! i)
      (make_request m from d None ps) (snd (reserve_deferred from m s))))" for d
    unfolding effect_def by (rule run_handler_view [OF _ assms]) (simp_all add: view_simps)
  from effect_view [OF this refl assms] show ?thesis
    by (simp add: handle_plain_def split_def Let_def view_simps)
qed

lemma effect_mono: "effect upload env from m i ps s s' \<Longrightarrow> (upload \<Longrightarrow> upload') \<Longrightarrow> effect upload' env from m i ps s s'"
  unfolding effect_def ran_def by blast

lemma finish_block1_effect:
  assumes "i < length (sv_resources s)"
  shows "effect True env from m i ps s (finish_block1 cfg env i k ps m from obs s)"
proof -
  have "effect True env from m i ps s (snd (run_handler cfg env (sv_resources (snd (reserve_deferred from m s)) ! i)
      (make_request m from d body ps) (snd (reserve_deferred from m s))))" for d body
    unfolding effect_def by (rule run_handler_view [OF _ assms]) (simp_all add: view_simps)
  from effect_view [OF this refl assms] show ?thesis
    by (simp add: finish_block1_def split_def Let_def view_simps)
qed

lemma accept_block1_effect:
  assumes "i < length (sv_resources s)"
  shows "effect True env from m i ps s (accept_block1 cfg env i k ps m from obs b1 s)"
proof -
  have "effect True env from m i ps s (finish_block1 cfg env i k ps m from obs (s\<lparr>sv_block1sessions := bs\<rparr>))" for bs
    by (rule effect_view [OF finish_block1_effect]) (simp_all add: view_simps assms)
  then show ?thesis by (simp add: accept_block1_def Let_def view_simps effect_def)
qed

lemma handle_block1_effect:
  assumes "i < length (sv_resources s)"
  shows "effect True env from m i ps s (handle_block1 cfg env i ps m from obs opt s)"
proof -
  have "effect True env from m i ps s (accept_block1 cfg env i k ps m from obs b1 (s\<lparr>sv_block1sessions := bs\<rparr>))"
    "effect True env from m i ps s (accept_block1 cfg env i k ps m from obs b1 s)" for bs k b1
    by (rule effect_view [OF accept_block1_effect]; simp add: view_simps assms)+
  then show ?thesis by (simp add: handle_block1_def view_simps effect_def split: option.split)
qed

text \<open>
  A datagram changes the view only if it decodes to a request that is routed to a resource and
  uses one of its methods, and then as that resource's handler does.
\<close>

lemma handle_datagram_effect:
  assumes "valid_config cfg" "server_inv cfg s" "handle_datagram cfg env from data s = Some s'"
    and "app_view s' \<noteq> app_view s"
  obtains m p i ps methodBit where "decode cfg data = Decoded m" "msg_type m \<noteq> Reset" "msg_type m \<noteq> Acknowledgement"
    "joinUriPath m (max_uri_path_len cfg) = Some p" "route cfg (sv_resources s) (cstr p) = Some (i, ps)"
    "i < length (sv_resources s)" "requested_mask (msg_code m) = Some methodBit"
    "rs_methods (sv_resources s ! i) AND methodBit \<noteq> 0" "ran (enable_blockwise cfg \<and> findOption Opt_Block1 m \<noteq> None) env from m i ps s s'"
proof -
  obtain m where m: "decode cfg data = Decoded m" "msg_type m \<noteq> Reset" "msg_type m \<noteq> Acknowledgement"
    "handleRequest cfg env m from s = Some s'"
    using assms(3,4)
    by (auto simp: handle_datagram_def view_simps split: if_splits decode_result.splits)
  note r = findResource_route [of cfg "sv_resources s"]
  have rs: "list_all (wf_resource cfg) (sv_resources s)" "max_path_params cfg \<le> 255"
    using assms(1,2) by (simp_all add: server_inv_def valid_config_def)
  obtain p i ps methodBit where p: "joinUriPath m (max_uri_path_len cfg) = Some p"
    "route cfg (sv_resources s) (cstr p) = Some (i, ps)" "requested_mask (msg_code m) = Some methodBit"
    "rs_methods (sv_resources s ! i) AND methodBit \<noteq> 0"
    and s': "enable_blockwise cfg \<and> findOption Opt_Block1 m \<noteq> None \<and>
        s' = handle_block1 cfg env i ps m from (fst (handle_observe i m from s))
          (the (findOption Opt_Block1 m)) (snd (handle_observe i m from s)) \<or>
      s' = handle_plain cfg env i ps m from (fst (handle_observe i m from s)) (snd (handle_observe i m from s))"
    using m(4) assms(4) r [OF rs]
    by (auto simp: handleRequest_def view_simps Let_def split_def
        split: option.splits find_result.splits if_splits)
  have i: "i < length (sv_resources s)" using p(2) by (rule route_lt)
  then have len: "i < length (sv_resources (snd (handle_observe i m from s)))"
    using view_resources(1) [of "snd (handle_observe i m from s)" s] by (simp add: view_simps)
  have "effect (enable_blockwise cfg \<and> findOption Opt_Block1 m \<noteq> None) env from m i ps s s'"
    using s' effect_view [OF handle_block1_effect [OF len] _ i refl]
      effect_view [OF effect_mono [OF handle_plain_effect [OF len]] _ i refl] by (auto simp: view_simps)
  with assms(4) have "ran (enable_blockwise cfg \<and> findOption Opt_Block1 m \<noteq> None) env from m i ps s s'"
    by (simp add: effect_def)
  with that [OF m(1-3) p(1,2) i p(3,4)] show thesis by blast
qed

text \<open>A server of GET resources only refuses a request or runs the handler on it, in one datagram.\<close>

lemma handleRequest_get_only:
  assumes "valid_config cfg" "server_inv cfg s" "handleRequest cfg env m from s = Some s'"
    and "\<And>i. i < length (sv_resources s) \<Longrightarrow> rs_methods (sv_resources s ! i) = MethodGet"
  obtains (refused) code where "s' = send_error cfg m from code s"
  | (served) i ps obs where "i < length (sv_resources s)"
      "s' = handle_plain cfg env i ps m from obs (snd (handle_observe i m from s))"
proof -
  have rs: "list_all (wf_resource cfg) (sv_resources s)" "max_path_params cfg \<le> 255"
    using assms(1,2) by (simp_all add: server_inv_def valid_config_def)
  consider code where "s' = send_error cfg m from code s"
    | p i ps methodBit where "route cfg (sv_resources s) p = Some (i, ps)"
      "requested_mask (msg_code m) = Some methodBit" "rs_methods (sv_resources s ! i) AND methodBit \<noteq> 0"
      "(msg_code m = Code_Put \<or> msg_code m = Code_Post) \<or>
       s' = handle_plain cfg env i ps m from (fst (handle_observe i m from s)) (snd (handle_observe i m from s))"
    using assms(3) findResource_route [OF rs]
    by (auto simp: handleRequest_def Let_def split_def split: option.splits find_result.splits if_splits)
  then show thesis
  proof cases
    case 1
    then show thesis by (rule refused)
  next
    case 2
    have i: "i < length (sv_resources s)" using 2(1) by (rule route_lt)
    have "msg_code m \<noteq> Code_Put \<and> msg_code m \<noteq> Code_Post"
      using 2(2,3) assms(4) [OF i]
      by (auto simp: requested_mask_def code_defs MethodGet_def MethodPost_def MethodPut_def MethodDelete_def
          split: if_splits)
    with 2(4) served [OF i] show thesis by blast
  qed
qed

section \<open>Looking up what was registered\<close>

lemma first_slot_map: "first_slot P (map f xs) = first_slot (\<lambda>x. P (f x)) xs"
  by (induction xs) simp_all

lemma first_slot_cong: "(\<And>x. x \<in> set xs \<Longrightarrow> P x = Q x) \<Longrightarrow> first_slot P xs = first_slot Q xs"
  by (induction xs) auto

text \<open>Without templates a path is looked up in the registrations.\<close>

lemma route_registered:
  assumes "fst (app_view s) = regs" "list_all (\<lambda>(p, ms, h, u, ob, t). \<not> t) regs"
  shows "route cfg (sv_resources s) path = map_option (\<lambda>i. (i, [])) (first_slot (\<lambda>r. fst r = path) regs)"
proof -
  have regs: "map registration (sv_resources s) = regs" using assms(1) by (simp add: app_view_def)
  have t: "\<not> rs_isTemplate r" if "r \<in> set (sv_resources s)" for r
    using that assms(2) unfolding regs [symmetric] by (auto simp: list_all_iff registration_def)
  then have "first_slot (\<lambda>r. \<not> rs_isTemplate r \<and> rs_path r = path) (sv_resources s) =
      first_slot (\<lambda>r. fst r = path) regs"
    unfolding regs [symmetric] first_slot_map by (intro first_slot_cong) (simp add: registration_def)
  moreover have "first_slot (\<lambda>r. rs_isTemplate r \<and> template_match (pieces (rs_path r)) (pieces path) \<noteq> None)
      (sv_resources s) = None"
    using t by (auto simp: first_slot_None_iff)
  ultimately show ?thesis by (simp add: route_def split: option.split)
qed

lemma registered_nth:
  assumes "fst (app_view s) = regs" "i < length regs"
  shows "i < length (sv_resources s)" "registration (sv_resources s ! i) = regs ! i"
proof -
  have m: "map registration (sv_resources s) = regs" using assms(1) by (simp add: app_view_def)
  have len: "length (sv_resources s) = length regs" using arg_cong [OF m, where f = length] by simp
  with assms(2) show "i < length (sv_resources s)" by simp
  then show "registration (sv_resources s ! i) = regs ! i" using m by auto
qed

lemma first_slot_registered:
  "first_slot (\<lambda>r. P (rs_isTemplate r) (rs_path r)) rs =
   first_slot (\<lambda>q. P (snd (snd (snd (snd (snd q))))) (fst q)) (map registration rs)"
  by (simp add: first_slot_map registration_def)

lemma route_view:
  assumes "app_view s' = app_view s"
  shows "route cfg (sv_resources s') path = route cfg (sv_resources s) path"
proof -
  have m: "map registration (sv_resources s') = map registration (sv_resources s)"
    using assms by (simp add: app_view_def)
  have "rs_path (sv_resources s' ! i) = rs_path (sv_resources s ! i)"
    if "first_slot P (map registration (sv_resources s)) = Some i" for P i
    using view_resources(2) [OF assms, of i] first_slot_lt [OF that] by (simp add: registration_def)
  then show ?thesis
    using first_slot_registered [of "\<lambda>t q. \<not> t \<and> q = path"] m
      first_slot_registered [of "\<lambda>t q. t \<and> template_match (pieces q) (pieces path) \<noteq> None"]
    by (auto simp: route_def split: option.split)
qed

section \<open>Text in a response\<close>

text \<open>A short text as the payload of a reply fits a message.\<close>

lemma text_reply_encodes:
  assumes "msg_token m = [tok]" "p \<noteq> []" "7 + length p \<le> cap"
  shows "encode (response_to m fresh code (Some p) CF_TextPlain (- 1)) cap \<noteq> []"
proof -
  let ?r = "response_to m fresh code (Some p) CF_TextPlain (- 1)"
  have opts: "msg_options ?r = [uint_option Opt_ContentFormat 0]"
    using assms(2) by (simp add: response_to_def answer_def reply_options_def CF_TextPlain_def)
  have "uint_option Opt_ContentFormat 0 = \<lparr>opt_number = 12, opt_length = 0, opt_value = None\<rparr>" by code_simp
  then have "list_all opt_encodable (msg_options ?r)" "length (wire_options 0 (msg_options ?r)) = 1"
    by (simp_all add: opts opt_encodable_def wire_option_def encodeOptionField_def Let_def)
  moreover have "msg_token ?r = [tok]" "msg_payload ?r = Some p"
    using assms(1,2) by (simp_all add: response_to_def answer_def reply_payload_def)
  moreover have "wire ?r \<noteq> []" by (simp add: wire_def wire_header_def)
  ultimately show ?thesis
    using assms(2,3) by (simp add: encode_wire_gen) (simp add: wire_def wire_header_def wire_payload_def)
qed

lemma small_fits_one_block:
  assumes "valid_config cfg" "findOption Opt_Block2 m = None" "length p \<le> 16"
  shows "fits_one_block cfg m (Some p)" "length p \<le> unat (shift_size (block_szx cfg))"
proof -
  have "block_szx cfg \<le> 6" using assms(1) by (simp add: valid_config_def)
  then have "block_szx cfg \<le> 7" by (rule order_trans) simp
  moreover have "2 ^ 4 \<le> (2 :: nat) ^ (n + 4)" for n by (rule power_increasing) simp_all
  ultimately show b: "length p \<le> unat (shift_size (block_szx cfg))"
    using assms(3) by (simp add: unat_shift_size) (meson le_trans)
  then show "fits_one_block cfg m (Some p)" using assms(2) by (simp add: fits_one_block_def)
qed

section \<open>Sketches\<close>

lemma tick_deferred:
  "sv_deferred (tx_tick cfg sv_txPool put_sv_pool separateResend observeTimeout now s) = sv_deferred s"
  unfolding tx_tick_def
  by (rule fold_inv [where P = "\<lambda>s'. sv_deferred s' = sv_deferred s"])
    (simp_all add: tick_slot_def Let_def put_sv_pool_def separateResend_def observeTimeout_def frame_simps)

text \<open>The state in which \<^verbatim>\<open>poll\<close> looks at the datagram: the timers have run.\<close>

lemma server_poll_datagram:
  assumes "valid_config cfg" "server_inv cfg s" "server_poll cfg env now s = Some s'"
  obtains s0 where "app_view s0 = app_view s" "server_inv cfg s0" "sv_lastNowMs s0 = now"
    "sv_deferred s0 = sv_deferred s" "tp_inbox (sv_transport s) = [] \<Longrightarrow> s' = s0"
    "\<And>from data rest. tp_inbox (sv_transport s) = (from, data) # rest \<Longrightarrow>
       handle_datagram cfg env from (take (max_msg_size cfg) data) s0 = Some s'"
proof -
  let ?s2 = "tx_tick cfg sv_txPool put_sv_pool separateResend observeTimeout now (s\<lparr>sv_lastNowMs := now\<rparr>)"
  let ?s0 = "?s2\<lparr>sv_transport := snd (transport_receive (max_msg_size cfg) (sv_transport ?s2))\<rparr>"
  have "server_inv cfg (s\<lparr>sv_lastNowMs := now\<rparr>)" using assms(2) by (simp add: server_inv_def)
  note keep = server_tick_keeps [OF assms(1) this, of now]
  then have inbox: "tp_inbox (sv_transport ?s2) = tp_inbox (sv_transport s)" "sv_lastNowMs ?s2 = now"
    by (simp_all add: request_frame_def)
  have "app_view ?s0 = app_view s" by (simp add: view_simps)
  moreover have "server_inv cfg ?s0" using keep by (simp add: server_inv_def)
  moreover have d: "handle_datagram cfg env (fst (fst (transport_receive (max_msg_size cfg) (sv_transport ?s2))))
      (snd (fst (transport_receive (max_msg_size cfg) (sv_transport ?s2)))) ?s0 = Some s'"
    using assms(3) by (simp add: server_poll_def Let_def split_def)
  then have "s' = ?s0" if "tp_inbox (sv_transport s) = []"
    using inbox(1) that by (simp add: transport_receive_def handle_datagram_def [of _ _ _ "[]"])
  moreover have "handle_datagram cfg env from (take (max_msg_size cfg) data) ?s0 = Some s'"
    if "tp_inbox (sv_transport s) = (from, data) # rest" for "from" data rest
    using d inbox(1) that by (simp add: transport_receive_def)
  moreover have "sv_lastNowMs ?s0 = now" "sv_deferred ?s0 = sv_deferred s"
    using inbox(2) by (simp_all add: tick_deferred)
  ultimately show thesis using that [of ?s0] by blast
qed

lemma server_poll_effect:
  assumes "valid_config cfg" "server_inv cfg s" "server_poll cfg env now s = Some s'"
    and "app_view s' \<noteq> app_view s"
  obtains "from" data rest m p i ps methodBit where "tp_inbox (sv_transport s) = (from, data) # rest"
    "decode cfg (take (max_msg_size cfg) data) = Decoded m"
    "joinUriPath m (max_uri_path_len cfg) = Some p" "route cfg (sv_resources s) (cstr p) = Some (i, ps)"
    "i < length (sv_resources s)"
    "requested_mask (msg_code m) = Some methodBit" "rs_methods (sv_resources s ! i) AND methodBit \<noteq> 0"
    "ran (enable_blockwise cfg \<and> findOption Opt_Block1 m \<noteq> None) env from m i ps s s'"
proof -
  obtain s0 where s0: "app_view s0 = app_view s" "server_inv cfg s0"
    "tp_inbox (sv_transport s) = [] \<Longrightarrow> s' = s0"
    "\<And>from data rest. tp_inbox (sv_transport s) = (from, data) # rest \<Longrightarrow>
       handle_datagram cfg env from (take (max_msg_size cfg) data) s0 = Some s'"
    by (rule server_poll_datagram [OF assms(1-3)]) blast
  obtain "from" data rest where inbox: "tp_inbox (sv_transport s) = (from, data) # rest"
    using s0(1,3) assms(4) by (cases "tp_inbox (sv_transport s)") auto
  have ne: "app_view s' \<noteq> app_view s0" using assms(4) s0(1) by simp
  obtain m p i ps methodBit where d: "decode cfg (take (max_msg_size cfg) data) = Decoded m"
    "joinUriPath m (max_uri_path_len cfg) = Some p" "route cfg (sv_resources s0) (cstr p) = Some (i, ps)"
    "i < length (sv_resources s0)"
    "requested_mask (msg_code m) = Some methodBit" "rs_methods (sv_resources s0 ! i) AND methodBit \<noteq> 0"
    "ran (enable_blockwise cfg \<and> findOption Opt_Block1 m \<noteq> None) env from m i ps s0 s'"
    by (rule handle_datagram_effect [OF assms(1) s0(2) s0(4) [OF inbox] ne]) blast
  have i: "i < length (sv_resources s)" using view_resources(1) [OF s0(1)] d(4) by simp
  moreover have "rs_methods (sv_resources s ! i) = rs_methods (sv_resources s0 ! i)"
    using view_resources(2) [OF s0(1) i] by (simp add: registration_def)
  ultimately show thesis
    using that inbox d route_view [OF s0(1)] ran_view [OF d(7) s0(1) [symmetric] i refl] by metis
qed

text \<open>
  An invariant of the view that the handlers and the rest of the loop keep holds in every state
  of the sketch, whatever the network does, and every run of the loop returns. What \<^verbatim>\<open>setup\<close>
  registers must fit the build: \<open>room\<close> is what the sketch needs of the knobs.
\<close>

text \<open>Public calls one after the other.\<close>

lemma reach_then:
  assumes "api_reach cfg s s'"
  shows "api_reach cfg s (upd_globals f s')" "api_reach cfg s (snd (notify cfg path p fmt con s'))"
    "api_reach cfg s (snd (respond cfg hdl code p fmt s'))"
  using rtranclp.rtrancl_into_rtrancl [OF assms api_globals]
    rtranclp.rtrancl_into_rtrancl [OF assms api_notify [OF prod.collapse [symmetric]]]
    rtranclp.rtrancl_into_rtrancl [OF assms api_respond [OF prod.collapse [symmetric]]] by blast+

text \<open>Between two runs of \<^verbatim>\<open>loop\<close> the network may put any datagrams in front of the server.\<close>

inductive sketch_runs :: "('s \<Rightarrow> bool) \<Rightarrow> ('i \<Rightarrow> 's \<Rightarrow> 's option) \<Rightarrow> ('s \<Rightarrow> 's \<Rightarrow> bool) \<Rightarrow> 's \<Rightarrow> bool"
  for boot loop network where
  run_setup: "boot s \<Longrightarrow> sketch_runs boot loop network s"
| run_loop: "sketch_runs boot loop network s \<Longrightarrow> loop i s = Some s' \<Longrightarrow> sketch_runs boot loop network s'"
| run_network: "sketch_runs boot loop network s \<Longrightarrow> network s s' \<Longrightarrow> sketch_runs boot loop network s'"

definition server_traffic :: "'w server_scheme \<Rightarrow> 'w server_scheme \<Rightarrow> bool" where
  "server_traffic s s' \<longleftrightarrow>
     (\<exists>inbox results. s' = s\<lparr>sv_transport := (sv_transport s)\<lparr>tp_inbox := inbox, tp_send_results := results\<rparr>\<rparr>)"

lemma server_traffic_keeps:
  "server_traffic s s' \<Longrightarrow> app_view s' = app_view s \<and> (server_inv cfg s \<longrightarrow> server_inv cfg s')"
  by (auto simp: server_traffic_def server_inv_def view_simps)

lemma default_room:
  "2 \<le> max_resources default_config" "4 \<le> max_resources default_config" "1 \<le> max_path_params default_config"
  by (simp_all add: default_config_def)

locale server_sketch =
  fixes cfg :: config
    and env :: "'i \<Rightarrow> 'w handler_env"
    and clock :: "'i \<Rightarrow> u32"
    and after :: "'i \<Rightarrow> 'w server_scheme \<Rightarrow> 'w server_scheme"
    and loop :: "'i \<Rightarrow> 'w server_scheme \<Rightarrow> 'w server_scheme option"
    and room :: bool
    and boot :: "'w server_scheme \<Rightarrow> bool"
    and good :: "(bytes \<times> u8 \<times> resource_handler \<times> nat \<times> bool \<times> bool) list \<times> 'w \<Rightarrow> bool"
  assumes loop_eq: "loop i s = map_option (after i) (server_poll cfg (env i) (clock i) s)"
    and handlers_reach: "handlers_ok cfg (env i)"
    and after_reach: "api_reach cfg s (after i s)"
    and boot_inv: "valid_config cfg \<Longrightarrow> room \<Longrightarrow> boot s \<Longrightarrow> server_inv cfg s"
    and boot_good: "room \<Longrightarrow> boot s \<Longrightarrow> good (app_view s)"
    and handlers_good: "good (app_view s) \<Longrightarrow> good (app_view (snd (env i h u req res s)))"
    and after_good: "good (app_view s) \<Longrightarrow> good (app_view (after i s))"
begin

lemma poll_good:
  assumes "valid_config cfg" "server_inv cfg s" "good (app_view s)" "server_poll cfg (env i) (clock i) s = Some s'"
  shows "good (app_view s')"
proof (cases "app_view s' = app_view s")
  case False
  obtain upload "from" m j ps where "ran upload (env i) from m j ps s s'"
    by (rule server_poll_effect [OF assms(1,2,4) False])
  then show ?thesis using assms(3) handlers_good unfolding ran_def by metis
qed (use assms(3) in simp)

lemma loop_returns:
  assumes "valid_config cfg" "server_inv cfg s"
  shows "\<exists>s'. loop i s = Some s' \<and> server_inv cfg s'"
proof -
  obtain s1 where "server_poll cfg (env i) (clock i) s = Some s1" "server_inv cfg s1"
    using server_poll_keeps [OF handlers_reach assms] by blast
  then show ?thesis using api_reach_inv [OF after_reach] by (auto simp: loop_eq)
qed

lemma runs_good:
  assumes "valid_config cfg" room "sketch_runs boot loop server_traffic s"
  shows "server_inv cfg s \<and> good (app_view s)"
  using assms(3)
proof induction
  case (run_setup s)
  then show ?case using boot_inv boot_good assms(1,2) by blast
next
  case (run_loop s i s')
  then obtain s1 where s1: "server_poll cfg (env i) (clock i) s = Some s1" "s' = after i s1"
    by (auto simp: loop_eq)
  have "good (app_view s1)" using poll_good [OF assms(1) _ _ s1(1)] run_loop.IH by blast
  then show ?case
    using loop_returns [OF assms(1), of s i] run_loop after_good s1(2) by auto
next
  case (run_network s s')
  then show ?case using server_traffic_keeps by metis
qed

lemma sketch_safe:
  assumes "valid_config cfg" room "sketch_runs boot loop server_traffic s"
  shows "good (app_view s) \<and> (\<exists>s'. loop i s = Some s' \<and> server_inv cfg s' \<and> good (app_view s'))"
proof -
  note s = runs_good [OF assms]
  obtain s' where s': "loop i s = Some s'" "server_inv cfg s'" using loop_returns [OF assms(1)] s by blast
  from runs_good [OF assms(1,2) sketch_runs.run_loop [OF assms(3) s'(1)]] s s' show ?thesis by blast
qed

end

end
