(* ===== verification/App_Client.thy ===== *)
theory App_Client
  imports App_Common Coap_Recovery
begin

text \<open>
  What the client sketches under \<^verbatim>\<open>examples/\<close> rest on: the library leaves the globals of the
  application and its timeout handler alone, so only callbacks change them, and a poll keeps what all
  callbacks keep.
\<close>

definition client_view :: "'c client_scheme \<Rightarrow> nat option \<times> 'c" where
  "client_view c = (cl_onTimeout c, client.more c)"

abbreviation cl_globals :: "'c client_scheme \<Rightarrow> 'c" where
  "cl_globals \<equiv> client.more"

abbreviation upd_cl_globals :: "('c \<Rightarrow> 'c) \<Rightarrow> 'c client_scheme \<Rightarrow> 'c client_scheme" where
  "upd_cl_globals \<equiv> client.more_update"

named_theorems cview_simps \<open>library operations leave the application's view of the client alone\<close>

lemma cview_fields [cview_simps]:
  "client_view (c\<lparr>cl_transport := t\<rparr>) = client_view c" "client_view (c\<lparr>cl_pool := p\<rparr>) = client_view c"
  "client_view (c\<lparr>cl_pending := ps\<rparr>) = client_view c" "client_view (c\<lparr>cl_discovers := ds\<rparr>) = client_view c"
  "client_view (c\<lparr>cl_nextMessageId := i\<rparr>) = client_view c" "client_view (c\<lparr>cl_nextTokenByte := k\<rparr>) = client_view c"
  "client_view (c\<lparr>cl_lastNowMs := n\<rparr>) = client_view c" "client_view (c\<lparr>cl_uploads := us\<rparr>) = client_view c"
  "client_view (c\<lparr>cl_recvs := rs\<rparr>) = client_view c"
  "client_view (upd_cl_globals f c) = (fst (client_view c), f (snd (client_view c)))"
  by (simp_all add: client_view_def)

lemma cview_slots [cview_simps]:
  "client_view (upd_pending i f c) = client_view c" "client_view (upd_upload i g c) = client_view c"
  "client_view (upd_recv i h c) = client_view c" "client_view (snd (cl_send to d c)) = client_view c"
  "client_view (cl_track cfg to mid tok b c) = client_view c" "client_view (snd (nextToken c)) = client_view c"
  "client_view (finish_slot i c) = client_view c" "client_view (clientResend to d c) = client_view c"
  "client_view (put_cl_pool p c) = client_view c" "client_view (expire_discovers cfg now c) = client_view c"
  by (simp_all add: upd_pending_def upd_upload_def upd_recv_def cl_send_def cl_track_def nextToken_def
      finish_slot_def clientResend_def put_cl_pool_def expire_discovers_def Let_def split_def cview_simps)

lemma cview_allocate: "allocatePending c = Some (i, c') \<Longrightarrow> client_view c' = client_view c"
  by (auto simp: allocatePending_def cview_simps split: option.splits)

lemma cview_request [cview_simps]:
  "client_view (snd (sendRequest cfg srv path meth p fmt con reg dereg h ctx mark c)) = client_view c"
  by (auto simp: sendRequest_def Let_def split_def cview_simps dest: cview_allocate split: option.split)

lemma cview_sent:
  "sendRequest cfg srv path meth p fmt con reg dereg h ctx mark c = (ok, c') \<Longrightarrow> client_view c' = client_view c"
  using cview_request [of cfg srv path meth p fmt con reg dereg h ctx mark c] by simp

lemma cview_blocks [cview_simps]:
  "client_view (snd (sendBlock1 cfg i c)) = client_view c"
  "client_view (snd (sendBlock2Request cfg i c)) = client_view c"
  by (simp_all add: sendBlock1_def sendBlock2Request_def Let_def split_def cview_simps)

lemma cview_upload [cview_simps]: "client_view (snd (start_upload cfg srv path meth p fmt h ctx c)) = client_view c"
  by (auto simp: start_upload_def Let_def split_def cview_simps dest: cview_allocate split: option.split)

lemma cview_calls [cview_simps]:
  "client_view (snd (client_get cfg srv path h ctx con c)) = client_view c"
  "client_view (snd (client_put cfg srv path b fmt h ctx con c)) = client_view c"
  "client_view (snd (client_post cfg srv path b fmt h ctx con c)) = client_view c"
  "client_view (snd (client_del cfg srv path h ctx con c)) = client_view c"
  "client_view (snd (client_observe cfg srv path h ctx c)) = client_view c"
  "client_view (snd (cancelObserve cfg srv path c)) = client_view c"
  by (simp_all add: client_get_def client_put_def client_post_def client_del_def client_observe_def
      cancelObserve_def Let_def cview_simps split: option.split)

section \<open>A poll keeps what the callbacks keep\<close>

definition callbacks_keep :: "(nat option \<times> 'c \<Rightarrow> bool) \<Rightarrow> 'c client_env \<Rightarrow> bool" where
  "callbacks_keep P env \<longleftrightarrow>
     (\<forall>h res ctx c. P (client_view c) \<longrightarrow> P (client_view (ce_response env h res ctx c))) \<and>
     (\<forall>h ctx c. P (client_view c) \<longrightarrow> fst (client_view c) = Some h \<longrightarrow> P (client_view (ce_timeout env h ctx c))) \<and>
     (\<forall>h ep p ctx c. P (client_view c) \<longrightarrow> P (client_view (ce_discover env h ep p ctx c)))"

lemma fire_keeps:
  assumes "callbacks_keep P env" "P (client_view c)"
  shows "P (client_view (fire_timeout env ctx c))" "P (client_view (fire_response env slot res c))"
  using assms by (auto simp: fire_timeout_def fire_response_def callbacks_keep_def client_view_def split: option.split)

lemma clientTimeout_keeps:
  assumes "callbacks_keep P env" "P (client_view c)"
  shows "P (client_view (clientTimeout env to tok c))"
  using fire_keeps(1) [OF assms(1)] assms(2) by (simp add: clientTimeout_def cview_simps split: option.split)

lemma poll_timers_keeps:
  assumes "callbacks_keep P env" "P (client_view c)"
  shows "P (client_view (poll_timers cfg env now c))"
  unfolding poll_timers_def tx_tick_def
  by (rule fold_inv [where P = "\<lambda>c. P (client_view c)"])
    (simp_all add: assms(2) cview_simps tick_slot_def Let_def clientTimeout_keeps [OF assms(1)])

lemma handle_response_keeps:
  assumes "callbacks_keep P env" "P (client_view c)"
  shows "P (client_view (handle_response cfg env m from c))"
proof -
  have deliver: "P (client_view (deliver_response env i m c'))" if "P (client_view c')" for i and c' :: "'a client_scheme"
    using fire_keeps(2) [OF assms(1) that] by (simp add: deliver_response_def cview_simps)
  have up: "P (client_view (continue_upload cfg env i c'))" if "P (client_view c')" for i and c' :: "'a client_scheme"
    using that by (simp add: continue_upload_def Let_def split_def cview_simps fire_keeps(1) [OF assms(1)])
  have down: "P (client_view (handle_block2 cfg env i m from b2 c'))" if "P (client_view c')"
    for i b2 and c' :: "'a client_scheme"
    using that by (simp add: handle_block2_def Let_def cview_simps fire_keeps(2) [OF assms(1)])
  have "P (client_view (dispatch_pending cfg env i m from c'))" if "P (client_view c')" for i and c' :: "'a client_scheme"
    using that by (simp add: dispatch_pending_def Let_def deliver up down cview_simps split: option.split)
  then show ?thesis
    using assms by (auto simp: handle_response_def Let_def cview_simps callbacks_keep_def split: option.split)
qed

lemma client_poll_keeps_view:
  assumes "callbacks_keep P env" "P (client_view c)" "client_poll cfg env now c = Some c'"
  shows "P (client_view c')"
proof -
  have rst: "P (client_view (handle_rst env m from c0))" if "P (client_view c0)" for m "from" and c0 :: "'a client_scheme"
    using that by (simp add: handle_rst_def Let_def cview_simps fire_keeps(1) [OF assms(1)] split: option.split)
  show ?thesis
    using assms(2,3)
    by (auto simp: client_poll_def Let_def split_def cview_simps intro!: rst poll_timers_keeps [OF assms(1)]
        handle_response_keeps [OF assms(1)] split: decode_result.splits if_splits)
qed

text \<open>Without a timeout handler the timers run no callback.\<close>

lemma poll_timers_quiet:
  assumes "cl_onTimeout c = None"
  shows "client_view (poll_timers cfg env now c) = client_view c"
proof -
  have "fire_timeout env ctx c' = c'" if "client_view c' = client_view c" for ctx and c' :: "'a client_scheme"
    using assms that by (simp add: fire_timeout_def client_view_def)
  then show ?thesis
    unfolding poll_timers_def tx_tick_def
    by (intro fold_inv [where P = "\<lambda>c'. client_view c' = client_view c"])
      (simp_all add: cview_simps tick_slot_def Let_def clientTimeout_def split: option.split)
qed

section \<open>A call of a sketch and its answer\<close>

text \<open>
  The exchange as a sketch sees it, when the handler answers with a short text at once, the callback
  only changes the globals, and no timeout handler is set: the request datagram, served,
  gives the answer datagram, and that one, polled, changes the globals as the callback does.
\<close>

lemma request_round_trip:
  assumes cfg: "valid_config cfg" and c: "client_inv cfg c" "cl_onTimeout c = None" and s: "server_inv cfg s"
    and path: "short_path path" "0 \<notin> set path" "canonical_path path = path" "length path < max_uri_path_len cfg"
    and call: "sendRequest cfg srv path meth payload fmt True False False (Some h) ctx False c = (True, c1)"
    and m: "m = sent_request cfg path meth payload fmt True False False c"
    and free: "list_all (\<lambda>p. \<not> pending_matches [cl_nextTokenByte c] p) (cl_pending c)"
      "list_all (\<lambda>d. \<not> discover_matches [cl_nextTokenByte c] d) (cl_discovers c)"
    and route: "route cfg (sv_resources s) path = Some (i, ps)" "requested_mask meth = Some methodBit"
      "rs_methods (sv_resources s ! i) AND methodBit \<noteq> 0"
    and run: "reserve_deferred me m s = (d, s2)"
      "run_handler cfg senv (sv_resources s2 ! i) (make_request m me d None ps) s2 = (res, s3)"
    and res: "\<not> res_deferred res" "res_payload res = Some text" "res_contentFormat res = CF_TextPlain" "text \<noteq> []"
      "7 + length text \<le> max_msg_size cfg" "enable_blockwise cfg \<longrightarrow> length text \<le> unat (shift_size (block_szx cfg))"
      "res_code res \<noteq> Code_Empty" "\<not> isMethodCode (res_code res)"
    and cb: "\<And>c. ce_response cenv h \<lparr>cr_code = res_code res, cr_payload = Some text,
      cr_contentFormat = CF_TextPlain\<rparr> ctx c = upd_cl_globals f c"
  shows "\<exists>d s' reply c2. tp_sent (cl_transport c1) = tp_sent (cl_transport c) @ [(srv, d)] \<and>
    handle_datagram cfg senv me d s = Some s' \<and> globals s' = globals s3 \<and>
    tp_sent (sv_transport s') = tp_sent (sv_transport s3) @ [(me, reply)] \<and>
    client_poll cfg cenv now (arriving srv reply c1) = Some c2 \<and> cl_globals c2 = f (cl_globals c)"
proof -
  define reply where "reply = response_to m (sv_nextMessageId s3) (res_code res) (res_payload res)
    (res_contentFormat res) (- 1)"
  let ?c2 = "arriving srv (encode reply (max_msg_size cfg)) c1"
  have tok: "msg_token m = [cl_nextTokenByte c]" by (simp add: m sent_request_def request_of_def)
  have b2: "findOption Opt_Block2 m = None"
    unfolding m sent_request_def by (rule request_option_absent) (simp_all add: opt_defs)
  have ne: "encode reply (max_msg_size cfg) \<noteq> []"
    unfolding reply_def res(2,3) by (rule text_reply_encodes [OF tok res(4,5)])
  have fits: "fits_one_block cfg m (res_payload res)" using res(2,6) b2 by (simp add: fits_one_block_def)
  from sendRequest_success [OF call cfg path(1) m] obtain
    sent: "cl_transport c1 = snd (transport_send srv (encode m (max_msg_size cfg)) (cl_transport c))"
      "cl_discovers c1 = cl_discovers c" by metis
  have wait: "same_wait srv (msg_token m) (encode reply (max_msg_size cfg)) c1 ?c2"
    using free(2) sent(2) by (simp add: same_wait_def arriving_def tok)
  have canon: "length (canonical_path path) < max_uri_path_len cfg" using path(3,4) by simp
  have routed: "route cfg (sv_resources s) (canonical_path path) = Some (i, ps)" using route(1) path(3) by simp
  have now: "\<not> res_deferred res \<or> d = None" using res(1) by simp
  note core = exchange_core [OF cfg c(1) s path(1,2) canon call m free(1) [folded tok] routed route(3) run now
      fits reply_def ne res(7,8) wait route(2), of cenv now]
  have r: "\<lparr>cr_code = res_code res, cr_payload = reply_payload (res_payload res),
      cr_contentFormat = (if res_payload res = None \<or> res_payload res = Some [] then CF_TextPlain
                          else res_contentFormat res)\<rparr> =
      \<lparr>cr_code = res_code res, cr_payload = Some text, cr_contentFormat = CF_TextPlain\<rparr>"
    using res(2-4) by (simp add: reply_payload_def)
  obtain s4 where s4: "handle_datagram cfg senv me (encode m (max_msg_size cfg)) s = Some s4"
    "tp_sent (sv_transport s4) = tp_sent (sv_transport s3) @ [(me, encode reply (max_msg_size cfg))]"
    "globals s4 = globals s3" using core by blast
  obtain slot where "client_poll cfg cenv now ?c2 = Some (poll_timers cfg cenv now (finish_slot slot
      (upd_cl_globals f (at_callback now srv (cl_nextMessageId c) ?c2))))"
    using core unfolding r cb by blast
  then obtain c2 where c2: "client_poll cfg cenv now ?c2 = Some c2"
    and c2_eq: "c2 = poll_timers cfg cenv now (finish_slot slot
      (upd_cl_globals f (at_callback now srv (cl_nextMessageId c) ?c2)))" by blast
  have "client_view c1 = client_view c" by (rule cview_sent [OF call])
  then have "cl_onTimeout c1 = None" "cl_globals c1 = cl_globals c" using c(2) by (simp_all add: client_view_def)
  then have v: "client_view (finish_slot slot (upd_cl_globals f (at_callback now srv (cl_nextMessageId c) ?c2))) =
      (None, f (cl_globals c))"
    by (simp add: cview_simps at_callback_def arriving_def) (simp add: client_view_def)
  then have "client_view c2 = (None, f (cl_globals c))"
    unfolding c2_eq by (subst poll_timers_quiet) (simp_all add: client_view_def)
  then have "cl_globals c2 = f (cl_globals c)" by (simp add: client_view_def)
  moreover have "tp_sent (cl_transport c1) = tp_sent (cl_transport c) @ [(srv, encode m (max_msg_size cfg))]"
    using sent(1) by simp
  ultimately show ?thesis using s4 c2 by blast
qed

section \<open>Client sketches\<close>

text \<open>A body as the callbacks get it, and as \<^verbatim>\<open>%s\<close> prints a NUL-terminated copy of it.\<close>

definition response_body :: "client_response \<Rightarrow> bytes" where
  "response_body res = (case cr_payload res of None \<Rightarrow> [] | Some p \<Rightarrow> p)"

definition code_text :: "u8 \<Rightarrow> bytes" where
  "code_text code = decimal (uint (codeClass code)) @ str ''.'' @ decimal02 (unat (codeDetail code))"

text \<open>Public calls one after the other.\<close>

lemma creach_then:
  assumes "(client_api cfg)\<^sup>*\<^sup>* c c'"
  shows "(client_api cfg)\<^sup>*\<^sup>* c (upd_cl_globals f c')"
    "(client_api cfg)\<^sup>*\<^sup>* c (snd (client_get cfg srv path h ctx con c'))"
    "(client_api cfg)\<^sup>*\<^sup>* c (snd (client_put cfg srv path b fmt h ctx con c'))"
    "(client_api cfg)\<^sup>*\<^sup>* c (snd (client_observe cfg srv path h ctx c'))"
    "(client_api cfg)\<^sup>*\<^sup>* c (snd (cancelObserve cfg srv path c'))"
    "(client_api cfg)\<^sup>*\<^sup>* c (setTimeoutHandler h c')"
  using rtranclp.rtrancl_into_rtrancl [OF assms c_globals] rtranclp.rtrancl_into_rtrancl [OF assms c_get]
    rtranclp.rtrancl_into_rtrancl [OF assms c_put] rtranclp.rtrancl_into_rtrancl [OF assms c_observe]
    rtranclp.rtrancl_into_rtrancl [OF assms c_cancel] rtranclp.rtrancl_into_rtrancl [OF assms c_timeout] by blast+

definition client_traffic :: "'c client_scheme \<Rightarrow> 'c client_scheme \<Rightarrow> bool" where
  "client_traffic c c' \<longleftrightarrow>
     (\<exists>inbox results. c' = c\<lparr>cl_transport := (cl_transport c)\<lparr>tp_inbox := inbox, tp_send_results := results\<rparr>\<rparr>)"

lemma client_traffic_keeps:
  "client_traffic c c' \<Longrightarrow> client_view c' = client_view c \<and> (client_inv cfg c \<longrightarrow> client_inv cfg c')"
  by (auto simp: client_traffic_def client_inv_def cview_simps)

locale client_sketch =
  fixes cfg :: config
    and env :: "'c client_env"
    and clock :: "'i \<Rightarrow> u32"
    and after :: "'i \<Rightarrow> 'c client_scheme \<Rightarrow> 'c client_scheme"
    and loop :: "'i \<Rightarrow> 'c client_scheme \<Rightarrow> 'c client_scheme option"
    and boot :: "'c client_scheme \<Rightarrow> bool"
    and good :: "nat option \<times> 'c \<Rightarrow> bool"
  assumes loop_eq: "loop i c = map_option (after i) (client_poll cfg env (clock i) c)"
    and callbacks_reach: "callbacks_ok cfg env"
    and after_reach: "(client_api cfg)\<^sup>*\<^sup>* c (after i c)"
    and boot_inv: "valid_config cfg \<Longrightarrow> boot c \<Longrightarrow> client_inv cfg c"
    and boot_good: "boot c \<Longrightarrow> good (client_view c)"
    and callbacks_good: "callbacks_keep good env"
    and after_good: "good (client_view c) \<Longrightarrow> good (client_view (after i c))"
begin

lemma loop_returns:
  assumes "valid_config cfg" "client_inv cfg c"
  shows "\<exists>c'. loop i c = Some c' \<and> client_inv cfg c'"
proof -
  obtain c1 where c1: "client_poll cfg env (clock i) c = Some c1" "client_inv cfg c1"
    using client_poll_inv [OF callbacks_reach assms(2,1)] by blast
  have "1 \<le> max_token_len cfg" using assms(1) by (simp add: valid_config_def)
  with client_api_reach_inv [OF after_reach c1(2)] c1(1) show ?thesis by (simp add: loop_eq)
qed

lemma runs_good:
  assumes "valid_config cfg" "sketch_runs boot loop client_traffic c"
  shows "client_inv cfg c \<and> good (client_view c)"
  using assms(2)
proof induction
  case (run_setup c)
  then show ?case using boot_inv boot_good assms(1) by blast
next
  case (run_loop c i c')
  then obtain c1 where c1: "client_poll cfg env (clock i) c = Some c1" "c' = after i c1"
    by (auto simp: loop_eq)
  have "good (client_view c1)" using client_poll_keeps_view [OF callbacks_good _ c1(1)] run_loop.IH by blast
  then show ?case using loop_returns [OF assms(1), of c i] run_loop after_good c1(2) by auto
next
  case (run_network c c')
  then show ?case using client_traffic_keeps by metis
qed

lemma sketch_safe:
  assumes "valid_config cfg" "sketch_runs boot loop client_traffic c"
  shows "good (client_view c) \<and> (\<exists>c'. loop i c = Some c' \<and> client_inv cfg c' \<and> good (client_view c'))"
proof -
  note c = runs_good [OF assms]
  obtain c' where c': "loop i c = Some c'" "client_inv cfg c'" using loop_returns [OF assms(1)] c by blast
  from runs_good [OF assms(1) sketch_runs.run_loop [OF assms(2) c'(1)]] c c' show ?thesis by blast
qed

end

end
