(* ===== verification/App_Peer.thy ===== *)
theory App_Peer
  imports App_Common App_Client
begin

text \<open>
  The two sketches of \<^verbatim>\<open>examples/TwoDevicePeerToPeer_Server\<close> and
  \<^verbatim>\<open>examples/TwoDevicePeerToPeer_Client\<close>: a server with two observable sensors and an LED, and a
  client that switches the LED. What \<^verbatim>\<open>setup\<close> prints while it joins the network is the
  parameter \<open>banner\<close>; the address of the server is a parameter of the client.
\<close>

section \<open>The server sketch\<close>

record 'f peer_globals = console +
  pg_led :: bool
  pg_temp :: 'f
  pg_hum :: int
  pg_tDir :: 'f
  pg_hDir :: int
  pg_lastNotify :: u32

definition peer_init :: "'f float_ops \<Rightarrow> bytes \<Rightarrow> 'f peer_globals" where
  "peer_init F banner = \<lparr>con_serial = banner, pg_led = False, pg_temp = fl_lit F 240 1, pg_hum = 61,
     pg_tDir = fl_lit F 1 1, pg_hDir = 1, pg_lastNotify = 0\<rparr>"

definition updateData :: "'f float_ops \<Rightarrow> 'f peer_globals \<Rightarrow> 'f peer_globals" where
  "updateData F g =
     (let t = fl_add F (pg_temp g) (pg_tDir g);
          h = pg_hum g + pg_hDir g
      in g\<lparr>pg_temp := t,
           pg_tDir := (if fl_less F (fl_lit F 28 0) t \<or> fl_less F t (fl_lit F 20 0)
                       then fl_neg F (pg_tDir g) else pg_tDir g),
           pg_hum := h,
           pg_hDir := (if 75 < h \<or> h < 50 then - pg_hDir g else pg_hDir g)\<rparr>)"

definition handleTemp :: "'f float_ops \<Rightarrow> response \<Rightarrow> 'f peer_globals server_scheme \<Rightarrow>
    response \<times> 'f peer_globals server_scheme" where
  "handleTemp F res s =
     (res\<lparr>res_code := Code_Content, res_contentFormat := CF_TextPlain,
          res_payload := Some (snprintf 12 (fl_show F 1 (pg_temp (globals s))))\<rparr>, s)"

definition handleHumidity :: "response \<Rightarrow> 'f peer_globals server_scheme \<Rightarrow>
    response \<times> 'f peer_globals server_scheme" where
  "handleHumidity res s =
     (res\<lparr>res_code := Code_Content, res_contentFormat := CF_TextPlain,
          res_payload := Some (snprintf 8 (decimal (pg_hum (globals s))))\<rparr>, s)"

text \<open>The arrow that the sketch prints is the three bytes of its UTF-8 encoding.\<close>

definition arrow :: bytes where
  "arrow = [0xE2, 0x86, 0x92]"

definition handleLed :: "request \<Rightarrow> response \<Rightarrow> 'f peer_globals server_scheme \<Rightarrow>
    response \<times> 'f peer_globals server_scheme" where
  "handleLed req res s =
     (let p = (case req_payload req of None \<Rightarrow> [] | Some b \<Rightarrow> b)
      in if length p = 2 \<and> take 2 p = str ''on'' then
           (res\<lparr>res_code := Code_Changed, res_payload := Some (str ''LED on'')\<rparr>,
            upd_globals (serial_println (str ''[server] LED '' @ arrow @ str '' ON'') \<circ> pg_led_update (\<lambda>_. True)) s)
         else if length p = 3 \<and> take 3 p = str ''off'' then
           (res\<lparr>res_code := Code_Changed, res_payload := Some (str ''LED off'')\<rparr>,
            upd_globals (serial_println (str ''[server] LED '' @ arrow @ str '' OFF'') \<circ> pg_led_update (\<lambda>_. False)) s)
         else
           (res\<lparr>res_code := Code_BadRequest,
                res_payload := Some (str ''payload must be '' @ [0x27] @ str ''on'' @ [0x27] @ str '' or '' @
                                     [0x27] @ str ''off'' @ [0x27])\<rparr>, s))"

text \<open>The handlers as the library numbers them: \<^verbatim>\<open>handleTemp\<close>, \<^verbatim>\<open>handleHumidity\<close>, \<^verbatim>\<open>handleLed\<close>.\<close>

definition peer_env :: "'f float_ops \<Rightarrow> 'f peer_globals handler_env" where
  "peer_env F h ctx req res s =
     (if h = 0 then handleTemp F res s else if h = 1 then handleHumidity res s
      else if h = 2 then handleLed req res s else (res, s))"

definition peer_setup :: "config \<Rightarrow> 'w server_scheme \<Rightarrow> 'w server_scheme" where
  "peer_setup cfg s =
     (let s1 = snd (addResource cfg (Some (str ''/data/temp'')) MethodGet (Some (AppHandler 0)) 0 True s);
          s2 = snd (addResource cfg (Some (str ''/data/humidity'')) MethodGet (Some (AppHandler 1)) 0 True s1);
          s3 = snd (addResource cfg (Some (str ''/control/led'')) MethodPut (Some (AppHandler 2)) 0 False s2);
          s4 = snd (setResourceType cfg (str ''/data/temp'') (Some (str ''temperature'')) s3);
          s5 = snd (setResourceType cfg (str ''/data/humidity'') (Some (str ''humidity'')) s4)
      in snd (server_begin cfg 5683 s5))"

text \<open>The rest of \<^verbatim>\<open>loop\<close> after \<^verbatim>\<open>poll\<close>.\<close>

definition peer_after :: "config \<Rightarrow> 'f float_ops \<Rightarrow> u32 \<Rightarrow> 'f peer_globals server_scheme \<Rightarrow>
    'f peer_globals server_scheme" where
  "peer_after cfg F now s =
     (if 3000 \<le> now - pg_lastNotify (globals s) then
        let s1 = upd_globals (updateData F \<circ> pg_lastNotify_update (\<lambda>_. now)) s;
            t = snprintf 12 (fl_show F 1 (pg_temp (globals s1)));
            h = snprintf 8 (decimal (pg_hum (globals s1)));
            s2 = snd (notify cfg (str ''/data/temp'') (Some t) CF_TextPlain False s1)
        in snd (notify cfg (str ''/data/humidity'') (Some h) CF_TextPlain False s2)
      else s)"

definition peer_loop :: "config \<Rightarrow> 'f float_ops \<Rightarrow> u32 \<Rightarrow> 'f peer_globals server_scheme \<Rightarrow>
    'f peer_globals server_scheme option" where
  "peer_loop cfg F now s =
     (case server_poll cfg (peer_env F) now s of
        None \<Rightarrow> None
      | Some s1 \<Rightarrow> Some (peer_after cfg F now s1))"

definition peer_boot :: "config \<Rightarrow> 'f float_ops \<Rightarrow> 'f peer_globals server_scheme \<Rightarrow> bool" where
  "peer_boot cfg F s \<longleftrightarrow>
     (\<exists>t banner. s = peer_setup cfg (deploy (peer_init F banner) (new_server cfg t)))"

section \<open>What holds in every state of the server sketch\<close>

definition peer_registered :: "(bytes \<times> u8 \<times> resource_handler \<times> nat \<times> bool \<times> bool) list" where
  "peer_registered = [(str ''/data/temp'', MethodGet, AppHandler 0, 0, True, False),
     (str ''/data/humidity'', MethodGet, AppHandler 1, 0, True, False),
     (str ''/control/led'', MethodPut, AppHandler 2, 0, False, False)]"

definition humidity_swings :: "'f peer_globals \<Rightarrow> bool" where
  "humidity_swings g \<longleftrightarrow>
     pg_hDir g = 1 \<and> 49 \<le> pg_hum g \<and> pg_hum g \<le> 75 \<or> pg_hDir g = - 1 \<and> 50 \<le> pg_hum g \<and> pg_hum g \<le> 76"

definition peer_good :: "(bytes \<times> u8 \<times> resource_handler \<times> nat \<times> bool \<times> bool) list \<times> 'f peer_globals \<Rightarrow> bool" where
  "peer_good v \<longleftrightarrow> fst v \<in> {peer_registered, peer_registered @ [core_registration]} \<and> humidity_swings (snd v)"

lemma updateData_swings: "humidity_swings g \<Longrightarrow> humidity_swings (updateData F g)"
  by (auto simp: humidity_swings_def updateData_def Let_def)

lemma swings_frame [simp]:
  "humidity_swings (serial_println t g) = humidity_swings g"
  "humidity_swings (g\<lparr>pg_led := b\<rparr>) = humidity_swings g"
  "humidity_swings (g\<lparr>pg_lastNotify := n\<rparr>) = humidity_swings g"
  by (simp_all add: humidity_swings_def serial_println_def serial_print_def)

lemma peer_paths: "wf_path cfg (str ''/data/temp'')" "wf_path cfg (str ''/data/humidity'')" "wf_path cfg (str ''/control/led'')"
  "\<not> has_param (str ''/data/temp'')" "\<not> has_param (str ''/data/humidity'')" "\<not> has_param (str ''/control/led'')"
  by (simp_all add: wf_path_def str_def colon_def slash_def)

lemma peer_setup_view:
  assumes "4 \<le> max_resources cfg" "fst (app_view s) = []"
  shows "fst (app_view (peer_setup cfg s)) \<in> {peer_registered, peer_registered @ [core_registration]}"
    and "snd (app_view (peer_setup cfg s)) = snd (app_view s)"
  using assms
  by (simp_all add: peer_setup_def Let_def view_begin view_simps view_add peer_paths peer_registered_def)

lemma peer_setup_inv: "valid_config cfg \<Longrightarrow> server_inv cfg s \<Longrightarrow> server_inv cfg (peer_setup cfg s)"
  by (simp add: peer_setup_def Let_def server_begin_inv setResourceType_keeps addResource_inv peer_paths)

lemma handleLed_reach: "api_reach cfg s (snd (handleLed req res s))"
  by (auto simp: handleLed_def Let_def intro: api_globals)

lemma peer_handlers_ok: "handlers_ok cfg (peer_env F)"
  by (simp add: handlers_ok_def peer_env_def handleTemp_def handleHumidity_def handleLed_reach)

text \<open>The sketch as an instance of the interface: its invariant is kept by each part.\<close>

lemma peer_env_good: "peer_good (app_view s) \<Longrightarrow> peer_good (app_view (snd (peer_env F h ctx req res s)))"
  by (auto simp: peer_env_def handleTemp_def handleHumidity_def handleLed_def Let_def view_simps peer_good_def)

lemma peer_after_good: "peer_good (app_view s) \<Longrightarrow> peer_good (app_view (peer_after cfg F now s))"
  by (simp add: peer_after_def Let_def view_simps peer_good_def updateData_swings)

lemma peer_after_reach: "api_reach cfg s (peer_after cfg F now s)"
  by (simp add: peer_after_def Let_def reach_then)

interpretation peer: server_sketch cfg "\<lambda>_. peer_env F" "\<lambda>now. now" "peer_after cfg F" "peer_loop cfg F"
    "4 \<le> max_resources cfg" "peer_boot cfg F" peer_good for cfg F
proof (unfold_locales, goal_cases)
  case (1 now s)
  then show ?case by (simp add: peer_loop_def option.case_eq_if map_option_case)
next
  case 2
  then show ?case by (rule peer_handlers_ok)
next
  case 3
  then show ?case by (rule peer_after_reach)
next
  case (4 s)
  then show ?case by (auto simp: peer_boot_def intro!: peer_setup_inv new_server_inv)
next
  case (5 s)
  then show ?case
    using peer_setup_view [of cfg "deploy (peer_init F _) (new_server cfg _)"]
    by (auto simp: peer_boot_def peer_good_def view_simps peer_init_def humidity_swings_def)
next
  case 6
  then show ?case by (rule peer_env_good)
next
  case 7
  then show ?case by (rule peer_after_good)
qed

section \<open>The client sketch\<close>

record peer_client = console +
  pc_lastToggle :: u32
  pc_ledOn :: bool

text \<open>The context of a PUT is the pointer to the literal it carries: 1 for "on", 2 for "off".\<close>

definition led_text :: "bool \<Rightarrow> bytes" where
  "led_text on = (if on then str ''on'' else str ''off'')"

definition led_ctx :: "bool \<Rightarrow> nat" where
  "led_ctx on = (if on then 1 else 2)"

definition onDiscovery :: "client_response \<Rightarrow> peer_client client_scheme \<Rightarrow> peer_client client_scheme" where
  "onDiscovery res =
     upd_cl_globals (serial_println [] \<circ> serial_print (response_body res) \<circ>
       serial_println ([10] @ str ''[discovery] /.well-known/core:''))"

definition onTemp :: "client_response \<Rightarrow> peer_client client_scheme \<Rightarrow> peer_client client_scheme" where
  "onTemp res =
     upd_cl_globals (serial_print (str ''[observe /data/temp] '' @ cstr (response_body res) @
       [0x20, 0xC2, 0xB0] @ str ''C'' @ [10]))"

definition onLedResponse :: "client_response \<Rightarrow> nat option \<Rightarrow> peer_client client_scheme \<Rightarrow> peer_client client_scheme" where
  "onLedResponse res ctx =
     (let state = led_text (ctx = Some 1)
      in if cr_code res = Code_Changed then
           upd_cl_globals (serial_print (str ''[led] PUT '' @ [0x27] @ state @ [0x27] @ str '' accepted'' @ [10]))
         else
           upd_cl_globals (serial_print (str ''[led] PUT '' @ [0x27] @ state @ [0x27] @ str '' failed: '' @
             code_text (cr_code res) @ [10])))"

definition peer_callbacks :: "peer_client client_env" where
  "peer_callbacks = \<lparr>
     ce_response = (\<lambda>h res ctx. if h = 0 then onDiscovery res else if h = 1 then onTemp res
                       else if h = 2 then onLedResponse res ctx else (\<lambda>c. c)),
     ce_timeout = (\<lambda>h ctx c. c),
     ce_discover = (\<lambda>h ep p ctx c. c)\<rparr>"

text \<open>\<^verbatim>\<open>setup\<close>, with the address of the server, on a client that has just been made.\<close>

definition peer_client_setup :: "config \<Rightarrow> endpoint \<Rightarrow> peer_client client_scheme \<Rightarrow> peer_client client_scheme" where
  "peer_client_setup cfg serverEp c =
     (let c1 = snd (client_get cfg serverEp (str ''/.well-known/core'') (Some 0) None True c)
      in snd (client_observe cfg serverEp (str ''/data/temp'') (Some 1) None c1))"

definition peer_toggle :: "config \<Rightarrow> endpoint \<Rightarrow> u32 \<Rightarrow> peer_client client_scheme \<Rightarrow> bool \<times> peer_client client_scheme" where
  "peer_toggle cfg serverEp now c =
     (let on = (\<not> pc_ledOn (cl_globals c));
          c1 = upd_cl_globals (serial_print (str ''[led] sending PUT /control/led '' @ [0x27] @ led_text on @
                 [0x27] @ [10]) \<circ> pc_ledOn_update (\<lambda>_. on) \<circ> pc_lastToggle_update (\<lambda>_. now)) c
      in client_put cfg serverEp (str ''/control/led'') (led_text on) CF_TextPlain (Some 2) (Some (led_ctx on)) True c1)"

definition peer_client_after :: "config \<Rightarrow> endpoint \<Rightarrow> u32 \<Rightarrow> peer_client client_scheme \<Rightarrow> peer_client client_scheme" where
  "peer_client_after cfg serverEp now c =
     (if (if pc_ledOn (cl_globals c) then 5000 else 10000) \<le> now - pc_lastToggle (cl_globals c)
      then snd (peer_toggle cfg serverEp now c) else c)"

definition peer_client_loop :: "config \<Rightarrow> endpoint \<Rightarrow> u32 \<Rightarrow> peer_client client_scheme \<Rightarrow> peer_client client_scheme option" where
  "peer_client_loop cfg serverEp now c =
     (case client_poll cfg peer_callbacks now c of
        None \<Rightarrow> None
      | Some c1 \<Rightarrow> Some (peer_client_after cfg serverEp now c1))"

definition peer_client_boot :: "config \<Rightarrow> endpoint \<Rightarrow> peer_client client_scheme \<Rightarrow> bool" where
  "peer_client_boot cfg serverEp c \<longleftrightarrow>
     (\<exists>t banner. c = peer_client_setup cfg serverEp (install \<lparr>con_serial = banner, pc_lastToggle = 0, pc_ledOn = False\<rparr>
        (new_client cfg t (reset_pool cfg))))"

lemma peer_callbacks_ok: "callbacks_ok cfg peer_callbacks"
  by (auto simp: callbacks_ok_def peer_callbacks_def onDiscovery_def onTemp_def onLedResponse_def Let_def
      intro: c_globals)

lemma peer_toggle_reach: "(client_api cfg)\<^sup>*\<^sup>* c (snd (peer_toggle cfg ep now c))"
  by (simp add: peer_toggle_def Let_def creach_then)

interpretation peer_client: client_sketch cfg peer_callbacks "\<lambda>now. now" "peer_client_after cfg ep"
    "peer_client_loop cfg ep" "peer_client_boot cfg ep" "\<lambda>v. fst v = None" for cfg ep
proof (unfold_locales, goal_cases)
  case (1 now c)
  then show ?case by (simp add: peer_client_loop_def option.case_eq_if map_option_case)
next
  case 2
  then show ?case by (rule peer_callbacks_ok)
next
  case 3
  then show ?case by (simp add: peer_client_after_def peer_toggle_reach)
next
  case (4 c)
  then have "1 \<le> max_token_len cfg" by (simp add: valid_config_def)
  with 4 show ?case
    by (auto simp: peer_client_boot_def peer_client_setup_def Let_def client_get_def client_observe_def
        intro!: sendRequest_inv new_client_inv wf_pool_reset)
next
  case (5 c)
  then show ?case
    by (auto simp: peer_client_boot_def peer_client_setup_def Let_def cview_simps)
      (simp add: client_view_def new_client_def)
next
  case 6
  then show ?case
    by (auto simp: callbacks_keep_def peer_callbacks_def onDiscovery_def onTemp_def onLedResponse_def Let_def
        cview_simps)
next
  case 7
  then show ?case by (simp add: peer_client_after_def peer_toggle_def Let_def cview_simps)
qed

end
