(* ===== verification/App_Peer_Props.thy ===== *)
theory App_Peer_Props
  imports App_Peer Props_Server Props_Client
begin

section \<open>The LED\<close>

lemma peer_regs:
  assumes "peer_good v"
  shows "list_all (\<lambda>(p, ms, h, u, ob, t). \<not> t) (fst v)" "2 < length (fst v)"
    "fst v ! 2 = (str ''/control/led'', MethodPut, AppHandler 2, 0, False, False)"
    "first_slot (\<lambda>r. fst r = str ''/control/led'') (fst v) = Some 2"
    "i < length (fst v) \<Longrightarrow> fst (snd (snd (fst v ! i))) = AppHandler 2 \<Longrightarrow> i = 2"
proof -
  have v: "fst v = peer_registered \<or> fst v = peer_registered @ [core_registration]"
    using assms by (auto simp: peer_good_def)
  then show "list_all (\<lambda>(p, ms, h, u, ob, t). \<not> t) (fst v)" "2 < length (fst v)"
    "fst v ! 2 = (str ''/control/led'', MethodPut, AppHandler 2, 0, False, False)"
    "first_slot (\<lambda>r. fst r = str ''/control/led'') (fst v) = Some 2"
    by (auto simp: peer_registered_def core_registration_def str_def)
  show "i = 2" if "i < length (fst v)" "fst (snd (snd (fst v ! i))) = AppHandler 2"
  proof -
    have "i < 4" using v that(1) by (auto simp: peer_registered_def)
    then have "i \<in> {0, 1, 2, 3}" by auto
    with v that show ?thesis by (auto simp: peer_registered_def core_registration_def)
  qed
qed

lemma led_payload_text:
  "length p = 2 \<and> take 2 p = str ''on'' \<longleftrightarrow> p = str ''on''"
  "length p = 3 \<and> take 3 p = str ''off'' \<longleftrightarrow> p = str ''off''"
  by (auto simp: str_def)

lemma handleLed_effect:
  assumes "pg_led (globals (snd (handleLed req res s))) \<noteq> pg_led (globals s)"
  shows "(req_payload req = Some (str ''on'') \<and> pg_led (globals (snd (handleLed req res s)))) \<or>
    (req_payload req = Some (str ''off'') \<and> \<not> pg_led (globals (snd (handleLed req res s))))"
  using assms
  by (auto simp: handleLed_def Let_def led_payload_text str_def serial_println_def serial_print_def
      split: option.splits if_splits)

lemma peer_env_led:
  assumes "pg_led (globals (snd (peer_env F h ctx req res s))) \<noteq> pg_led (globals s)"
  shows "h = 2 \<and> ((req_payload req = Some (str ''on'') \<and> pg_led (globals (snd (peer_env F h ctx req res s)))) \<or>
    (req_payload req = Some (str ''off'') \<and> \<not> pg_led (globals (snd (peer_env F h ctx req res s)))))"
  using assms handleLed_effect [of req res s]
  by (auto simp: peer_env_def handleTemp_def handleHumidity_def split: if_splits)

lemma peer_after_led: "pg_led (globals (peer_after cfg F now s)) = pg_led (globals s)"
proof -
  have "snd (app_view (peer_after cfg F now s)) = snd (app_view s) \<or>
      snd (app_view (peer_after cfg F now s)) = updateData F ((snd (app_view s))\<lparr>pg_lastNotify := now\<rparr>)"
    by (simp add: peer_after_def Let_def view_simps)
  then show ?thesis by (auto simp: app_view_def updateData_def Let_def)
qed

text \<open>
  C14: in a build with room for its resources, the LED of the peer-to-peer server sketch is switched by nothing but a PUT of "on" or "off"
  to /control/led: in every state of the sketch, a run of its loop that changes the LED has taken
  a datagram that decodes to a PUT for that path, the LED then is as its body says, and
  without block-wise transfer the body is the payload of that datagram.
\<close>

theorem led_only_by_put:
  assumes "valid_config cfg" "sketch_runs (peer_boot cfg F) (peer_loop cfg F) server_traffic s"
    and "peer_loop cfg F now s = Some s'" "pg_led (globals s') \<noteq> pg_led (globals s)"
    and room: "4 \<le> max_resources cfg"
  shows "\<exists>from data rest m p. tp_inbox (sv_transport s) = (from, data) # rest \<and>
    decode cfg (take (max_msg_size cfg) data) = Decoded m \<and> msg_code m = Code_Put \<and>
    joinUriPath m (max_uri_path_len cfg) = Some p \<and> cstr p = str ''/control/led'' \<and>
    ((enable_blockwise cfg \<and> findOption Opt_Block1 m \<noteq> None) \<or>
     msg_payload m = Some (if pg_led (globals s') then str ''on'' else str ''off''))"
proof -
  have s: "server_inv cfg s" "peer_good (app_view s)" using peer.runs_good [OF assms(1) room assms(2)] by simp_all
  obtain s1 where s1: "server_poll cfg (peer_env F) now s = Some s1" "s' = peer_after cfg F now s1"
    using assms(3) by (auto simp: peer_loop_def split: option.splits)
  have led: "pg_led (globals s1) \<noteq> pg_led (globals s)" "pg_led (globals s') = pg_led (globals s1)"
    using assms(4) by (simp_all add: s1(2) peer_after_led)
  then have ne: "app_view s1 \<noteq> app_view s" by (auto simp: app_view_def)
  obtain "from" data rest m p i ps methodBit where d: "tp_inbox (sv_transport s) = (from, data) # rest"
    "decode cfg (take (max_msg_size cfg) data) = Decoded m" "joinUriPath m (max_uri_path_len cfg) = Some p"
    "route cfg (sv_resources s) (cstr p) = Some (i, ps)" "i < length (sv_resources s)"
    "requested_mask (msg_code m) = Some methodBit" "rs_methods (sv_resources s ! i) AND methodBit \<noteq> 0"
    "ran (enable_blockwise cfg \<and> findOption Opt_Block1 m \<noteq> None) (peer_env F) from m i ps s s1"
    by (rule server_poll_effect [OF assms(1) s(1) s1(1) ne])
  obtain h dd body s2 where r: "body \<noteq> None \<longrightarrow> enable_blockwise cfg \<and> findOption Opt_Block1 m \<noteq> None"
    "rs_handler (sv_resources s ! i) = AppHandler h" "app_view s2 = app_view s"
    "app_view s1 = app_view (snd (peer_env F h (rs_userContext (sv_resources s ! i))
       (make_request m from dd body ps) default_response s2))"
    using d(8) unfolding ran_def by blast
  note regs = peer_regs [OF s(2)]
  have g: "globals s1 = globals (snd (peer_env F h (rs_userContext (sv_resources s ! i))
       (make_request m from dd body ps) default_response s2))" "globals s2 = globals s"
    using r(3,4) by (simp_all add: app_view_def)
  have put: "h = 2" "req_payload (make_request m from dd body ps) =
      Some (if pg_led (globals s1) then str ''on'' else str ''off'')"
    using peer_env_led [of F h "rs_userContext (sv_resources s ! i)" "make_request m from dd body ps"
        default_response s2] led(1) g by auto
  have len: "length (fst (app_view s)) = length (sv_resources s)" by (simp add: app_view_def)
  have i: "i = 2"
    using regs(5) [of i] d(5) len registered_nth(2) [OF refl, of i s] r(2) put(1)
    by (simp add: registration_def prod_eq_iff)
  have two: "registration (sv_resources s ! 2) = (str ''/control/led'', MethodPut, AppHandler 2, 0, False, False)"
    using registered_nth(2) [OF refl regs(2)] regs(3) by simp
  have "cstr p = str ''/control/led''"
    using d(4) route_registered [OF refl regs(1), of cfg "cstr p"] two registered_nth(2) [OF refl, of 2 s] regs(2,3)
    by (auto simp: i dest: first_slot_sat)
  moreover have "methodBit = MethodPut \<and> msg_code m = Code_Put"
    using d(6,7) two
    by (auto simp: i requested_mask_def registration_def MethodGet_def MethodPost_def MethodPut_def MethodDelete_def
        split: if_splits)
  moreover have "msg_payload m = Some (if pg_led (globals s1) then str ''on'' else str ''off'')" if "body = None"
    using put(2) that by (simp add: req_payload_def make_request_def)
  ultimately show ?thesis using d(1-3) r(1) led(2) by auto
qed

definition put_on :: bytes where
  "put_on = [0x40, 0x03, 0x12, 0x34, 0xB7] @ str ''control'' @ [0x03] @ str ''led'' @ [0x10, 0xFF] @ str ''on''"

definition peer_server :: "int peer_globals server_scheme" where
  "peer_server = peer_setup default_config (deploy (peer_init tenths []) (new_server default_config idle_network))"

definition peer_asked :: "int peer_globals server_scheme" where
  "peer_asked = peer_server\<lparr>sv_transport := (sv_transport peer_server)\<lparr>tp_inbox := [(client_a, put_on)], tp_send_results := []\<rparr>\<rparr>"

lemma peer_server_runs: "sketch_runs (peer_boot default_config tenths) (peer_loop default_config tenths) server_traffic peer_server"
  by (rule run_setup) (auto simp: peer_boot_def peer_server_def)

lemma peer_asked_runs: "sketch_runs (peer_boot default_config tenths) (peer_loop default_config tenths) server_traffic peer_asked"
  by (rule run_network [OF peer_server_runs]) (auto simp: server_traffic_def peer_asked_def)

theorem led_only_by_put_witness:
  "\<exists>m. decode default_config put_on = Decoded m \<and> msg_code m = Code_Put \<and> msg_payload m = Some (str ''on'')"
proof -
  let ?r = "peer_loop default_config tenths 5 peer_asked"
  have led: "pg_led (globals (the ?r))" "\<not> pg_led (globals peer_asked)" by code_simp+
  obtain s' where s': "?r = Some s'"
    using peer.sketch_safe [OF default_config_valid default_room(2) peer_asked_runs] by blast
  have sw: "\<not> enable_blockwise default_config" "take (max_msg_size default_config) put_on = put_on"
    by code_simp+
  have "pg_led (globals s') \<noteq> pg_led (globals peer_asked)" using led s' by simp
  from led_only_by_put [OF default_config_valid peer_asked_runs s' this default_room(2)] led s' sw show ?thesis
    by (auto simp: peer_asked_def)
qed

section \<open>From the client's loop to the LED and back\<close>

lemma led_path:
  "short_path (str ''/control/led'')" "0 \<notin> set (str ''/control/led'')"
  "canonical_path (str ''/control/led'') = str ''/control/led''" "length (str ''/control/led'') = 12"
proof -
  have "segments (str ''/control/led'') = [str ''control'', str ''led'']" by code_simp
  then show "short_path (str ''/control/led'')" by (simp add: short_path_def str_def)
qed code_simp+

lemma requested_put: "requested_mask Code_Put = Some MethodPut"
  by (simp add: requested_mask_def code_defs)

lemma led_text_facts: "led_text on \<noteq> []" "length (led_text on) \<le> 3"
  by (simp_all add: led_text_def str_def)

lemma handleLed_on:
  assumes "req_payload req = Some (led_text on)"
  shows "res_code (fst (handleLed req default_response s)) = Code_Changed"
    and "res_payload (fst (handleLed req default_response s)) = Some (str ''LED '' @ led_text on)"
    and "res_contentFormat (fst (handleLed req default_response s)) = CF_TextPlain"
    and "\<not> res_deferred (fst (handleLed req default_response s))"
    and "pg_led (globals (snd (handleLed req default_response s))) = on"
    and "sv_transport (snd (handleLed req default_response s)) = sv_transport s"
  using assms
  by (cases on; simp add: handleLed_def Let_def led_payload_text led_text_def default_response_def
      serial_println_def serial_print_def str_def)+

lemma peer_toggle_request:
  assumes "valid_config cfg" "on = (\<not> pc_ledOn (cl_globals c))"
  shows "peer_toggle cfg srv now c =
    sendRequest cfg srv (str ''/control/led'') Code_Put (Some (led_text on)) CF_TextPlain True False False
      (Some 2) (Some (led_ctx on)) False
      (upd_cl_globals (serial_print (str ''[led] sending PUT /control/led '' @ [0x27] @ led_text on @ [0x27] @ [10]) \<circ>
         pc_ledOn_update (\<lambda>_. on) \<circ> pc_lastToggle_update (\<lambda>_. now)) c)"
proof -
  have none: "findOption Opt_Block2 reset_message = None" by code_simp
  have "length (led_text on) \<le> 16" using led_text_facts(2) [of on] by simp
  then have "length (led_text on) \<le> unat (shift_size (block_szx cfg))"
    using small_fits_one_block(2) [OF assms(1), of reset_message] by (simp add: none)
  then show ?thesis by (simp add: peer_toggle_def Let_def client_put_def assms(2) linorder_not_less)
qed

text \<open>The server's part: the handler that the PUT reaches, and its reply.\<close>

lemma peer_serves_led:
  assumes "peer_good (app_view s)" "msg_payload m = Some (led_text on)" "reserve_deferred me m s = (d, s2)"
  obtains res s3 where
    "route cfg (sv_resources s) (str ''/control/led'') = Some (2, [])"
    "rs_methods (sv_resources s ! 2) AND MethodPut \<noteq> 0"
    "run_handler cfg (peer_env F) (sv_resources s2 ! 2) (make_request m me d None []) s2 = (res, s3)"
    "res_code res = Code_Changed" "res_payload res = Some (str ''LED '' @ led_text on)"
    "res_contentFormat res = CF_TextPlain" "\<not> res_deferred res"
    "pg_led (globals s3) = on" "sv_transport s3 = sv_transport s"
proof -
  note regs = peer_regs [OF assms(1)]
  have v2: "app_view s2 = app_view s" using assms(3) view_request(6) [of me m s] by simp
  have t2: "sv_transport s2 = sv_transport s"
    using assms(3) by (auto simp: reserve_deferred_def split: option.splits)
  have two: "registration (sv_resources s ! 2) = fst (app_view s) ! 2" "registration (sv_resources s2 ! 2) = fst (app_view s) ! 2"
    using registered_nth(2) [OF refl regs(2)] registered_nth(2) [OF v2 [THEN arg_cong, where f = fst] regs(2)] by simp_all
  have methods: "rs_methods (sv_resources s ! 2) AND MethodPut \<noteq> 0"
    using two(1) regs(3) by (simp add: registration_def MethodPut_def)
  have "req_payload (make_request m me d None []) = Some (led_text on)"
    by (simp add: req_payload_def make_request_def assms(2))
  note led = handleLed_on [OF this, of s2]
  have run: "run_handler cfg (peer_env F) (sv_resources s2 ! 2) (make_request m me d None []) s2 =
      handleLed (make_request m me d None []) default_response s2"
    using two(2) regs(3) by (simp add: run_handler_def registration_def peer_env_def)
  show thesis
    using that [OF _ methods _ led(1-3) _ led(5)] run led(4,6) t2 route_registered [OF refl regs(1)] regs(4) by simp
qed

text \<open>
  C13: the round trip of the peer-to-peer sketches, in a build with room for the server's resources. When the client's loop toggles and its PUT goes
  out in one datagram, that datagram, arriving at the server in any state of its sketch, sets the
  LED to what the client wants and is answered; and the answer, arriving at the client, makes it
  print that the PUT was accepted.
\<close>

theorem led_round_trip:
  assumes "valid_config cfg" "16 \<le> max_msg_size cfg" "13 \<le> max_uri_path_len cfg"
    and "sketch_runs (peer_boot cfg F) (peer_loop cfg F) server_traffic s"
    and "sketch_runs (peer_client_boot cfg srv) (peer_client_loop cfg srv) client_traffic c"
    and "on = (\<not> pc_ledOn (cl_globals c))" "peer_toggle cfg srv now c = (True, c1)"
    and "list_all (\<lambda>p. \<not> pending_matches [cl_nextTokenByte c] p) (cl_pending c)"
    and "list_all (\<lambda>d. \<not> discover_matches [cl_nextTokenByte c] d) (cl_discovers c)"
    and room: "4 \<le> max_resources cfg"
  shows "\<exists>d s' reply c2. tp_sent (cl_transport c1) = tp_sent (cl_transport c) @ [(srv, d)] \<and>
    handle_datagram cfg (peer_env F) me d s = Some s' \<and> pg_led (globals s') = on \<and>
    tp_sent (sv_transport s') = tp_sent (sv_transport s) @ [(me, reply)] \<and>
    client_poll cfg peer_callbacks now' (arriving srv reply c1) = Some c2 \<and>
    con_serial (cl_globals c2) = con_serial (cl_globals c) @
      str ''[led] sending PUT /control/led '' @ [0x27] @ led_text on @ [0x27] @ [10] @
      str ''[led] PUT '' @ [0x27] @ led_text on @ [0x27] @ str '' accepted'' @ [10]"
proof -
  let ?path = "str ''/control/led''"
  let ?sent = "str ''[led] sending PUT /control/led '' @ [0x27] @ led_text on @ [0x27] @ [10]"
  let ?accepted = "str ''[led] PUT '' @ [0x27] @ led_text on @ [0x27] @ str '' accepted'' @ [10]"
  let ?c = "upd_cl_globals (serial_print ?sent \<circ> pc_ledOn_update (\<lambda>_. on) \<circ> pc_lastToggle_update (\<lambda>_. now)) c"
  define m where "m = sent_request cfg ?path Code_Put (Some (led_text on)) CF_TextPlain True False False ?c"
  have s: "server_inv cfg s" "peer_good (app_view s)" using peer.runs_good [OF assms(1) room assms(4)] by simp_all
  have c: "client_inv cfg ?c" "cl_onTimeout ?c = None"
    using peer_client.runs_good [OF assms(1,5)] by (simp_all add: client_view_def)
  have call: "sendRequest cfg srv ?path Code_Put (Some (led_text on)) CF_TextPlain True False False
      (Some 2) (Some (led_ctx on)) False ?c = (True, c1)"
    using peer_toggle_request [OF assms(1,6)] assms(7) by simp
  have body: "msg_payload m = Some (led_text on)"
    using led_text_facts(1) by (simp add: m_def sent_request_def request_of_def request_payload_def)
  obtain d s2 where d: "reserve_deferred me m s = (d, s2)" by fastforce
  obtain res s3 where run: "route cfg (sv_resources s) ?path = Some (2, [])"
    "rs_methods (sv_resources s ! 2) AND MethodPut \<noteq> 0"
    "run_handler cfg (peer_env F) (sv_resources s2 ! 2) (make_request m me d None []) s2 = (res, s3)"
    "res_code res = Code_Changed" "res_payload res = Some (str ''LED '' @ led_text on)"
    "res_contentFormat res = CF_TextPlain" "\<not> res_deferred res"
    "pg_led (globals s3) = on" "sv_transport s3 = sv_transport s"
    by (rule peer_serves_led [OF s(2) body d])
  have small: "str ''LED '' @ led_text on \<noteq> []" "7 + length (str ''LED '' @ led_text on) \<le> max_msg_size cfg"
    "length (str ''LED '' @ led_text on) \<le> 16"
    using led_text_facts(2) [of on] assms(2) by (simp_all add: str_def)
  have none: "findOption Opt_Block2 reset_message = None" by code_simp
  note block = small_fits_one_block(2) [OF assms(1) none small(3)]
  have changed: "res_code res \<noteq> Code_Empty" "\<not> isMethodCode (res_code res)" unfolding run(4) by code_simp+
  have free: "list_all (\<lambda>p. \<not> pending_matches [cl_nextTokenByte ?c] p) (cl_pending ?c)"
    "list_all (\<lambda>d. \<not> discover_matches [cl_nextTokenByte ?c] d) (cl_discovers ?c)"
    using assms(8,9) by simp_all
  have len: "length ?path < max_uri_path_len cfg" using assms(3) led_path(4) by simp
  have cb: "ce_response peer_callbacks 2 \<lparr>cr_code = res_code res, cr_payload = Some (str ''LED '' @ led_text on),
      cr_contentFormat = CF_TextPlain\<rparr> (Some (led_ctx on)) c' = upd_cl_globals (serial_print ?accepted) c'" for c'
    by (simp add: run(4) peer_callbacks_def onLedResponse_def Let_def led_ctx_def)
  from request_round_trip [OF assms(1) c s(1) led_path(1-3) len call m_def free run(1) requested_put run(2) d run(3)
      run(7,5,6) small(1,2) impI [OF block] changed cb, of now']
  show ?thesis using run(8,9) by auto
qed

definition peer_watching :: "peer_client client_scheme" where
  "peer_watching = peer_client_setup default_config some_server
     (install \<lparr>con_serial = [], pc_lastToggle = 0, pc_ledOn = False\<rparr>
       (new_client default_config quiet_network (reset_pool default_config)))"

theorem led_round_trip_witness:
  "\<exists>d s' reply c2. handle_datagram default_config (peer_env tenths) client_a d peer_server = Some s' \<and>
    pg_led (globals s') \<and>
    client_poll default_config peer_callbacks 10020
      (arriving some_server reply (snd (peer_toggle default_config some_server 10000 peer_watching))) = Some c2 \<and>
    con_serial (cl_globals c2) = str ''[led] sending PUT /control/led '' @ [0x27] @ str ''on'' @ [0x27] @ [10] @
      str ''[led] PUT '' @ [0x27] @ str ''on'' @ [0x27] @ str '' accepted'' @ [10]"
proof -
  let ?t = "peer_toggle default_config some_server 10000 peer_watching"
  have run: "sketch_runs (peer_client_boot default_config some_server) (peer_client_loop default_config some_server)
      client_traffic peer_watching"
    by (rule run_setup) (auto simp: peer_client_boot_def peer_watching_def)
  have cfg: "16 \<le> max_msg_size default_config" "13 \<le> max_uri_path_len default_config"
    by (simp_all add: default_config_def)
  have t: "fst ?t" "cl_nextTokenByte peer_watching = 3"
    "list_all (\<lambda>p. \<not> pending_matches [cl_nextTokenByte peer_watching] p) (cl_pending peer_watching)"
    "list_all (\<lambda>d. \<not> discover_matches [cl_nextTokenByte peer_watching] d) (cl_discovers peer_watching)"
    "con_serial (cl_globals peer_watching) = []" "\<not> pc_ledOn (cl_globals peer_watching)" by code_simp+
  have call: "?t = (True, snd ?t)" using t(1) by (simp add: prod_eq_iff)
  have on: "True = (\<not> pc_ledOn (cl_globals peer_watching))" using t(6) by simp
  from led_round_trip [OF default_config_valid cfg peer_server_runs run on call t(3,4) default_room(2), of client_a 10020]
  show ?thesis unfolding t(5) by (auto simp: led_text_def)
qed

end
