(* ===== verification/App_Deferred.thy ===== *)
theory App_Deferred
  imports App_Common
begin

text \<open>
  The sketch of \<^verbatim>\<open>examples/DeferredResponse\<close>: one slow sensor whose handler defers, and a loop
  that answers two seconds later. The clock is read three times in a run of the loop: before the
  poll, in the handler, and by the sensor. The three readings are the input of the loop.
\<close>

record slow_globals = console +
  pw_active :: bool
  pw_handle :: u8
  pw_startedMs :: u32

definition slow_init :: "bytes \<Rightarrow> slow_globals" where
  "slow_init banner = \<lparr>con_serial = banner, pw_active = False, pw_handle = kInvalidDeferHandle, pw_startedMs = 0\<rparr>"

definition kWorkDurationMs :: u32 where
  "kWorkDurationMs = 2000"

text \<open>The dash the sketch prints, in UTF-8.\<close>

definition dash :: bytes where
  "dash = [0xE2, 0x80, 0x94]"

definition readSlowSensor :: "'f float_ops \<Rightarrow> u32 \<Rightarrow> 'f" where
  "readSlowSensor F ms =
     fl_add F (fl_lit F 225 1) (fl_div F (fl_lit F (uint (ms mod 500)) 0) (fl_lit F 100 0))"

definition handleSlowSensor :: "u32 \<Rightarrow> request \<Rightarrow> response \<Rightarrow> slow_globals server_scheme \<Rightarrow>
    response \<times> slow_globals server_scheme" where
  "handleSlowSensor ms req res s =
     (if pw_active (globals s) then
        (res\<lparr>res_code := Code_ServiceUnavailable\<rparr>,
         upd_globals (serial_println (str ''[handler] Busy '' @ dash @ str '' rejecting second request'')) s)
      else
        (res\<lparr>res_deferred := True\<rparr>,
         upd_globals (\<lambda>g. serial_print (str ''[handler] Deferred '' @ dash @
             str '' ACK sent, starting slow work (handle='' @ decimal (uint (req_deferHandle req)) @ str '')'' @ [10])
           (g\<lparr>pw_active := True, pw_handle := req_deferHandle req, pw_startedMs := ms\<rparr>)) s))"

definition slow_env :: "u32 \<Rightarrow> slow_globals handler_env" where
  "slow_env ms h ctx req res s = (if h = 0 then handleSlowSensor ms req res s else (res, s))"

definition slow_setup :: "config \<Rightarrow> 'w server_scheme \<Rightarrow> 'w server_scheme" where
  "slow_setup cfg s =
     (let s1 = snd (addResource cfg (Some (str ''/sensors/slow'')) MethodGet (Some (AppHandler 0)) 0 False s)
      in snd (server_begin cfg 5683 s1))"

definition slow_after :: "config \<Rightarrow> 'f float_ops \<Rightarrow> u32 \<Rightarrow> u32 \<Rightarrow> slow_globals server_scheme \<Rightarrow> slow_globals server_scheme" where
  "slow_after cfg F now ms s =
     (if pw_active (globals s) \<and> kWorkDurationMs \<le> now - pw_startedMs (globals s) then
        let buf = snprintf 16 (fl_show F 2 (readSlowSensor F ms));
            s1 = upd_globals (serial_print (str ''[loop] Work done '' @ dash @
                   str '' sending deferred response: '' @ buf @ [10])) s;
            s2 = snd (respond cfg (pw_handle (globals s1)) Code_Content (Some buf) CF_TextPlain s1)
        in upd_globals (\<lambda>g. g\<lparr>pw_active := False, pw_handle := kInvalidDeferHandle\<rparr>) s2
      else s)"

text \<open>The readings of \<^verbatim>\<open>millis()\<close>: in \<^verbatim>\<open>loop\<close>, in the handler, in the sensor.\<close>

definition slow_loop :: "config \<Rightarrow> 'f float_ops \<Rightarrow> u32 \<times> u32 \<times> u32 \<Rightarrow> slow_globals server_scheme \<Rightarrow>
    slow_globals server_scheme option" where
  "slow_loop cfg F = (\<lambda>(now, handlerMs, sensorMs) s.
     (case server_poll cfg (slow_env handlerMs) now s of
        None \<Rightarrow> None
      | Some s1 \<Rightarrow> Some (slow_after cfg F now sensorMs s1)))"

definition slow_boot :: "config \<Rightarrow> slow_globals server_scheme \<Rightarrow> bool" where
  "slow_boot cfg s \<longleftrightarrow>
     (\<exists>t banner. s = slow_setup cfg (deploy (slow_init banner) (new_server cfg t)))"

definition slow_registered :: "(bytes \<times> u8 \<times> resource_handler \<times> nat \<times> bool \<times> bool) list" where
  "slow_registered = [(str ''/sensors/slow'', MethodGet, AppHandler 0, 0, False, False)]"

definition slow_good :: "(bytes \<times> u8 \<times> resource_handler \<times> nat \<times> bool \<times> bool) list \<times> slow_globals \<Rightarrow> bool" where
  "slow_good v \<longleftrightarrow> fst v \<in> {slow_registered, slow_registered @ [core_registration]}"

lemma slow_path: "wf_path cfg (str ''/sensors/slow'')" "\<not> has_param (str ''/sensors/slow'')"
  by (simp_all add: wf_path_def str_def colon_def slash_def)

lemma slow_setup_view:
  assumes "2 \<le> max_resources cfg" "fst (app_view s) = []"
  shows "fst (app_view (slow_setup cfg s)) \<in> {slow_registered, slow_registered @ [core_registration]}"
  using assms by (simp add: slow_setup_def Let_def view_begin view_add slow_path slow_registered_def)

lemma slow_handlers_ok: "handlers_ok cfg (slow_env ms)"
  by (auto simp: handlers_ok_def slow_env_def handleSlowSensor_def intro: api_globals)

lemma slow_after_reach: "api_reach cfg s (slow_after cfg F now ms s)"
  by (simp add: slow_after_def Let_def reach_then)

interpretation slow: server_sketch cfg "\<lambda>(now, handlerMs, sensorMs). slow_env handlerMs" "\<lambda>(now, handlerMs, sensorMs). now"
    "\<lambda>(now, handlerMs, sensorMs). slow_after cfg F now sensorMs" "slow_loop cfg F" "2 \<le> max_resources cfg"
    "slow_boot cfg" slow_good for cfg F
proof (unfold_locales, goal_cases)
  case (1 i s)
  then show ?case by (simp add: slow_loop_def split_def option.case_eq_if map_option_case)
next
  case (2 i)
  then show ?case by (simp add: split_def slow_handlers_ok)
next
  case (3 s i)
  then show ?case by (simp add: split_def slow_after_reach)
next
  case (4 s)
  then show ?case
    by (auto simp: slow_boot_def slow_setup_def Let_def addResource_inv slow_path new_server_inv intro!: server_begin_inv)
next
  case (5 s)
  then show ?case
    using slow_setup_view [of cfg "deploy (slow_init _) (new_server cfg _)"]
    by (auto simp: slow_boot_def slow_good_def view_simps)
next
  case (6 s i h u req res)
  then show ?case by (simp add: split_def slow_env_def handleSlowSensor_def view_simps slow_good_def)
next
  case (7 s i)
  then show ?case by (simp add: split_def slow_after_def Let_def view_simps slow_good_def)
qed

end
