(* ===== verification/App_Deferred_Props.thy ===== *)
theory App_Deferred_Props
  imports App_Deferred Props_Server
begin

section \<open>One deferred request at a time\<close>

definition deferring :: "'w server_scheme \<Rightarrow> bool list" where
  "deferring s = map df_active (sv_deferred s)"

definition slow_slots :: "slow_globals server_scheme \<Rightarrow> bool" where
  "slow_slots s \<longleftrightarrow>
     (if pw_active (globals s)
      then unat (pw_handle (globals s)) < length (deferring s) \<and>
        deferring s = (replicate (length (deferring s)) False)[unat (pw_handle (globals s)) := True]
      else deferring s = replicate (length (deferring s)) False)"

lemma slow_print [simp]:
  "pw_active (serial_print t g) = pw_active g" "pw_handle (serial_print t g) = pw_handle g"
  "pw_active (serial_println t g) = pw_active g" "pw_handle (serial_println t g) = pw_handle g"
  by (simp_all add: serial_println_def serial_print_def)

lemma slow_slots_cong:
  assumes "deferring s' = deferring s" "pw_active (globals s') = pw_active (globals s)"
    and "pw_handle (globals s') = pw_handle (globals s)"
  shows "slow_slots s' = slow_slots s"
  by (simp add: slow_slots_def assms)

lemma deferring_frame:
  "deferring (send_error cfg m to code s) = deferring s"
  "deferring (reply_plain cfg m to obs res s) = deferring s"
  "deferring (finish_deferred cfg m to s) = deferring s"
  "deferring (upd_globals f s) = deferring s"
  "deferring (s\<lparr>sv_transport := t\<rparr>) = deferring s"
  "deferring (snd (handle_observe i m to s)) = deferring s"
  "deferring (snd (wellKnownCoreHandler cfg res s)) = deferring s"
  by (simp_all add: deferring_def frame_simps handle_observe_def wellKnownCoreHandler_def buildLinkFormat_def Let_def
      split: option.split)

lemma deferring_reserve:
  assumes "reserve_deferred from m s = (d, s1)"
  shows "deferring s1 = (case d of None \<Rightarrow> deferring s | Some k \<Rightarrow> (deferring s)[k := True])"
    and "d = Some k \<Longrightarrow> k < length (deferring s) \<and> \<not> deferring s ! k"
    and "d = None \<Longrightarrow> \<forall>j < length (deferring s). deferring s ! j"
    and "d = Some k \<Longrightarrow> j < k \<Longrightarrow> deferring s ! j"
  using assms
  by (auto simp: reserve_deferred_def allocateDeferred_def deferring_def map_update fill_deferred_def first_slot_None_iff
      split: option.splits dest: first_slot_SomeD)

lemma deferring_unreserve:
  assumes "reserve_deferred from m s = (d, s1)" "deferring s2 = deferring s1"
  shows "deferring (unreserve_deferred d s2) = deferring s"
proof (cases d)
  case None
  then show ?thesis using deferring_reserve(1) [OF assms(1)] assms(2) by (simp add: unreserve_deferred_def)
next
  case (Some k)
  have "deferring (unreserve_deferred d s2) = (deferring s)[k := False]"
    using deferring_reserve(1) [OF assms(1)] assms(2)
    by (simp add: unreserve_deferred_def Some) (simp add: deferring_def map_update release_deferred_def)
  also have "\<dots> = deferring s" using deferring_reserve(2) [OF assms(1) Some] by (metis list_update_id)
  finally show ?thesis .
qed

lemma deferring_handler: "deferring (snd (handleSlowSensor ms req res s)) = deferring s"
  by (simp add: handleSlowSensor_def deferring_frame)

lemma slow_handler:
  assumes "slow_good (app_view s)" "i < length (sv_resources s)"
  shows "rs_handler (sv_resources s ! i) = AppHandler 0 \<or> rs_handler (sv_resources s ! i) = WellKnownCore"
    and "rs_methods (sv_resources s ! i) = MethodGet"
proof -
  have len: "length (fst (app_view s)) = length (sv_resources s)" by (simp add: app_view_def)
  have "registration (sv_resources s ! i) = fst (app_view s) ! i" using registered_nth(2) [OF refl] assms(2) len by metis
  moreover have "i = 0 \<or> i = 1" "i < length (fst (app_view s))"
    using assms len by (auto simp: slow_good_def slow_registered_def)
  ultimately show "rs_handler (sv_resources s ! i) = AppHandler 0 \<or> rs_handler (sv_resources s ! i) = WellKnownCore"
    "rs_methods (sv_resources s ! i) = MethodGet"
    using assms(1) by (auto simp: slow_good_def slow_registered_def core_registration_def registration_def)
qed

lemma handle_plain_slots:
  assumes "slow_slots s" "slow_good (app_view s)" "i < length (sv_resources s)" "0 < length (deferring s)"
  shows "slow_slots (handle_plain cfg (slow_env ms) i ps m from obs s) \<and>
    length (deferring (handle_plain cfg (slow_env ms) i ps m from obs s)) = length (deferring s)"
proof -
  obtain d s1 where d: "reserve_deferred from m s = (d, s1)" by fastforce
  have v1: "app_view s1 = app_view s" using d view_request(6) [of "from" m s] by simp
  note g1 = view_resources(3) [OF v1]
  let ?req = "make_request m from d None ps"
  obtain res s2 where run: "run_handler cfg (slow_env ms) (sv_resources s1 ! i) ?req s1 = (res, s2)" by fastforce
  have plain: "handle_plain cfg (slow_env ms) i ps m from obs s =
      (if res_deferred res \<and> d \<noteq> None then finish_deferred cfg m from s2
       else reply_plain cfg m from obs res (unreserve_deferred d s2))"
    by (simp add: handle_plain_def d run Let_def)
  have h: "rs_handler (sv_resources s1 ! i) = AppHandler 0 \<or> rs_handler (sv_resources s1 ! i) = WellKnownCore"
    by (rule slow_handler) (use assms(2,3) v1 view_resources(1) [OF v1] in simp_all)
  show ?thesis
  proof (cases "rs_handler (sv_resources s1 ! i) = AppHandler 0 \<and> \<not> pw_active (globals s)")
    case True
    then have none: "deferring s = replicate (length (deferring s)) False" using assms(1) by (simp add: slow_slots_def)
    then have d0: "d = Some 0"
      using deferring_reserve(2-4) [OF d] assms(4) by (cases d) (metis nth_replicate, metis nth_replicate gr0I)
    have s2: "(res, s2) = handleSlowSensor ms ?req default_response s1"
      using run True by (simp add: run_handler_def slow_env_def)
    then have "res_deferred res" "deferring s2 = deferring s1"
      "pw_active (globals s2)" "pw_handle (globals s2) = 0"
      using True deferring_handler [of ms ?req default_response s1] g1 d0
      by (simp_all add: handleSlowSensor_def make_request_def defer_handle_def serial_print_def)
    moreover have "deferring s1 = (replicate (length (deferring s)) False)[0 := True]"
      using deferring_reserve(1) [OF d] none by (simp add: d0)
    ultimately have "slow_slots s2" "length (deferring s2) = length (deferring s)"
      using assms(4) by (simp_all add: slow_slots_def)
    moreover have "globals (finish_deferred cfg m from s2) = globals s2"
      using view_resources(3) [OF view_request(3) [of cfg m "from" s2]] .
    ultimately show ?thesis
      using \<open>res_deferred res\<close> slow_slots_cong [of "finish_deferred cfg m from s2" s2]
      by (simp add: plain d0 deferring_frame)
  next
    case False
    have keep: "\<not> res_deferred res" "deferring s2 = deferring s1"
      "pw_active (globals s2) = pw_active (globals s)" "pw_handle (globals s2) = pw_handle (globals s)"
      using run False h g1 deferring_handler [of ms ?req default_response s1]
        deferring_frame(7) [of cfg default_response s1] view_discovery [of cfg default_response s1]
      by (auto simp: run_handler_def slow_env_def handleSlowSensor_def wellKnownCoreHandler_def default_response_def app_view_def deferring_frame
          serial_println_def serial_print_def Let_def)
    have "deferring (unreserve_deferred d s2) = deferring s" by (rule deferring_unreserve [OF d keep(2)])
    moreover have "app_view (reply_plain cfg m from obs res (unreserve_deferred d s2)) = app_view s2"
      by (simp add: view_simps)
    ultimately show ?thesis
      using keep assms(1) slow_slots_cong [of "reply_plain cfg m from obs res (unreserve_deferred d s2)" s]
        view_resources(3) [of "reply_plain cfg m from obs res (unreserve_deferred d s2)" s2]
      by (simp add: plain deferring_frame)
  qed
qed

lemma slow_datagram_slots:
  assumes "valid_config cfg" "server_inv cfg s" "slow_slots s" "slow_good (app_view s)" "0 < max_deferred cfg"
    and "handle_datagram cfg (slow_env ms) from data s = Some s'"
  shows "slow_slots s' \<and> length (deferring s') = length (deferring s)"
proof -
  have len: "0 < length (deferring s)" using assms(2,5) by (simp add: server_inv_def deferring_def)
  have same: "slow_slots s0 \<and> length (deferring s0) = length (deferring s)"
    if "deferring s0 = deferring s" "app_view s0 = app_view s" for s0
    using that assms(3) slow_slots_cong [of s0 s] view_resources(3) [OF that(2)] by simp
  have plain: "slow_slots (handle_plain cfg (slow_env ms) i ps m from obs (snd (handle_observe i m from s))) \<and>
      length (deferring (handle_plain cfg (slow_env ms) i ps m from obs (snd (handle_observe i m from s)))) = length (deferring s)"
    if "i < length (sv_resources s)" for i ps m obs
  proof -
    have o': "app_view (snd (handle_observe i m from s)) = app_view s"
      "deferring (snd (handle_observe i m from s)) = deferring s"
      by (simp_all add: view_simps deferring_frame)
    from handle_plain_slots [of "snd (handle_observe i m from s)" i cfg ms ps m "from" obs] same [OF o'(2,1)]
    show ?thesis using o' assms(4) that len view_resources(1) [OF o'(1)] by simp
  qed
  have "slow_slots s'' \<and> length (deferring s'') = length (deferring s)"
    if h: "handleRequest cfg (slow_env ms) m from s = Some s''" for m s''
  proof (rule handleRequest_get_only [OF assms(1,2) h slow_handler(2) [OF assms(4)]])
    show ?thesis if "s'' = send_error cfg m from code s" for code
      using same [of s''] that by (simp add: view_simps deferring_frame)
    show ?thesis if "i < length (sv_resources s)"
      "s'' = handle_plain cfg (slow_env ms) i ps m from obs (snd (handle_observe i m from s))" for i ps obs
      using plain that by simp
  qed
  then show ?thesis
    using assms(6) same [OF refl refl] same
    by (auto simp: handle_datagram_def view_simps deferring_def split: if_splits decode_result.splits)
qed

lemma deferring_respond:
  assumes "server_inv cfg s" "unat hdl < length (deferring s)" "deferring s ! unat hdl"
  shows "deferring (snd (respond cfg hdl code p fmt s)) = (deferring s)[unat hdl := False]"
  using assms
  by (simp add: respond_def Let_def server_inv_def deferring_def frame_simps map_update release_deferred_def)

lemma replicate_update: "(replicate n x)[k := x] = replicate n x"
  by (metis list_update_beyond list_update_id length_replicate linorder_not_less nth_replicate)

lemma slow_after_slots:
  assumes "server_inv cfg s" "slow_slots s"
  shows "slow_slots (slow_after cfg F now ms s)"
proof (cases "pw_active (globals s) \<and> kWorkDurationMs \<le> now - pw_startedMs (globals s)")
  case True
  define s1 where "s1 = upd_globals (serial_print (str ''[loop] Work done '' @ dash @
    str '' sending deferred response: '' @ snprintf 16 (fl_show F 2 (readSlowSensor F ms)) @ [10])) s"
  have s1: "server_inv cfg s1" "deferring s1 = deferring s" "pw_handle (globals s1) = pw_handle (globals s)"
    using assms(1) by (simp_all add: s1_def deferring_frame server_inv_def serial_print_def)
  have slots: "unat (pw_handle (globals s)) < length (deferring s)"
    "deferring s = (replicate (length (deferring s)) False)[unat (pw_handle (globals s)) := True]"
    using assms(2) True by (simp_all add: slow_slots_def)
  then have "deferring s ! unat (pw_handle (globals s))" by (metis nth_list_update_eq length_replicate)
  with deferring_respond [OF s1(1), of "pw_handle (globals s1)"] s1 slots(1)
  have "deferring (snd (respond cfg (pw_handle (globals s)) code p fmt s1)) =
      (deferring s)[unat (pw_handle (globals s)) := False]" for code p fmt
    by simp
  also have "(deferring s)[unat (pw_handle (globals s)) := False] = replicate (length (deferring s)) False"
    by (subst slots(2)) (simp add: replicate_update)
  finally show ?thesis
    using True by (simp add: slow_after_def Let_def s1_def [symmetric]) (simp add: slow_slots_def deferring_frame)
next
  case False
  then show ?thesis using assms(2) by (auto simp: slow_after_def)
qed

lemma slow_poll_slots:
  assumes "valid_config cfg" "server_inv cfg s" "slow_slots s" "slow_good (app_view s)" "0 < max_deferred cfg"
    and "server_poll cfg (slow_env ms) now s = Some s'"
  shows "slow_slots s'"
proof -
  obtain s0 where s0: "app_view s0 = app_view s" "server_inv cfg s0" "sv_deferred s0 = sv_deferred s"
    "tp_inbox (sv_transport s) = [] \<Longrightarrow> s' = s0"
    "\<And>from data rest. tp_inbox (sv_transport s) = (from, data) # rest \<Longrightarrow>
       handle_datagram cfg (slow_env ms) from (take (max_msg_size cfg) data) s0 = Some s'"
    by (rule server_poll_datagram [OF assms(1,2,6)]) blast
  have "slow_slots s0"
    using slow_slots_cong [of s0 s] assms(3) s0(3) view_resources(3) [OF s0(1)] by (simp add: deferring_def)
  with s0 slow_datagram_slots [OF assms(1) s0(2) this _ assms(5)] assms(4) show ?thesis
    by (cases "tp_inbox (sv_transport s)") auto
qed

lemma slow_runs_slots:
  assumes "valid_config cfg" "0 < max_deferred cfg"
    and "sketch_runs (slow_boot cfg) (slow_loop cfg F) server_traffic s" and room: "2 \<le> max_resources cfg"
  shows "slow_slots s"
  using assms(3)
proof induction
  case (run_setup s)
  have "deferring (slow_setup cfg s0) = deferring s0 \<and> globals (slow_setup cfg s0) = globals s0"
    for s0 :: "slow_globals server_scheme"
    by (simp add: slow_setup_def Let_def deferring_def server_begin_def addResource_def)
  with run_setup show ?case
    by (auto simp: slow_boot_def slow_slots_def slow_init_def)
      (simp_all add: deferring_def new_server_def empty_deferred_def)
next
  case (run_loop s i s')
  have s: "server_inv cfg s" "slow_good (app_view s)" using slow.runs_good [OF assms(1) room run_loop.hyps(1)] by simp_all
  obtain now ms sms where i: "i = (now, ms, sms)" by (cases i)
  with run_loop.hyps(2) obtain s1 where s1: "server_poll cfg (slow_env ms) now s = Some s1"
    "s' = slow_after cfg F now sms s1"
    by (auto simp: slow_loop_def split: option.splits)
  have "server_inv cfg s1" using server_poll_keeps [OF slow_handlers_ok [of cfg ms] assms(1) s(1), of now] s1(1) by auto
  with slow_after_slots slow_poll_slots [OF assms(1) s(1) run_loop.IH s(2) assms(2) s1(1)] show ?case
    by (simp add: s1(2))
next
  case (run_network s s')
  then show ?case by (auto simp: server_traffic_def slow_slots_def deferring_def)
qed

text \<open>
  C15: in a build with room for its resource, the sketch with the slow sensor never has more than one request deferred, whatever arrives:
  while its work is pending exactly the deferred slot it will answer is in use, and none is
  otherwise. So no request is lost in the table, and every run of the loop returns.
\<close>

theorem slow_one_slot:
  assumes "valid_config cfg" "0 < max_deferred cfg"
    and "sketch_runs (slow_boot cfg) (slow_loop cfg F) server_traffic s" and room: "2 \<le> max_resources cfg"
  shows "slow_slots s \<and> (\<exists>s'. slow_loop cfg F i s = Some s' \<and> server_inv cfg s')"
  using slow_runs_slots [OF assms] slow.sketch_safe [OF assms(1) room assms(3), of i] by blast

definition get_slow :: bytes where
  "get_slow = [0x41, 0x01, 0x12, 0x34, 0xAA, 0xB7] @ str ''sensors'' @ [0x04] @ str ''slow''"

definition slow_server :: "slow_globals server_scheme" where
  "slow_server = slow_setup default_config (deploy (slow_init []) (new_server default_config idle_network))"

definition slow_asked :: "slow_globals server_scheme" where
  "slow_asked = slow_server\<lparr>sv_transport := (sv_transport slow_server)\<lparr>tp_inbox := [(client_a, get_slow)],
     tp_send_results := []\<rparr>\<rparr>"

lemma slow_asked_runs: "sketch_runs (slow_boot default_config) (slow_loop default_config F) server_traffic slow_asked"
proof (rule run_network [OF run_setup])
  show "slow_boot default_config slow_server" by (auto simp: slow_boot_def slow_server_def)
  show "server_traffic slow_server slow_asked" by (auto simp: server_traffic_def slow_asked_def)
qed

lemma slow_asked_idle: "\<not> pw_active (globals slow_asked)" "0 < max_deferred default_config"
  by code_simp (simp add: default_config_def)

theorem slow_one_slot_witness:
  "slow_slots (the (slow_loop default_config tenths (0, 0, 0) slow_asked)) \<and>
   pw_active (globals (the (slow_loop default_config tenths (0, 0, 0) slow_asked)))"
proof -
  obtain s' where s': "slow_loop default_config tenths (0, 0, 0) slow_asked = Some s'"
    using slow.loop_returns [OF default_config_valid] slow.runs_good [OF default_config_valid default_room(1) slow_asked_runs] by blast
  have "pw_active (globals (the (slow_loop default_config tenths (0, 0, 0) slow_asked)))" by code_simp
  with slow_one_slot [OF default_config_valid slow_asked_idle(2) run_loop [OF slow_asked_runs s'] default_room(1)] s'
  show ?thesis by simp
qed

section \<open>The work that is not done\<close>

lemma slow_env_started:
  assumes "pw_active (globals (snd (slow_env ms h ctx req res s)))" "\<not> pw_active (globals s)"
  shows "pw_startedMs (globals (snd (slow_env ms h ctx req res s))) = ms"
  using assms by (auto simp: slow_env_def handleSlowSensor_def serial_print_def split: if_splits)

lemma wraps_below:
  assumes "0 < k" "k \<le> 1000"
  shows "2000 \<le> now - (now + k :: u32)"
proof -
  have k: "0 < uint k" "uint k \<le> 1000"
    using assms by (simp_all add: word_less_def word_le_def)
  have "uint (- k) = - uint k mod 2 ^ 32" by (simp add: uint_word_ariths)
  also have "\<dots> = 2 ^ 32 - uint k"
    using k by (simp add: zmod_zminus1_eq_if)
  finally show ?thesis using k(2) by (simp add: word_le_def)
qed

text \<open>
  C19: the sketch's two seconds can be skipped, in a build with room for its resource. The loop reads the clock before it polls and the
  handler reads it again: when the clock has advanced in between, the age of the work that the
  same run of the loop computes is negative, which is a huge unsigned number, so the request
  is answered at once.
\<close>

theorem slow_work_skipped:
  assumes "valid_config cfg" "0 < max_deferred cfg"
    and "sketch_runs (slow_boot cfg) (slow_loop cfg F) server_traffic s" "\<not> pw_active (globals s)"
    and "server_poll cfg (slow_env (now + k)) now s = Some s1" "pw_active (globals s1)" "0 < k" "k \<le> 1000"
    and room: "2 \<le> max_resources cfg"
  shows "\<exists>s'. slow_loop cfg F (now, now + k, sensorMs) s = Some s' \<and> \<not> pw_active (globals s') \<and>
    deferring s1 \<noteq> replicate (max_deferred cfg) False \<and> deferring s' = replicate (max_deferred cfg) False \<and>
    con_serial (globals s') = con_serial (globals s1) @ str ''[loop] Work done '' @ dash @
      str '' sending deferred response: '' @ snprintf 16 (fl_show F 2 (readSlowSensor F sensorMs)) @ [10]"
proof -
  have s: "server_inv cfg s" "slow_good (app_view s)" using slow.runs_good [OF assms(1) room assms(3)] by simp_all
  have s1: "slow_slots s1"
    by (rule slow_poll_slots [OF assms(1) s(1) slow_runs_slots [OF assms(1-3) room] s(2) assms(2,5)])
  have inv1: "server_inv cfg s1"
    using server_poll_keeps [OF slow_handlers_ok [of cfg "now + k"] assms(1) s(1), of now] assms(5) by auto
  have len: "length (deferring s1) = max_deferred cfg" using inv1 by (simp add: server_inv_def deferring_def)
  have "app_view s1 \<noteq> app_view s" using assms(4,6) by (auto simp: app_view_def)
  obtain upload "from" m i ps where "ran upload (slow_env (now + k)) from m i ps s s1"
    by (rule server_poll_effect [OF assms(1) s(1) assms(5) \<open>app_view s1 \<noteq> app_view s\<close>])
  then obtain h u req s2 where r: "app_view s2 = app_view s"
    "app_view s1 = app_view (snd (slow_env (now + k) h u req default_response s2))"
    unfolding ran_def by blast
  have "pw_startedMs (globals s1) = now + k"
    using slow_env_started [of "now + k" h u req default_response s2] assms(4,6) view_resources(3) [OF r(1)]
      view_resources(3) [OF r(2)] by simp
  then have due: "kWorkDurationMs \<le> now - pw_startedMs (globals s1)"
    using wraps_below [OF assms(7,8)] by (simp add: kWorkDurationMs_def)
  have resp: "globals (snd (respond cfg hdl code p fmt s0)) = globals s0"
    for hdl code p fmt and s0 :: "slow_globals server_scheme"
    by (rule view_resources(3)) (rule view_calls(3))
  define s' where "s' = slow_after cfg F now sensorMs s1"
  have idle: "\<not> pw_active (globals s')" and out: "con_serial (globals s') = con_serial (globals s1) @
      str ''[loop] Work done '' @ dash @ str '' sending deferred response: '' @
      snprintf 16 (fl_show F 2 (readSlowSensor F sensorMs)) @ [10]"
    using assms(6) due resp by (simp_all add: s'_def slow_after_def Let_def)
  have "slow_slots s'" unfolding s'_def by (rule slow_after_slots [OF inv1 s1])
  moreover have "server_inv cfg s'" using api_reach_inv [OF slow_after_reach [of cfg s1 F now sensorMs] inv1] by (simp add: s'_def)
  ultimately have "deferring s' = replicate (max_deferred cfg) False"
    using idle by (simp add: slow_slots_def server_inv_def) (simp add: deferring_def)
  moreover have "deferring s1 ! unat (pw_handle (globals s1))" "unat (pw_handle (globals s1)) < max_deferred cfg"
    using s1 assms(6) len by (auto simp: slow_slots_def)
  then have "deferring s1 \<noteq> replicate (max_deferred cfg) False" by (metis nth_replicate)
  ultimately show ?thesis
    using assms(5) idle out by (simp add: slow_loop_def s'_def)
qed

theorem slow_work_skipped_witness:
  "\<exists>s'. slow_loop default_config tenths (5000, 5001, 0) slow_asked = Some s' \<and> \<not> pw_active (globals s') \<and>
    con_serial (globals s') = str ''[handler] Deferred '' @ dash @
      str '' ACK sent, starting slow work (handle=0)'' @ [10] @ str ''[loop] Work done '' @ dash @
      str '' sending deferred response: 22.50'' @ [10]"
proof -
  let ?r = "server_poll default_config (slow_env (5000 + 1)) 5000 slow_asked"
  have now: "pw_active (globals (the ?r))" "con_serial (globals (the ?r)) = str ''[handler] Deferred '' @ dash @
      str '' ACK sent, starting slow work (handle=0)'' @ [10]" by code_simp+
  have "server_inv default_config slow_asked"
    using slow.runs_good [OF default_config_valid default_room(1) slow_asked_runs [where F = tenths]] by simp
  then obtain s1 where s1: "?r = Some s1"
    using server_poll_keeps [OF slow_handlers_ok default_config_valid] by blast
  have shown: "snprintf 16 (fl_show tenths 2 (readSlowSensor tenths 0)) = str ''22.50''" by code_simp
  have k: "(0 :: u32) < 1" "(1 :: u32) \<le> 1000" by simp_all
  have "pw_active (globals s1)" using now(1) s1 by simp
  from slow_work_skipped [OF default_config_valid slow_asked_idle(2) slow_asked_runs slow_asked_idle(1) s1 this k default_room(1),
      where F = tenths and sensorMs = 0] now(2) s1
  show ?thesis by (auto simp: shown str_def)
qed

end
