(* ===== verification/App_Node.thy ===== *)
theory App_Node
  imports App_Client
begin

text \<open>
  Sketches that run a server and a client in one program, on transports of their own, as
  \<^verbatim>\<open>examples/URITemplates\<close>, \<^verbatim>\<open>MultiObserve\<close>, \<^verbatim>\<open>ResourceDiscovery\<close> and
  \<^verbatim>\<open>BlockwiseDownload\<close>. The globals are shared: whichever side runs has them as the extension
  of its record.
\<close>

record 'g node =
  nd_server :: server
  nd_client :: client
  nd_globals :: 'g

definition node_server :: "'g node \<Rightarrow> 'g server_scheme" where
  "node_server n = deploy (nd_globals n) (nd_server n)"

definition put_server :: "'g server_scheme \<Rightarrow> 'g node \<Rightarrow> 'g node" where
  "put_server s n = n\<lparr>nd_server := server.truncate s, nd_globals := server.more s\<rparr>"

definition node_client :: "'g node \<Rightarrow> 'g client_scheme" where
  "node_client n = install (nd_globals n) (nd_client n)"

definition put_client :: "'g client_scheme \<Rightarrow> 'g node \<Rightarrow> 'g node" where
  "put_client c n = n\<lparr>nd_client := client.truncate c, nd_globals := client.more c\<rparr>"

lemma node_server_put [simp]: "node_server (put_server s n) = s"
  by (cases s) (simp add: node_server_def put_server_def deploy_def server.defs)

lemma node_client_put [simp]: "node_client (put_client c n) = c"
  by (cases c) (simp add: node_client_def put_client_def install_def client.defs)

lemma nd_put [simp]:
  "nd_client (put_server s n) = nd_client n" "nd_globals (put_server s n) = server.more s"
  "nd_server (put_client c n) = nd_server n" "nd_globals (put_client c n) = client.more c"
  by (simp_all add: put_server_def put_client_def)

definition node_inv :: "config \<Rightarrow> 'g node \<Rightarrow> bool" where
  "node_inv cfg n \<longleftrightarrow> server_inv cfg (node_server n) \<and> client_inv cfg (node_client n)"

lemma node_inv_put [simp]:
  "node_inv cfg (put_server s n) \<longleftrightarrow> server_inv cfg s \<and> client_inv cfg (node_client n)"
  "node_inv cfg (put_client c n) \<longleftrightarrow> server_inv cfg (node_server n) \<and> client_inv cfg c"
  by (simp_all add: node_inv_def) (simp_all add: node_server_def node_client_def)

text \<open>What the application sees: its registrations, the client's timeout handler, its globals.\<close>

type_synonym 'g node_view = "(bytes \<times> u8 \<times> resource_handler \<times> nat \<times> bool \<times> bool) list \<times> nat option \<times> 'g"

definition node_view :: "'g node \<Rightarrow> 'g node_view" where
  "node_view n = (fst (app_view (node_server n)), fst (client_view (node_client n)), nd_globals n)"

lemma node_view_put [simp]:
  "node_view (put_server s n) = (fst (app_view s), fst (snd (node_view n)), snd (app_view s))"
  "node_view (put_client c n) = (fst (node_view n), client_view c)"
  by (simp_all add: node_view_def app_view_def client_view_def)
    (simp_all add: node_server_def node_client_def)

lemma node_view_parts:
  "app_view (node_server n) = (fst (node_view n), snd (snd (node_view n)))"
  "client_view (node_client n) = snd (node_view n)"
  by (simp_all add: node_view_def app_view_def client_view_def) (simp_all add: node_server_def node_client_def)

text \<open>The loop of such a sketch: the server polls, the client polls, then the rest.\<close>

definition node_polls :: "config \<Rightarrow> 'g handler_env \<Rightarrow> 'g client_env \<Rightarrow> u32 \<Rightarrow> 'g node \<Rightarrow> 'g node option" where
  "node_polls cfg senv cenv now n =
     (case server_poll cfg senv now (node_server n) of
        None \<Rightarrow> None
      | Some s \<Rightarrow>
          (case client_poll cfg cenv now (node_client (put_server s n)) of
             None \<Rightarrow> None
           | Some c \<Rightarrow> Some (put_client c (put_server s n))))"

text \<open>The client's peer: the address of the board itself.\<close>

definition loopback :: "bytes \<Rightarrow> endpoint" where
  "loopback ip = empty_endpoint\<lparr>ep_ip := ip, ep_port := 5683\<rparr>"

text \<open>A number as a context pointer, and back: 0 is the null pointer.\<close>

definition number_ctx :: "nat \<Rightarrow> nat option" where
  "number_ctx n = (if n = 0 then None else Some n)"

definition ctx_number :: "nat option \<Rightarrow> nat" where
  "ctx_number ctx = (case ctx of None \<Rightarrow> 0 | Some n \<Rightarrow> n)"

text \<open>The resources of the sketches with three of them, and the one with the time since the start.\<close>

definition temp_path :: bytes where
  "temp_path = str ''/temp''"

definition humidity_path :: bytes where
  "humidity_path = str ''/humidity''"

definition uptime_path :: bytes where
  "uptime_path = str ''/uptime''"

lemma board_paths: "wf_path cfg temp_path" "wf_path cfg humidity_path" "wf_path cfg uptime_path"
  "\<not> has_param temp_path" "\<not> has_param humidity_path" "\<not> has_param uptime_path"
  by (simp_all add: temp_path_def humidity_path_def uptime_path_def wf_path_def str_def colon_def slash_def)

definition uptime_text :: "u32 \<Rightarrow> bytes" where
  "uptime_text ms = snprintf 16 (decimal (uint (ms div 1000)))"

definition handleUptime :: "u32 \<Rightarrow> response \<Rightarrow> 'w server_scheme \<Rightarrow> response \<times> 'w server_scheme" where
  "handleUptime ms res s =
     (res\<lparr>res_code := Code_Content, res_contentFormat := CF_TextPlain, res_payload := Some (uptime_text ms)\<rparr>, s)"

definition node_traffic :: "'g node \<Rightarrow> 'g node \<Rightarrow> bool" where
  "node_traffic n n' \<longleftrightarrow>
     (\<exists>s. server_traffic (node_server n) s \<and> n' = put_server s n) \<or>
     (\<exists>c. client_traffic (node_client n) c \<and> n' = put_client c n)"

locale node_sketch =
  fixes cfg :: config
    and senv :: "'i \<Rightarrow> 'g handler_env"
    and cenv :: "'g client_env"
    and clock :: "'i \<Rightarrow> u32"
    and after :: "'i \<Rightarrow> 'g node \<Rightarrow> 'g node"
    and loop :: "'i \<Rightarrow> 'g node \<Rightarrow> 'g node option"
    and room :: bool
    and boot :: "'g node \<Rightarrow> bool"
    and good :: "'g node_view \<Rightarrow> bool"
  assumes loop_eq: "loop i n = map_option (after i) (node_polls cfg (senv i) cenv (clock i) n)"
    and handlers_reach: "handlers_ok cfg (senv i)"
    and callbacks_reach: "callbacks_ok cfg cenv"
    and after_inv: "valid_config cfg \<Longrightarrow> node_inv cfg n \<Longrightarrow> node_inv cfg (after i n)"
    and boot_inv: "valid_config cfg \<Longrightarrow> room \<Longrightarrow> boot n \<Longrightarrow> node_inv cfg n"
    and boot_good: "room \<Longrightarrow> boot n \<Longrightarrow> good (node_view n)"
    and handlers_good: "good (fst (app_view s), t, snd (app_view s)) \<Longrightarrow>
      good (fst (app_view (snd (senv i h u req res s))), t, snd (app_view (snd (senv i h u req res s))))"
    and callbacks_good: "callbacks_keep (\<lambda>v. good (regs, v)) cenv"
    and after_good: "good (node_view n) \<Longrightarrow> good (node_view (after i n))"
begin

lemma server_poll_good:
  assumes "valid_config cfg" "server_inv cfg s" "good (fst (app_view s), t, snd (app_view s))"
    and "server_poll cfg (senv i) (clock i) s = Some s'"
  shows "good (fst (app_view s'), t, snd (app_view s'))"
proof (cases "app_view s' = app_view s")
  case False
  obtain upload "from" m j ps where "ran upload (senv i) from m j ps s s'"
    by (rule server_poll_effect [OF assms(1,2,4) False])
  then show ?thesis using assms(3) handlers_good unfolding ran_def by metis
qed (use assms(3) in simp)

lemma polls_good:
  assumes "valid_config cfg" "node_inv cfg n"
  obtains n' where "node_polls cfg (senv i) cenv (clock i) n = Some n'" "node_inv cfg n'"
    "good (node_view n) \<Longrightarrow> good (node_view n')"
proof -
  have inv: "server_inv cfg (node_server n)" "client_inv cfg (node_client n)"
    using assms(2) by (simp_all add: node_inv_def)
  obtain s where s: "server_poll cfg (senv i) (clock i) (node_server n) = Some s" "server_inv cfg s"
    using server_poll_keeps [OF handlers_reach assms(1) inv(1)] by blast
  let ?n1 = "put_server s n"
  have inv1: "client_inv cfg (node_client ?n1)" using inv(2) s(2) by (simp add: node_client_def)
  obtain c where c: "client_poll cfg cenv (clock i) (node_client ?n1) = Some c" "client_inv cfg c"
    using client_poll_inv [OF callbacks_reach inv1 assms(1)] by blast
  have "good (node_view (put_client c ?n1))" if "good (node_view n)"
  proof -
    have "good (fst (app_view (node_server n)), fst (snd (node_view n)), snd (app_view (node_server n)))"
      using that by (simp add: node_view_parts)
    from server_poll_good [OF assms(1) inv(1) this s(1)]
    have "good (fst (app_view s), client_view (node_client ?n1))" by (simp add: node_view_parts)
    from client_poll_keeps_view [OF callbacks_good this c(1)] show ?thesis by simp
  qed
  with that [of "put_client c ?n1"] s c show thesis by (simp add: node_polls_def)
qed

lemma loop_returns:
  assumes "valid_config cfg" "node_inv cfg n"
  shows "\<exists>n'. loop i n = Some n' \<and> node_inv cfg n'"
  using polls_good [OF assms, of i] after_inv [OF assms(1)] by (metis loop_eq option.map(2))

lemma runs_good:
  assumes "valid_config cfg" room "sketch_runs boot loop node_traffic n"
  shows "node_inv cfg n \<and> good (node_view n)"
  using assms(3)
proof induction
  case (run_setup n)
  then show ?case using boot_inv boot_good assms(1,2) by blast
next
  case (run_loop n i n')
  then obtain n1 where n1: "node_polls cfg (senv i) cenv (clock i) n = Some n1" "n' = after i n1"
    by (auto simp: loop_eq)
  have "good (node_view n1)" using polls_good [OF assms(1), of n i] run_loop.IH n1(1) by (metis option.inject)
  then show ?case using loop_returns [OF assms(1), of n i] run_loop after_good n1(2) by auto
next
  case (run_network n n')
  have "node_inv cfg n' \<and> node_view n' = node_view n"
    using run_network.hyps(2)
  proof (unfold node_traffic_def, elim disjE exE conjE)
    fix s assume s: "server_traffic (node_server n) s" "n' = put_server s n"
    from server_traffic_keeps [OF s(1)] run_network.IH show ?thesis
      by (simp add: s(2) node_view_parts) (simp add: node_inv_def)
  next
    fix c assume c: "client_traffic (node_client n) c" "n' = put_client c n"
    from client_traffic_keeps [OF c(1)] run_network.IH show ?thesis
      by (simp add: c(2) node_view_parts) (simp add: node_inv_def)
  qed
  then show ?case using run_network.IH by simp
qed

lemma sketch_safe:
  assumes "valid_config cfg" room "sketch_runs boot loop node_traffic n"
  shows "good (node_view n) \<and> (\<exists>n'. loop i n = Some n' \<and> node_inv cfg n' \<and> good (node_view n'))"
proof -
  note n = runs_good [OF assms]
  obtain n' where n': "loop i n = Some n'" "node_inv cfg n'" using loop_returns [OF assms(1)] n by blast
  from runs_good [OF assms(1,2) sketch_runs.run_loop [OF assms(3) n'(1)]] n n' show ?thesis by blast
qed

end

end
