(* ===== verification/App_Sensors.thy ===== *)
theory App_Sensors
  imports App_Node
begin

text \<open>
  The sketch of \<^verbatim>\<open>examples/URITemplates\<close>: one template resource for a bank of three sensors, and
  a client in the same program that asks for each of them and for one that does not exist. What
  \<^verbatim>\<open>setup\<close> prints before its first request is the parameter \<open>banner\<close>; the address of the board is
  the parameter \<open>ip\<close>. \<open>ovf\<close> is what \<^verbatim>\<open>atoi\<close> makes of a number that no \<^verbatim>\<open>int\<close> holds.
\<close>

definition kSensors :: "'f float_ops \<Rightarrow> (bytes \<times> 'f) list" where
  "kSensors F = [(str ''temperature'', fl_lit F 243 1), (str ''humidity'', fl_lit F 610 1),
     (str ''pressure'', fl_lit F 10132 1)]"

definition out_of_range :: bytes where
  "out_of_range = str ''sensor id out of range''"

definition server_arrow :: "bytes \<Rightarrow> bytes \<Rightarrow> bytes" where
  "server_arrow idStr result =
     str ''[server] /sensors/'' @ idStr @ [0x20, 0xE2, 0x86, 0x92, 0x20] @ result @ [10]"

definition handleSensor :: "(bytes \<Rightarrow> int) \<Rightarrow> 'f float_ops \<Rightarrow> request \<Rightarrow> response \<Rightarrow> console server_scheme \<Rightarrow>
    response \<times> console server_scheme" where
  "handleSensor ovf F req res s =
     (case pathParam (str ''id'') req of
        None \<Rightarrow> (res\<lparr>res_code := Code_BadRequest\<rparr>, s)
      | Some idStr \<Rightarrow>
          let i = atoi ovf idStr
          in if i < 0 \<or> int (length (kSensors F)) \<le> i then
               (res\<lparr>res_code := Code_NotFound, res_payload := Some out_of_range\<rparr>,
                upd_globals (serial_print (server_arrow idStr (str ''4.04 Not Found''))) s)
             else
               let (name, value) = kSensors F ! nat i;
                   buf = snprintf 32 (name @ str ''='' @ fl_show F 1 value)
               in (res\<lparr>res_code := Code_Content, res_contentFormat := CF_TextPlain, res_payload := Some buf\<rparr>,
                   upd_globals (serial_print (server_arrow idStr buf)) s))"

definition sensor_env :: "(bytes \<Rightarrow> int) \<Rightarrow> 'f float_ops \<Rightarrow> console handler_env" where
  "sensor_env ovf F h ctx req res s = (if h = 0 then handleSensor ovf F req res s else (res, s))"

definition sensor_report :: "nat \<Rightarrow> client_response \<Rightarrow> bytes" where
  "sensor_report i res =
     str ''[client] sensor '' @ decimal (int i) @
       (if cr_code res = Code_Content
        then str '': '' @ cstr (response_body res) @ [10]
        else str '': error '' @ code_text (cr_code res) @ [10])"

definition onSensorResponse :: "client_response \<Rightarrow> nat option \<Rightarrow> console client_scheme \<Rightarrow> console client_scheme" where
  "onSensorResponse res ctx = upd_cl_globals (serial_print (sensor_report (ctx_number ctx) res))"

definition sensor_callbacks :: "console client_env" where
  "sensor_callbacks = \<lparr>ce_response = (\<lambda>h res ctx. if h = 0 then onSensorResponse res ctx else (\<lambda>c. c)),
     ce_timeout = (\<lambda>h ctx c. c), ce_discover = (\<lambda>h ep p ctx c. c)\<rparr>"

definition sensors_server_setup :: "config \<Rightarrow> 'w server_scheme \<Rightarrow> 'w server_scheme" where
  "sensors_server_setup cfg s =
     (let s1 = snd (addResource cfg (Some (str ''/sensors/:id'')) MethodGet (Some (AppHandler 0)) 0 False s)
      in snd (server_begin cfg 5683 s1))"

text \<open>The loop over the sensor numbers, whose path goes through a buffer of 20 bytes.\<close>

definition sensor_query :: "config \<Rightarrow> endpoint \<Rightarrow> nat \<Rightarrow> 'c client_scheme \<Rightarrow> 'c client_scheme" where
  "sensor_query cfg ep i c =
     snd (client_get cfg ep (snprintf 20 (str ''/sensors/'' @ decimal (int i))) (Some 0) (number_ctx i) True c)"

definition sensors_client_setup :: "config \<Rightarrow> endpoint \<Rightarrow> 'c client_scheme \<Rightarrow> 'c client_scheme" where
  "sensors_client_setup cfg ep c =
     snd (client_get cfg ep (str ''/sensors/99'') (Some 0) (number_ctx 99) True
       (fold (sensor_query cfg ep) [0..<3] c))"

definition sensors_boot :: "config \<Rightarrow> bytes \<Rightarrow> console node \<Rightarrow> bool" where
  "sensors_boot cfg ip n \<longleftrightarrow>
     (\<exists>ts tc banner. n = \<lparr>nd_server = sensors_server_setup cfg (new_server cfg ts),
        nd_client = sensors_client_setup cfg (loopback ip) (new_client cfg tc (reset_pool cfg)),
        nd_globals = \<lparr>con_serial = banner\<rparr>\<rparr>)"

definition sensors_loop :: "config \<Rightarrow> (bytes \<Rightarrow> int) \<Rightarrow> 'f float_ops \<Rightarrow> u32 \<Rightarrow> console node \<Rightarrow> console node option" where
  "sensors_loop cfg ovf F now n = node_polls cfg (sensor_env ovf F) sensor_callbacks now n"

definition sensors_registered :: "(bytes \<times> u8 \<times> resource_handler \<times> nat \<times> bool \<times> bool) list" where
  "sensors_registered = [(str ''/sensors/:id'', MethodGet, AppHandler 0, 0, False, True)]"

definition sensors_good :: "console node_view \<Rightarrow> bool" where
  "sensors_good v \<longleftrightarrow> fst v \<in> {sensors_registered, sensors_registered @ [core_registration]} \<and> fst (snd v) = None"

lemma sensor_template: "has_param (str ''/sensors/:id'')" "1 \<le> max_path_params cfg \<Longrightarrow> wf_path cfg (str ''/sensors/:id'')"
  by (simp_all add: wf_path_def str_def colon_def slash_def)

lemma sensor_query_inv: "client_inv cfg c \<Longrightarrow> 1 \<le> max_token_len cfg \<Longrightarrow> client_inv cfg (sensor_query cfg ep i c)"
  by (simp add: sensor_query_def client_get_def sendRequest_inv)

lemma sensor_query_view: "client_view (sensor_query cfg ep i c) = client_view c"
  by (simp add: sensor_query_def cview_simps)

lemma sensors_setup_inv:
  assumes "valid_config cfg" "1 \<le> max_path_params cfg"
  shows "server_inv cfg s \<Longrightarrow> server_inv cfg (sensors_server_setup cfg s)"
    and "client_inv cfg c \<Longrightarrow> client_inv cfg (sensors_client_setup cfg ep c)"
proof -
  show "server_inv cfg s \<Longrightarrow> server_inv cfg (sensors_server_setup cfg s)"
    using assms by (simp add: sensors_server_setup_def Let_def server_begin_inv addResource_inv sensor_template)
  have tok: "1 \<le> max_token_len cfg" using assms(1) by (simp add: valid_config_def)
  show "client_inv cfg c \<Longrightarrow> client_inv cfg (sensors_client_setup cfg ep c)"
    using tok unfolding sensors_client_setup_def client_get_def
    by (intro sendRequest_inv fold_inv [where P = "client_inv cfg"]) (simp_all add: sensor_query_inv)
qed

lemma sensors_server_view:
  assumes "2 \<le> max_resources cfg" "fst (app_view s) = []"
  shows "fst (app_view (sensors_server_setup cfg s)) \<in> {sensors_registered, sensors_registered @ [core_registration]}"
  using assms by (simp add: sensors_server_setup_def Let_def view_begin view_add sensor_template sensors_registered_def)

lemma sensors_client_view: "client_view (sensors_client_setup cfg ep c) = client_view c"
proof -
  have "client_view (fold (sensor_query cfg ep) xs c) = client_view c" for xs
    by (rule fold_inv [where P = "\<lambda>c'. client_view c' = client_view c"]) (simp_all add: sensor_query_view)
  then show ?thesis by (simp add: sensors_client_setup_def cview_simps)
qed

lemma sensor_handlers_ok: "handlers_ok cfg (sensor_env ovf F)"
  by (auto simp: handlers_ok_def sensor_env_def handleSensor_def Let_def split_def intro: api_globals split: option.split)

lemma sensor_callbacks_ok: "callbacks_ok cfg sensor_callbacks"
  by (auto simp: callbacks_ok_def sensor_callbacks_def onSensorResponse_def intro: c_globals)

interpretation sensors: node_sketch cfg "\<lambda>_. sensor_env ovf F" sensor_callbacks "\<lambda>now. now" "\<lambda>_ n. n"
    "sensors_loop cfg ovf F" "2 \<le> max_resources cfg \<and> 1 \<le> max_path_params cfg"
    "sensors_boot cfg ip" sensors_good for cfg ovf F ip
proof (unfold_locales, goal_cases)
  case (1 now n)
  then show ?case by (simp add: sensors_loop_def option.map_ident)
next
  case 2
  then show ?case by (rule sensor_handlers_ok)
next
  case 3
  then show ?case by (rule sensor_callbacks_ok)
next
  case (4 n)
  then show ?case by simp
next
  case (5 n)
  then show ?case
    by (auto simp: sensors_boot_def node_inv_def node_server_def node_client_def
        intro!: sensors_setup_inv new_server_inv new_client_inv wf_pool_reset)
next
  case (6 n)
  then obtain ts tc banner where n: "2 \<le> max_resources cfg" "n = \<lparr>nd_server = sensors_server_setup cfg (new_server cfg ts),
      nd_client = sensors_client_setup cfg (loopback ip) (new_client cfg tc (reset_pool cfg)),
      nd_globals = \<lparr>con_serial = banner\<rparr>\<rparr>"
    by (auto simp: sensors_boot_def)
  have "fst (app_view (sensors_server_setup cfg (new_server cfg ts))) \<in>
      {sensors_registered, sensors_registered @ [core_registration]}"
    by (rule sensors_server_view [OF n(1)]) (simp add: app_view_def new_server_def)
  moreover have "cl_onTimeout (sensors_client_setup cfg (loopback ip) (new_client cfg tc (reset_pool cfg))) = None"
    using sensors_client_view [of cfg "loopback ip" "new_client cfg tc (reset_pool cfg)"]
    by (simp add: client_view_def new_client_def)
  ultimately show ?case
    by (simp add: n(2) sensors_good_def node_view_def app_view_def client_view_def node_server_def node_client_def)
next
  case (7 s t now h u req res)
  then show ?case
    by (simp add: sensor_env_def handleSensor_def Let_def split_def view_simps sensors_good_def split: option.split)
next
  case 8
  then show ?case
    by (auto simp: callbacks_keep_def sensor_callbacks_def onSensorResponse_def cview_simps sensors_good_def)
next
  case (9 n)
  then show ?case by simp
qed

end
