(* ===== verification/App_Sensors_Props.thy ===== *)
theory App_Sensors_Props
  imports App_Sensors Props_Server Props_Client
begin

section \<open>The path of a sensor\<close>

definition sensor_url :: "nat \<Rightarrow> bytes" where
  "sensor_url k = str ''/sensors/'' @ digits k"

lemma decimal_nat [simp]: "decimal (int k) = digits k"
  by (simp add: decimal_def)

lemma digits_plain: "x \<in> set (digits k) \<Longrightarrow> x \<noteq> 0 \<and> x \<noteq> slash"
  using digits_are_digits [of k] by (auto simp: list_all_iff is_digit_def slash_def)

lemma length_id:
  assumes "k < 2 ^ 31"
  shows "length (digits k) \<le> 10" "snprintf 20 (str ''/sensors/'' @ digits k) = sensor_url k"
proof -
  show "length (digits k) \<le> 10" using length_digits [of k 9] assms by simp
  then show "snprintf 20 (str ''/sensors/'' @ digits k) = sensor_url k"
    by (simp add: snprintf_def sensor_url_def)
qed

lemma sensor_url_segments: "sensor_url k = spell [str ''sensors'', digits k]"
  by (simp add: sensor_url_def spell_def str_def slash_def)

lemma sensor_segments: "s \<in> set [str ''sensors'', digits k] \<Longrightarrow> s \<noteq> [] \<and> slash \<notin> set s"
  using digits_hd [of k] digits_plain [of _ k] by (auto simp: str_def slash_def)

lemma sensor_url_path:
  assumes "k < 2 ^ 31"
  shows "short_path (sensor_url k)" "0 \<notin> set (sensor_url k)" "canonical_path (sensor_url k) = sensor_url k"
    "length (sensor_url k) \<le> 19"
proof -
  have "segments (sensor_url k) = [str ''sensors'', digits k]"
    unfolding sensor_url_segments by (rule segments_spell) (rule sensor_segments)
  then show "short_path (sensor_url k)" using length_id(1) [OF assms] by (simp add: short_path_def)
  show "0 \<notin> set (sensor_url k)" using digits_plain [of 0 k] by (auto simp: sensor_url_def str_def)
  show "canonical_path (sensor_url k) = sensor_url k"
    unfolding sensor_url_segments by (rule canonical_spell) (simp, rule sensor_segments)
  show "length (sensor_url k) \<le> 19" using length_id(1) [OF assms] by (simp add: sensor_url_def)
qed

lemma pieces_whole: "slash \<notin> set p \<Longrightarrow> pieces p = [p]"
  by (subst pieces.simps) (auto simp: segment_of_def after_segment_def takeWhile_eq_all_conv dropWhile_eq_Nil_conv)

lemma pieces_cut: "slash \<notin> set p \<Longrightarrow> pieces (p @ slash # q) = p # pieces q"
  by (subst pieces.simps) (simp add: segment_of_def after_segment_def takeWhile_append dropWhile_append)

lemma sensor_captured:
  "template_match (pieces (str ''/sensors/:id'')) (pieces (sensor_url k)) = Some [(str ''id'', digits k)]"
proof -
  have p: "pieces (str ''/sensors/'' @ q) = [] # str ''sensors'' # pieces q" for q
    using pieces_cut [of "[]" "str ''sensors'' @ slash # q"] pieces_cut [of "str ''sensors''" q]
    by (simp add: str_def slash_def)
  have "pieces (sensor_url k) = [[], str ''sensors'', digits k]"
    unfolding sensor_url_def p using sensor_segments [of "digits k" k] by (simp add: pieces_whole)
  moreover have "pieces (str ''/sensors/:id'') = [[], str ''sensors'', str '':id'']"
    using p [of "str '':id''"] pieces_whole [of "str '':id''"] by (simp add: str_def slash_def)
  ultimately show ?thesis using digits_hd [of k] by (simp add: str_def colon_def)
qed

section \<open>The answer\<close>

definition sensor_answer :: "'f float_ops \<Rightarrow> nat \<Rightarrow> bytes" where
  "sensor_answer F k =
     (if k < 3 then snprintf 32 (fst (kSensors F ! k) @ str ''='' @ fl_show F 1 (snd (kSensors F ! k)))
      else out_of_range)"

definition sensor_code :: "nat \<Rightarrow> u8" where
  "sensor_code k = (if k < 3 then Code_Content else Code_NotFound)"

lemma sensor_answer_size: "sensor_answer F k \<noteq> []" "length (sensor_answer F k) \<le> 31"
  by (auto simp: sensor_answer_def snprintf_def out_of_range_def str_def)

lemma handleSensor_answer:
  assumes "pathParam (str ''id'') req = Some (digits k)" "k < 2 ^ 31"
  shows "handleSensor ovf F req default_response s =
    (default_response\<lparr>res_code := sensor_code k, res_payload := Some (sensor_answer F k)\<rparr>,
     upd_globals (serial_print (server_arrow (digits k)
       (if k < 3 then sensor_answer F k else str ''4.04 Not Found''))) s)"
proof -
  have "atoi ovf (digits k) = int k" using atoi_decimal [of "int k" ovf] assms(2) by simp
  then show ?thesis
    using assms(1)
    by (simp add: handleSensor_def Let_def kSensors_def sensor_answer_def sensor_code_def split_def
        default_response_def)
qed

text \<open>The server's part: the template is matched and the handler runs on the captured number.\<close>

lemma sensors_serve:
  assumes "fst (app_view s) \<in> {sensors_registered, sensors_registered @ [core_registration]}"
    and "k < 2 ^ 31" "11 \<le> max_path_param_len cfg" "reserve_deferred me m s = (d, s2)"
  obtains ps where "route cfg (sv_resources s) (sensor_url k) = Some (0, ps)"
    "rs_methods (sv_resources s ! 0) AND MethodGet \<noteq> 0"
    "run_handler cfg (sensor_env ovf F) (sv_resources s2 ! 0) (make_request m me d None ps) s2 =
      (default_response\<lparr>res_code := sensor_code k, res_payload := Some (sensor_answer F k)\<rparr>,
       upd_globals (serial_print (server_arrow (digits k)
         (if k < 3 then sensor_answer F k else str ''4.04 Not Found''))) s2)"
proof -
  have v2: "app_view s2 = app_view s" using assms(4) view_request(6) [of me m s] by simp
  have len: "0 < length (fst (app_view s))" "fst (app_view s) ! 0 = (str ''/sensors/:id'', MethodGet, AppHandler 0, 0, False, True)"
    using assms(1) by (auto simp: sensors_registered_def)
  note zero = registered_nth [OF refl len(1)] registered_nth(2) [OF v2 [THEN arg_cong, where f = fst] len(1)]
  then have r: "rs_path (sv_resources s ! 0) = str ''/sensors/:id''" "rs_isTemplate (sv_resources s ! 0)"
    "rs_methods (sv_resources s ! 0) = MethodGet" "rs_handler (sv_resources s2 ! 0) = AppHandler 0"
    using len(2) by (simp_all add: registration_def)
  have "first_slot (\<lambda>r. \<not> rs_isTemplate r \<and> rs_path r = sensor_url k) (sv_resources s) = None"
  proof -
    have "well_known_core \<noteq> sensor_url k" by (simp add: well_known_core_def sensor_url_def str_def)
    moreover have "(rs_path q, rs_isTemplate q) \<in> {(str ''/sensors/:id'', True), (well_known_core, False)}"
      if "q \<in> set (sv_resources s)" for q
      using that assms(1) by (force simp: app_view_def registration_def sensors_registered_def core_registration_def)
    ultimately show ?thesis by (fastforce simp: first_slot_None_iff)
  qed
  moreover have "first_slot (\<lambda>r. rs_isTemplate r \<and> template_match (pieces (rs_path r)) (pieces (sensor_url k)) \<noteq> None)
      (sv_resources s) = Some 0"
    using r(1,2) zero(1) sensor_captured [of k] by (cases "sv_resources s") simp_all
  ultimately have "route cfg (sv_resources s) (sensor_url k) = Some (0, [param_of cfg (str ''id'', digits k)])"
    using r(1) by (simp add: route_def sensor_captured)
  moreover have "param_of cfg (str ''id'', digits k) = \<lparr>pp_name = str ''id'', pp_value = digits k\<rparr>"
    using assms(3) length_id(1) [OF assms(2)] by (simp add: param_of_def str_def)
  then have "pathParam (str ''id'') (make_request m me d None [param_of cfg (str ''id'', digits k)]) = Some (digits k)"
    by (simp add: pathParam_def make_request_def)
  then have "handleSensor ovf F (make_request m me d None [param_of cfg (str ''id'', digits k)]) default_response s2 =
      (default_response\<lparr>res_code := sensor_code k, res_payload := Some (sensor_answer F k)\<rparr>,
       upd_globals (serial_print (server_arrow (digits k)
         (if k < 3 then sensor_answer F k else str ''4.04 Not Found''))) s2)"
    by (rule handleSensor_answer [OF _ assms(2)])
  ultimately show thesis
    using r(3,4) by (intro that [of "[param_of cfg (str ''id'', digits k)]"])
      (simp_all add: run_handler_def sensor_env_def MethodGet_def)
qed

text \<open>
  C16: every sensor number is answered, in a build with room for the template. When a client asks for a sensor as the sketch does and its
  GET goes out, the datagram, arriving at the server in any state of the sketch, is routed
  by the template, its number is read back from the path, and the answer is 2.05 with the name and
  the value of that sensor, or 4.04 for a number of no sensor; and the answer, arriving at the
  client, makes it print the report of that sensor.
\<close>

theorem sensors_answered:
  assumes "valid_config cfg" "64 \<le> max_msg_size cfg" "20 \<le> max_uri_path_len cfg" "11 \<le> max_path_param_len cfg"
    and "enable_blockwise cfg \<longrightarrow> 31 \<le> unat (shift_size (block_szx cfg))" "k < 2 ^ 31"
    and "sketch_runs (sensors_boot cfg ip) (sensors_loop cfg ovf F) node_traffic n"
    and "client_inv cfg c" "cl_onTimeout c = None"
    and "client_get cfg ep (snprintf 20 (str ''/sensors/'' @ decimal (int k))) (Some 0) (number_ctx k) True c = (True, c1)"
    and "list_all (\<lambda>p. \<not> pending_matches [cl_nextTokenByte c] p) (cl_pending c)"
    and "list_all (\<lambda>d. \<not> discover_matches [cl_nextTokenByte c] d) (cl_discovers c)"
    and room: "2 \<le> max_resources cfg" "1 \<le> max_path_params cfg"
  shows "\<exists>d s' reply c2. tp_sent (cl_transport c1) = tp_sent (cl_transport c) @ [(ep, d)] \<and>
    handle_datagram cfg (sensor_env ovf F) me d (node_server n) = Some s' \<and>
    globals s' = serial_print (server_arrow (digits k) (if k < 3 then sensor_answer F k else str ''4.04 Not Found''))
      (nd_globals n) \<and>
    tp_sent (sv_transport s') = tp_sent (sv_transport (node_server n)) @ [(me, reply)] \<and>
    client_poll cfg sensor_callbacks now (arriving ep reply c1) = Some c2 \<and>
    cl_globals c2 = serial_print (sensor_report k \<lparr>cr_code = sensor_code k, cr_payload = Some (sensor_answer F k),
      cr_contentFormat = CF_TextPlain\<rparr>) (cl_globals c)"
proof -
  let ?s = "node_server n"
  let ?report = "sensor_report k \<lparr>cr_code = sensor_code k, cr_payload = Some (sensor_answer F k),
      cr_contentFormat = CF_TextPlain\<rparr>"
  define m where "m = sent_request cfg (sensor_url k) Code_Get None CF_TextPlain True False False c"
  have n: "server_inv cfg ?s"
    "fst (app_view ?s) \<in> {sensors_registered, sensors_registered @ [core_registration]}"
    "globals ?s = nd_globals n"
    using sensors.runs_good [OF assms(1) conjI [OF room] assms(7)]
    by (simp_all add: node_inv_def sensors_good_def node_view_def app_view_def) (simp add: node_server_def)
  have call: "sendRequest cfg ep (sensor_url k) Code_Get None CF_TextPlain True False False (Some 0) (number_ctx k)
      False c = (True, c1)"
    using assms(10) length_id(2) [OF assms(6)] by (simp add: client_get_def)
  have len: "length (sensor_url k) < max_uri_path_len cfg" using sensor_url_path(4) [OF assms(6)] assms(3) by linarith
  obtain d s2 where d: "reserve_deferred me m ?s = (d, s2)" by fastforce
  obtain ps where run: "route cfg (sv_resources ?s) (sensor_url k) = Some (0, ps)"
    "rs_methods (sv_resources ?s ! 0) AND MethodGet \<noteq> 0"
    "run_handler cfg (sensor_env ovf F) (sv_resources s2 ! 0) (make_request m me d None ps) s2 =
      (default_response\<lparr>res_code := sensor_code k, res_payload := Some (sensor_answer F k)\<rparr>,
       upd_globals (serial_print (server_arrow (digits k)
         (if k < 3 then sensor_answer F k else str ''4.04 Not Found''))) s2)"
    by (rule sensors_serve [OF n(2) assms(6,4) d])
  let ?res = "default_response\<lparr>res_code := sensor_code k, res_payload := Some (sensor_answer F k)\<rparr>"
  have get: "requested_mask Code_Get = Some MethodGet" by (simp add: requested_mask_def code_defs)
  have res: "\<not> res_deferred ?res" "res_payload ?res = Some (sensor_answer F k)" "res_contentFormat ?res = CF_TextPlain"
    "res_code ?res \<noteq> Code_Empty" "\<not> isMethodCode (res_code ?res)"
    unfolding sensor_code_def by (simp_all add: default_response_def) code_simp+
  have size: "7 + length (sensor_answer F k) \<le> max_msg_size cfg"
    "enable_blockwise cfg \<longrightarrow> length (sensor_answer F k) \<le> unat (shift_size (block_szx cfg))"
    using sensor_answer_size(2) [of F k] assms(2,5) by linarith+
  have cb: "ce_response sensor_callbacks 0 \<lparr>cr_code = res_code ?res, cr_payload = Some (sensor_answer F k),
      cr_contentFormat = CF_TextPlain\<rparr> (number_ctx k) c' = upd_cl_globals (serial_print ?report) c'" for c'
    by (simp add: sensor_callbacks_def onSensorResponse_def number_ctx_def ctx_number_def)
  have v2: "globals s2 = globals ?s" "sv_transport s2 = sv_transport ?s"
    using d by (auto simp: reserve_deferred_def split: option.splits)
  from request_round_trip [OF assms(1,8,9) n(1) sensor_url_path(1-3) [OF assms(6)] len call m_def assms(11,12)
      run(1) get run(2) d run(3) res(1-3) sensor_answer_size(1) size res(4,5) cb, of now]
  show ?thesis using v2 n(3) by auto
qed

definition sensors_node :: "console node" where
  "sensors_node = \<lparr>nd_server = sensors_server_setup default_config (new_server default_config idle_network),
     nd_client = sensors_client_setup default_config (loopback [10, 0, 0, 7])
       (new_client default_config quiet_network (reset_pool default_config)),
     nd_globals = \<lparr>con_serial = []\<rparr>\<rparr>"

definition asking_client :: "console client_scheme" where
  "asking_client = install \<lparr>con_serial = []\<rparr> (new_client default_config quiet_network (reset_pool default_config))"

theorem sensors_answered_witness:
  "\<exists>d s' reply c2. handle_datagram default_config (sensor_env (\<lambda>t. 0) tenths) client_a d (node_server sensors_node) = Some s' \<and>
    con_serial (globals s') = server_arrow (str ''1'') (str ''humidity=61.0'') \<and>
    client_poll default_config sensor_callbacks 20 (arriving (loopback [10, 0, 0, 7]) reply
      (snd (client_get default_config (loopback [10, 0, 0, 7]) (str ''/sensors/1'') (Some 0) (Some 1) True asking_client)))
      = Some c2 \<and>
    con_serial (cl_globals c2) = str ''[client] sensor 1: humidity=61.0'' @ [10]"
proof -
  let ?call = "client_get default_config (loopback [10, 0, 0, 7]) (str ''/sensors/1'') (Some 0) (Some 1) True asking_client"
  have run: "sketch_runs (sensors_boot default_config [10, 0, 0, 7]) (sensors_loop default_config (\<lambda>t. 0) tenths)
      node_traffic sensors_node"
    by (rule run_setup) (auto simp: sensors_boot_def sensors_node_def)
  have cfg: "64 \<le> max_msg_size default_config" "20 \<le> max_uri_path_len default_config"
    "11 \<le> max_path_param_len default_config" "\<not> enable_blockwise default_config"
    by (simp_all add: default_config_def)
  have c: "client_inv default_config asking_client" "cl_onTimeout asking_client = None" "cl_globals asking_client = \<lparr>con_serial = []\<rparr>"
    by (simp_all add: asking_client_def new_client_inv wf_pool_reset) (simp add: new_client_def)
  have url: "snprintf 20 (str ''/sensors/'' @ decimal (int 1)) = str ''/sensors/1''" "number_ctx 1 = Some 1"
    "sensor_answer tenths 1 = str ''humidity=61.0''" "digits 1 = str ''1''" by code_simp+
  have t: "fst ?call" "list_all (\<lambda>p. \<not> pending_matches [cl_nextTokenByte asking_client] p) (cl_pending asking_client)"
    "list_all (\<lambda>d. \<not> discover_matches [cl_nextTokenByte asking_client] d) (cl_discovers asking_client)"
    by code_simp+
  have call: "client_get default_config (loopback [10, 0, 0, 7]) (snprintf 20 (str ''/sensors/'' @ decimal (int 1)))
      (Some 0) (number_ctx 1) True asking_client = (True, snd ?call)"
    using t(1) by (simp only: url prod_eq_iff) simp
  have report: "sensor_report 1 \<lparr>cr_code = sensor_code 1, cr_payload = Some (str ''humidity=61.0''),
      cr_contentFormat = CF_TextPlain\<rparr> = str ''[client] sensor 1: humidity=61.0'' @ [10]" by code_simp
  have g: "nd_globals sensors_node = \<lparr>con_serial = []\<rparr>" by (simp add: sensors_node_def)
  have one: "(1 :: nat) < 3" "(1 :: nat) < 2 ^ 31" by simp_all
  have nb: "enable_blockwise default_config \<longrightarrow> 31 \<le> unat (shift_size (block_szx default_config))"
    using cfg(4) by simp
  from sensors_answered [OF default_config_valid cfg(1-3) nb one(2) run c(1,2) call t(2,3) default_room(1,3), of client_a 20]
  show ?thesis
    unfolding url report g c(3) if_P [OF one(1)]
    by (elim exE conjE) (intro exI conjI, assumption, simp, assumption, simp)
qed

end
