(* ===== verification/App_Multi.thy ===== *)
theory App_Multi
  imports App_Node
begin

text \<open>
  The sketch of \<^verbatim>\<open>examples/MultiObserve\<close>: three observable resources and a client in the same
  program that observes them all, and cancels one of the observations after 30 seconds. What
  \<^verbatim>\<open>setup\<close> prints up to its last two lines is the parameter \<open>banner\<close>, the address of the board is
  \<open>ip\<close>. The clock is read in the loop and in the handler of \<^verbatim>\<open>/uptime\<close>: the input of a loop run
  is the two readings.
\<close>

section \<open>Globals and handlers\<close>

record 'f multi_globals = console +
  mo_tempCancelled :: bool
  mo_temp :: 'f
  mo_hum :: int
  mo_tempDir :: 'f
  mo_humDir :: int
  mo_lastNotify :: u32

definition multi_init :: "'f float_ops \<Rightarrow> bytes \<Rightarrow> 'f multi_globals" where
  "multi_init F banner = \<lparr>con_serial = banner, mo_tempCancelled = False, mo_temp = fl_lit F 240 1, mo_hum = 61,
     mo_tempDir = fl_lit F 1 1, mo_humDir = 1, mo_lastNotify = 0\<rparr>"

definition multi_updateData :: "'f float_ops \<Rightarrow> 'f multi_globals \<Rightarrow> 'f multi_globals" where
  "multi_updateData F g =
     (let t = fl_add F (mo_temp g) (mo_tempDir g);
          h = mo_hum g + mo_humDir g
      in g\<lparr>mo_temp := t,
           mo_tempDir := (if fl_less F (fl_lit F 28 0) t \<or> fl_less F t (fl_lit F 20 0)
                          then fl_neg F (mo_tempDir g) else mo_tempDir g),
           mo_hum := h,
           mo_humDir := (if 75 < h \<or> h < 50 then - mo_humDir g else mo_humDir g)\<rparr>)"

definition multi_handleTemp :: "'f float_ops \<Rightarrow> response \<Rightarrow> 'f multi_globals server_scheme \<Rightarrow>
    response \<times> 'f multi_globals server_scheme" where
  "multi_handleTemp F res s =
     (res\<lparr>res_code := Code_Content, res_contentFormat := CF_TextPlain,
          res_payload := Some (snprintf 12 (fl_show F 1 (mo_temp (globals s))))\<rparr>, s)"

definition multi_handleHumidity :: "response \<Rightarrow> 'f multi_globals server_scheme \<Rightarrow>
    response \<times> 'f multi_globals server_scheme" where
  "multi_handleHumidity res s =
     (res\<lparr>res_code := Code_Content, res_contentFormat := CF_TextPlain,
          res_payload := Some (snprintf 8 (decimal (mo_hum (globals s))))\<rparr>, s)"

definition multi_env :: "'f float_ops \<Rightarrow> u32 \<Rightarrow> 'f multi_globals handler_env" where
  "multi_env F ms h ctx req res s =
     (if h = 0 then multi_handleTemp F res s else if h = 1 then multi_handleHumidity res s
      else if h = 2 then handleUptime ms res s else (res, s))"

section \<open>The callbacks\<close>

text \<open>The callbacks print a NUL-terminated copy of the body.\<close>

definition multi_onTemp :: "client_response \<Rightarrow> 'f multi_globals client_scheme \<Rightarrow> 'f multi_globals client_scheme" where
  "multi_onTemp res =
     upd_cl_globals (serial_print (str ''[temp]     '' @ cstr (response_body res) @ [0x20, 0xC2, 0xB0] @ str ''C'' @ [10]))"

definition multi_onHumidity :: "client_response \<Rightarrow> 'f multi_globals client_scheme \<Rightarrow> 'f multi_globals client_scheme" where
  "multi_onHumidity res =
     upd_cl_globals (serial_print (str ''[humidity] '' @ cstr (response_body res) @ str '' %'' @ [10]))"

definition multi_onUptime :: "client_response \<Rightarrow> 'f multi_globals client_scheme \<Rightarrow> 'f multi_globals client_scheme" where
  "multi_onUptime res =
     upd_cl_globals (serial_print (str ''[uptime]   '' @ cstr (response_body res) @ str '' s'' @ [10]))"

definition multi_callbacks :: "'f multi_globals client_env" where
  "multi_callbacks = \<lparr>
     ce_response = (\<lambda>h res ctx. if h = 0 then multi_onTemp res else if h = 1 then multi_onHumidity res
                       else if h = 2 then multi_onUptime res else (\<lambda>c. c)),
     ce_timeout = (\<lambda>h ctx c. c),
     ce_discover = (\<lambda>h ep p ctx c. c)\<rparr>"

section \<open>\<^verbatim>\<open>setup\<close> and \<^verbatim>\<open>loop\<close>\<close>

definition multi_server_setup :: "config \<Rightarrow> 'w server_scheme \<Rightarrow> 'w server_scheme" where
  "multi_server_setup cfg s =
     (let s1 = snd (addResource cfg (Some temp_path) MethodGet (Some (AppHandler 0)) 0 True s);
          s2 = snd (addResource cfg (Some humidity_path) MethodGet (Some (AppHandler 1)) 0 True s1);
          s3 = snd (addResource cfg (Some uptime_path) MethodGet (Some (AppHandler 2)) 0 True s2)
      in snd (server_begin cfg 5683 s3))"

definition multi_client_setup :: "config \<Rightarrow> endpoint \<Rightarrow> 'c client_scheme \<Rightarrow> 'c client_scheme" where
  "multi_client_setup cfg ep c =
     (let c1 = snd (client_observe cfg ep temp_path (Some 0) None c);
          c2 = snd (client_observe cfg ep humidity_path (Some 1) None c1)
      in snd (client_observe cfg ep uptime_path (Some 2) None c2))"

definition multi_boot :: "config \<Rightarrow> 'f float_ops \<Rightarrow> bytes \<Rightarrow> 'f multi_globals node \<Rightarrow> bool" where
  "multi_boot cfg F ip n \<longleftrightarrow>
     (\<exists>ts tc banner. n = \<lparr>nd_server = multi_server_setup cfg (new_server cfg ts),
        nd_client = multi_client_setup cfg (loopback ip) (new_client cfg tc (reset_pool cfg)),
        nd_globals = multi_init F (banner @ str ''Subscribed to /temp, /humidity, /uptime'' @ [13, 10] @
          str ''(temp subscription will cancel after 30 s)'' @ [10, 13, 10])\<rparr>)"

text \<open>The updates, every three seconds.\<close>

definition multi_push :: "config \<Rightarrow> 'f float_ops \<Rightarrow> u32 \<Rightarrow> 'f multi_globals server_scheme \<Rightarrow>
    'f multi_globals server_scheme" where
  "multi_push cfg F now s =
     (if 3000 \<le> now - mo_lastNotify (globals s) then
        let s1 = upd_globals (multi_updateData F \<circ> mo_lastNotify_update (\<lambda>_. now)) s;
            t = snprintf 12 (fl_show F 1 (mo_temp (globals s1)));
            h = snprintf 8 (decimal (mo_hum (globals s1)));
            u = uptime_text now;
            s2 = snd (notify cfg temp_path (Some t) CF_TextPlain False s1);
            s3 = snd (notify cfg humidity_path (Some h) CF_TextPlain False s2)
        in snd (notify cfg uptime_path (Some u) CF_TextPlain False s3)
      else s)"

text \<open>The cancellation, once, after thirty.\<close>

definition multi_cancel :: "config \<Rightarrow> endpoint \<Rightarrow> u32 \<Rightarrow> 'f multi_globals client_scheme \<Rightarrow> 'f multi_globals client_scheme" where
  "multi_cancel cfg ep now c =
     (if \<not> mo_tempCancelled (cl_globals c) \<and> 30000 \<le> now then
        let c1 = upd_cl_globals (mo_tempCancelled_update (\<lambda>_. True)) c;
            c2 = snd (cancelObserve cfg ep temp_path c1)
        in upd_cl_globals (serial_println (str ''[client] Only /humidity and /uptime will keep arriving.'' @ [10]) \<circ>
             serial_println (10 # str ''[client] /temp subscription cancelled.'')) c2
      else c)"

definition multi_after :: "config \<Rightarrow> 'f float_ops \<Rightarrow> bytes \<Rightarrow> u32 \<Rightarrow> 'f multi_globals node \<Rightarrow> 'f multi_globals node" where
  "multi_after cfg F ip now n =
     (let n1 = put_server (multi_push cfg F now (node_server n)) n
      in put_client (multi_cancel cfg (loopback ip) now (node_client n1)) n1)"

definition multi_loop :: "config \<Rightarrow> 'f float_ops \<Rightarrow> bytes \<Rightarrow> u32 \<times> u32 \<Rightarrow> 'f multi_globals node \<Rightarrow>
    'f multi_globals node option" where
  "multi_loop cfg F ip = (\<lambda>(now, handlerMs) n.
     (case node_polls cfg (multi_env F handlerMs) multi_callbacks now n of
        None \<Rightarrow> None
      | Some n1 \<Rightarrow> Some (multi_after cfg F ip now n1)))"

section \<open>What holds in every state of the sketch\<close>

definition multi_registered :: "(bytes \<times> u8 \<times> resource_handler \<times> nat \<times> bool \<times> bool) list" where
  "multi_registered = [(temp_path, MethodGet, AppHandler 0, 0, True, False),
     (humidity_path, MethodGet, AppHandler 1, 0, True, False), (uptime_path, MethodGet, AppHandler 2, 0, True, False)]"

definition multi_swings :: "'f multi_globals \<Rightarrow> bool" where
  "multi_swings g \<longleftrightarrow>
     mo_humDir g = 1 \<and> 49 \<le> mo_hum g \<and> mo_hum g \<le> 75 \<or> mo_humDir g = - 1 \<and> 50 \<le> mo_hum g \<and> mo_hum g \<le> 76"

definition multi_good :: "'f multi_globals node_view \<Rightarrow> bool" where
  "multi_good v \<longleftrightarrow> fst v \<in> {multi_registered, multi_registered @ [core_registration]} \<and>
     fst (snd v) = None \<and> multi_swings (snd (snd v))"

lemma multi_updateData_swings: "multi_swings g \<Longrightarrow> multi_swings (multi_updateData F g)"
  by (auto simp: multi_swings_def multi_updateData_def Let_def)

lemma multi_swings_frame [simp]:
  "multi_swings (serial_print t g) = multi_swings g" "multi_swings (serial_println t g) = multi_swings g"
  "multi_swings (g\<lparr>mo_tempCancelled := b\<rparr>) = multi_swings g"
  "multi_swings (g\<lparr>mo_lastNotify := n\<rparr>) = multi_swings g"
  by (simp_all add: multi_swings_def serial_println_def serial_print_def)

lemma multi_server_view:
  assumes "4 \<le> max_resources cfg" "fst (app_view s) = []"
  shows "fst (app_view (multi_server_setup cfg s)) \<in> {multi_registered, multi_registered @ [core_registration]}"
  using assms by (simp add: multi_server_setup_def Let_def view_begin view_add board_paths multi_registered_def)

lemma multi_server_setup_inv: "valid_config cfg \<Longrightarrow> server_inv cfg s \<Longrightarrow> server_inv cfg (multi_server_setup cfg s)"
  by (simp add: multi_server_setup_def Let_def server_begin_inv addResource_inv board_paths)

lemma multi_client_setup_inv:
  "valid_config cfg \<Longrightarrow> client_inv cfg c \<Longrightarrow> client_inv cfg (multi_client_setup cfg ep c)"
  by (rule client_api_reach_inv [where c = c])
    (simp_all add: multi_client_setup_def Let_def creach_then valid_config_def)

lemma multi_client_view: "client_view (multi_client_setup cfg ep c) = client_view c"
  by (simp add: multi_client_setup_def Let_def cview_simps)

lemma multi_handlers_ok: "handlers_ok cfg (multi_env F ms)"
  by (simp add: handlers_ok_def multi_env_def multi_handleTemp_def multi_handleHumidity_def handleUptime_def)

lemma multi_callbacks_ok: "callbacks_ok cfg multi_callbacks"
  by (auto simp: callbacks_ok_def multi_callbacks_def multi_onTemp_def multi_onHumidity_def multi_onUptime_def
      intro: c_globals)

lemma multi_push_reach: "api_reach cfg s (multi_push cfg F now s)"
  by (simp add: multi_push_def Let_def reach_then)

lemma multi_cancel_reach: "(client_api cfg)\<^sup>*\<^sup>* c (multi_cancel cfg ep now c)"
  by (simp add: multi_cancel_def Let_def creach_then)

interpretation multi: node_sketch cfg "\<lambda>(now, handlerMs). multi_env F handlerMs" multi_callbacks
    "\<lambda>(now, handlerMs). now" "\<lambda>(now, handlerMs). multi_after cfg F ip now"
    "multi_loop cfg F ip" "4 \<le> max_resources cfg" "multi_boot cfg F ip" multi_good for cfg F ip
proof (unfold_locales, goal_cases)
  case (1 i n)
  then show ?case by (simp add: multi_loop_def split_def option.case_eq_if map_option_case)
next
  case (2 i)
  then show ?case by (simp add: split_def multi_handlers_ok)
next
  case 3
  then show ?case by (rule multi_callbacks_ok)
next
  case (4 n i)
  have tok: "1 \<le> max_token_len cfg" using 4(1) by (simp add: valid_config_def)
  let ?s = "multi_push cfg F (fst i) (node_server n)"
  have "server_inv cfg (node_server n)" using 4(2) by (simp add: node_inv_def)
  then have "server_inv cfg ?s" by (rule api_reach_inv [OF multi_push_reach, THEN conjunct1])
  moreover have "client_inv cfg (node_client (put_server ?s n))"
    using 4(2) by (simp add: node_inv_def node_client_def)
  note client_api_reach_inv [OF multi_cancel_reach this tok]
  ultimately show ?case by (simp add: split_def multi_after_def Let_def)
next
  case (5 n)
  then show ?case
    by (auto simp: multi_boot_def node_inv_def node_server_def node_client_def
        intro!: multi_server_setup_inv multi_client_setup_inv new_server_inv new_client_inv wf_pool_reset)
next
  case (6 n)
  then obtain ts tc banner where n: "4 \<le> max_resources cfg" "n = \<lparr>nd_server = multi_server_setup cfg (new_server cfg ts),
      nd_client = multi_client_setup cfg (loopback ip) (new_client cfg tc (reset_pool cfg)),
      nd_globals = multi_init F banner\<rparr>"
    by (auto simp: multi_boot_def)
  have "fst (app_view (multi_server_setup cfg (new_server cfg ts))) \<in>
      {multi_registered, multi_registered @ [core_registration]}"
    by (rule multi_server_view [OF n(1)]) (simp add: app_view_def new_server_def)
  moreover have "cl_onTimeout (multi_client_setup cfg (loopback ip) (new_client cfg tc (reset_pool cfg))) = None"
    using multi_client_view [of cfg "loopback ip" "new_client cfg tc (reset_pool cfg)"]
    by (simp add: client_view_def new_client_def)
  ultimately show ?case
    by (simp add: n(2) multi_good_def node_view_def app_view_def client_view_def node_server_def node_client_def
        multi_init_def multi_swings_def)
next
  case (7 s t i h u req res)
  then show ?case
    by (simp add: split_def multi_env_def multi_handleTemp_def multi_handleHumidity_def handleUptime_def)
next
  case 8
  then show ?case
    by (auto simp: callbacks_keep_def multi_callbacks_def multi_onTemp_def multi_onHumidity_def multi_onUptime_def
        cview_simps multi_good_def)
next
  case (9 n i)
  then show ?case
    by (simp add: split_def multi_after_def multi_push_def multi_cancel_def Let_def view_simps cview_simps
        node_view_parts multi_good_def multi_updateData_swings)
qed

end
