(* ===== verification/App_Multi_Props.thy ===== *)
theory App_Multi_Props
  imports App_Multi Props_Server Props_Client
begin

section \<open>The cancellation happens once\<close>

lemma multi_server_quiet:
  assumes "valid_config cfg" "server_inv cfg s" "server_poll cfg (multi_env F ms) now s = Some s'"
  shows "app_view s' = app_view s"
proof (rule ccontr)
  assume ne: "app_view s' \<noteq> app_view s"
  obtain upload "from" m i ps where "ran upload (multi_env F ms) from m i ps s s'"
    by (rule server_poll_effect [OF assms ne])
  moreover have "snd (multi_env F ms h u req res s1) = s1" for h u req res s1
    by (simp add: multi_env_def multi_handleTemp_def multi_handleHumidity_def handleUptime_def)
  ultimately show False using ne unfolding ran_def by metis
qed

lemma multi_callbacks_flag: "callbacks_keep (\<lambda>v. mo_tempCancelled (snd v) = b) multi_callbacks"
  by (auto simp: callbacks_keep_def multi_callbacks_def multi_onTemp_def multi_onHumidity_def multi_onUptime_def
      cview_simps serial_print_def)

lemma multi_polls_flag:
  assumes "valid_config cfg" "node_inv cfg n" "node_polls cfg (multi_env F ms) multi_callbacks now n = Some n'"
  shows "mo_tempCancelled (nd_globals n') = mo_tempCancelled (nd_globals n)"
proof -
  obtain s c where s: "server_poll cfg (multi_env F ms) now (node_server n) = Some s"
    "client_poll cfg multi_callbacks now (node_client (put_server s n)) = Some c" "n' = put_client c (put_server s n)"
    using assms(3) by (auto simp: node_polls_def split: option.splits)
  have inv: "server_inv cfg (node_server n)" using assms(2) by (simp add: node_inv_def)
  have "snd (app_view s) = nd_globals n"
    unfolding multi_server_quiet [OF assms(1) inv s(1)] by (simp add: app_view_def node_server_def)
  then have "mo_tempCancelled (snd (client_view (node_client (put_server s n)))) = mo_tempCancelled (nd_globals n)"
    by (simp add: client_view_def app_view_def node_client_def)
  from client_poll_keeps_view [OF multi_callbacks_flag this s(2)] show ?thesis
    by (simp add: s(3) client_view_def)
qed

lemma multi_after_flag:
  fixes F :: "'f float_ops"
  shows "mo_tempCancelled (nd_globals (multi_after cfg F ip now n)) =
     (mo_tempCancelled (nd_globals n) \<or> 30000 \<le> now)"
proof -
  have "mo_tempCancelled (snd (app_view (multi_push cfg F now s))) = mo_tempCancelled (snd (app_view s))"
    for s
    by (simp add: multi_push_def Let_def view_simps multi_updateData_def)
  moreover have "mo_tempCancelled (snd (client_view (multi_cancel cfg ep now c))) =
      (mo_tempCancelled (snd (client_view c)) \<or> 30000 \<le> now)"
    for ep and c :: "'f multi_globals client_scheme"
  proof -
    have "snd (client_view (multi_cancel cfg ep now c)) = (if \<not> mo_tempCancelled (cl_globals c) \<and> 30000 \<le> now then
        serial_println (str ''[client] Only /humidity and /uptime will keep arriving.'' @ [10])
          (serial_println (10 # str ''[client] /temp subscription cancelled.'') ((cl_globals c)\<lparr>mo_tempCancelled := True\<rparr>))
        else cl_globals c)"
      by (simp add: multi_cancel_def Let_def cview_simps) (simp add: client_view_def)
    then show ?thesis by (auto simp: serial_println_def serial_print_def client_view_def)
  qed
  ultimately show ?thesis
    by (simp add: multi_after_def Let_def app_view_def client_view_def) (simp add: node_client_def node_server_def)
qed


definition multi_node :: "int multi_globals node" where
  "multi_node = \<lparr>nd_server = multi_server_setup default_config (new_server default_config idle_network),
     nd_client = multi_client_setup default_config (loopback [10, 0, 0, 7])
       (new_client default_config quiet_network (reset_pool default_config)),
     nd_globals = multi_init tenths (str ''Subscribed to /temp, /humidity, /uptime'' @ [13, 10] @
       str ''(temp subscription will cancel after 30 s)'' @ [10, 13, 10])\<rparr>"


end
