(* ===== verification/App_Discovery.thy ===== *)
theory App_Discovery
  imports App_Node Coap_Routing
begin

text \<open>
  The sketch of \<^verbatim>\<open>examples/ResourceDiscovery\<close>: a server that describes its resources and a client
  in the same program that asks for the description and then for each resource. What \<^verbatim>\<open>setup\<close>
  prints is the parameter \<open>banner\<close>, the address of the board is \<open>ip\<close>. The input of a loop run is
  the clock as the loop and as the handler of \<^verbatim>\<open>/uptime\<close> read it.
\<close>

definition disc_handleTemp :: "'f float_ops \<Rightarrow> response \<Rightarrow> 'w server_scheme \<Rightarrow> response \<times> 'w server_scheme" where
  "disc_handleTemp F res s =
     (res\<lparr>res_code := Code_Content, res_contentFormat := CF_TextPlain,
          res_payload := Some (snprintf 8 (fl_show F 1 (fl_lit F 243 1)))\<rparr>, s)"

definition disc_handleHumidity :: "response \<Rightarrow> 'w server_scheme \<Rightarrow> response \<times> 'w server_scheme" where
  "disc_handleHumidity res s =
     (res\<lparr>res_code := Code_Content, res_contentFormat := CF_TextPlain, res_payload := Some (str ''61'')\<rparr>, s)"

definition disc_env :: "'f float_ops \<Rightarrow> u32 \<Rightarrow> console handler_env" where
  "disc_env F ms h ctx req res s =
     (if h = 0 then disc_handleTemp F res s else if h = 1 then disc_handleHumidity res s
      else if h = 2 then handleUptime ms res s else (res, s))"

section \<open>The callbacks\<close>

text \<open>The line of 41 horizontal strokes, three bytes each.\<close>

definition rule_line :: bytes where
  "rule_line = concat (replicate 41 [0xE2, 0x94, 0x80])"

text \<open>Handler 0 is \<^verbatim>\<open>onDiscovery\<close>; 1, 2 and 3 are the callbacks it hands to its three GETs.\<close>

definition disc_onDiscovery :: "config \<Rightarrow> endpoint \<Rightarrow> client_response \<Rightarrow> console client_scheme \<Rightarrow> console client_scheme" where
  "disc_onDiscovery cfg ep res c =
     (let c1 = upd_cl_globals (serial_println (str ''Now querying each discovered resource...'' @ [10]) \<circ>
                 serial_println (10 # rule_line) \<circ> serial_print (response_body res) \<circ>
                 serial_println rule_line \<circ>
                 serial_println (10 # str ''[discovery] /.well-known/core response:'')) c;
          c2 = snd (client_get cfg ep temp_path (Some 1) None True c1);
          c3 = snd (client_get cfg ep humidity_path (Some 2) None True c2)
      in snd (client_get cfg ep uptime_path (Some 3) None True c3))"

definition disc_onTemp :: "client_response \<Rightarrow> console client_scheme \<Rightarrow> console client_scheme" where
  "disc_onTemp r = upd_cl_globals (serial_print (str ''[/temp]     '' @ cstr (response_body r) @ [10]))"

definition disc_onHumidity :: "client_response \<Rightarrow> console client_scheme \<Rightarrow> console client_scheme" where
  "disc_onHumidity r = upd_cl_globals (serial_print (str ''[/humidity] '' @ cstr (response_body r) @ [10]))"

definition disc_onUptime :: "client_response \<Rightarrow> console client_scheme \<Rightarrow> console client_scheme" where
  "disc_onUptime r = upd_cl_globals (serial_print (str ''[/uptime]   '' @ cstr (response_body r) @ str '' s'' @ [10]))"

definition disc_callbacks :: "config \<Rightarrow> bytes \<Rightarrow> console client_env" where
  "disc_callbacks cfg ip = \<lparr>
     ce_response = (\<lambda>h res ctx. if h = 0 then disc_onDiscovery cfg (loopback ip) res
                       else if h = 1 then disc_onTemp res else if h = 2 then disc_onHumidity res
                       else if h = 3 then disc_onUptime res else (\<lambda>c. c)),
     ce_timeout = (\<lambda>h ctx c. c),
     ce_discover = (\<lambda>h ep p ctx c. c)\<rparr>"

section \<open>\<^verbatim>\<open>setup\<close> and \<^verbatim>\<open>loop\<close>\<close>

definition disc_server_setup :: "config \<Rightarrow> 'w server_scheme \<Rightarrow> 'w server_scheme" where
  "disc_server_setup cfg s =
     (let s1 = snd (addResource cfg (Some temp_path) MethodGet (Some (AppHandler 0)) 0 True s);
          s2 = snd (addResource cfg (Some humidity_path) MethodGet (Some (AppHandler 1)) 0 True s1);
          s3 = snd (addResource cfg (Some uptime_path) MethodGet (Some (AppHandler 2)) 0 False s2);
          s4 = snd (setResourceType cfg temp_path (Some (str ''temperature'')) s3);
          s5 = snd (setResourceType cfg humidity_path (Some (str ''humidity'')) s4)
      in snd (server_begin cfg 5683 s5))"

definition disc_client_setup :: "config \<Rightarrow> endpoint \<Rightarrow> 'c client_scheme \<Rightarrow> 'c client_scheme" where
  "disc_client_setup cfg ep c = snd (client_get cfg ep well_known_core (Some 0) None True c)"

definition disc_boot :: "config \<Rightarrow> bytes \<Rightarrow> console node \<Rightarrow> bool" where
  "disc_boot cfg ip n \<longleftrightarrow>
     (\<exists>ts tc banner. n = \<lparr>nd_server = disc_server_setup cfg (new_server cfg ts),
        nd_client = disc_client_setup cfg (loopback ip) (new_client cfg tc (reset_pool cfg)),
        nd_globals = \<lparr>con_serial = banner\<rparr>\<rparr>)"

definition disc_loop :: "config \<Rightarrow> 'f float_ops \<Rightarrow> bytes \<Rightarrow> u32 \<times> u32 \<Rightarrow> console node \<Rightarrow> console node option" where
  "disc_loop cfg F ip = (\<lambda>(now, handlerMs) n. node_polls cfg (disc_env F handlerMs) (disc_callbacks cfg ip) now n)"

section \<open>What holds in every state of the sketch\<close>

definition disc_registered :: "(bytes \<times> u8 \<times> resource_handler \<times> nat \<times> bool \<times> bool) list" where
  "disc_registered = [(temp_path, MethodGet, AppHandler 0, 0, True, False),
     (humidity_path, MethodGet, AppHandler 1, 0, True, False), (uptime_path, MethodGet, AppHandler 2, 0, False, False)]"

definition disc_good :: "console node_view \<Rightarrow> bool" where
  "disc_good v \<longleftrightarrow> fst v \<in> {disc_registered, disc_registered @ [core_registration]} \<and> fst (snd v) = None"

lemma disc_server_view:
  assumes "4 \<le> max_resources cfg" "fst (app_view s) = []"
  shows "fst (app_view (disc_server_setup cfg s)) \<in> {disc_registered, disc_registered @ [core_registration]}"
  using assms
  by (simp add: disc_server_setup_def Let_def view_begin view_simps view_add board_paths disc_registered_def)

lemma disc_server_setup_inv: "valid_config cfg \<Longrightarrow> server_inv cfg s \<Longrightarrow> server_inv cfg (disc_server_setup cfg s)"
  by (simp add: disc_server_setup_def Let_def server_begin_inv setResourceType_keeps addResource_inv board_paths)

lemma disc_handlers_ok: "handlers_ok cfg (disc_env F ms)"
  by (simp add: handlers_ok_def disc_env_def disc_handleTemp_def disc_handleHumidity_def handleUptime_def)

lemma disc_callbacks_ok: "callbacks_ok cfg (disc_callbacks cfg ip)"
  by (auto simp: callbacks_ok_def disc_callbacks_def disc_onDiscovery_def disc_onTemp_def disc_onHumidity_def
      disc_onUptime_def Let_def intro: c_globals intro!: creach_then)

interpretation disc: node_sketch cfg "\<lambda>(now, handlerMs). disc_env F handlerMs" "disc_callbacks cfg ip"
    "\<lambda>(now, handlerMs). now" "\<lambda>i n. n" "disc_loop cfg F ip" "4 \<le> max_resources cfg"
    "disc_boot cfg ip" disc_good for cfg F ip
proof (unfold_locales, goal_cases)
  case (1 i n)
  then show ?case by (simp add: disc_loop_def split_def option.map_ident)
next
  case (2 i)
  then show ?case by (simp add: split_def disc_handlers_ok)
next
  case 3
  then show ?case by (rule disc_callbacks_ok)
next
  case (4 n i)
  then show ?case by simp
next
  case (5 n)
  have "1 \<le> max_token_len cfg" using 5(1) by (simp add: valid_config_def)
  with 5 show ?case
    by (auto simp: disc_boot_def node_inv_def node_server_def node_client_def disc_client_setup_def client_get_def
        intro!: disc_server_setup_inv sendRequest_inv new_server_inv new_client_inv wf_pool_reset)
next
  case (6 n)
  then obtain ts tc banner where n: "4 \<le> max_resources cfg" "n = \<lparr>nd_server = disc_server_setup cfg (new_server cfg ts),
      nd_client = disc_client_setup cfg (loopback ip) (new_client cfg tc (reset_pool cfg)),
      nd_globals = \<lparr>con_serial = banner\<rparr>\<rparr>"
    by (auto simp: disc_boot_def)
  have "fst (app_view (disc_server_setup cfg (new_server cfg ts))) \<in>
      {disc_registered, disc_registered @ [core_registration]}"
    by (rule disc_server_view [OF n(1)]) (simp add: app_view_def new_server_def)
  moreover have "cl_onTimeout (disc_client_setup cfg (loopback ip) (new_client cfg tc (reset_pool cfg))) = None"
    using cview_calls(1) [of cfg "loopback ip" well_known_core "Some 0" None True "new_client cfg tc (reset_pool cfg)"]
    by (simp add: disc_client_setup_def client_view_def new_client_def)
  ultimately show ?case
    by (simp add: n(2) disc_good_def node_view_def app_view_def client_view_def node_server_def node_client_def)
next
  case (7 s t i h u req res)
  then show ?case
    by (simp add: split_def disc_env_def disc_handleTemp_def disc_handleHumidity_def handleUptime_def)
next
  case 8
  then show ?case
    by (auto simp: callbacks_keep_def disc_callbacks_def disc_onDiscovery_def disc_onTemp_def disc_onHumidity_def
        disc_onUptime_def Let_def cview_simps disc_good_def)
next
  case (9 n i)
  then show ?case by simp
qed

text \<open>The resources' types come before their \<^verbatim>\<open>obs\<close> flags in the listing, and the listing fits.\<close>

definition disc_listing :: bytes where
  "disc_listing = str ''</temp>;rt='' @ [0x22] @ str ''temperature'' @ [0x22] @ str '';obs,</humidity>;rt='' @ [0x22] @
     str ''humidity'' @ [0x22] @ str '';obs,</uptime>''"

end
