(* ===== verification/App_Basic.thy ===== *)
theory App_Basic
  imports App_Client
begin

text \<open>
  The three smallest sketches: \<^verbatim>\<open>examples/BasicServer\<close>, \<^verbatim>\<open>examples/BasicClient\<close> and
  \<^verbatim>\<open>examples/ObserveClient\<close>. What they print while they join the network is the parameter
  \<open>banner\<close>. The address of the server, \<^verbatim>\<open>kServer\<close>, is a parameter.
\<close>

definition sensor_path :: bytes where
  "sensor_path = str ''/sensors/temp''"

section \<open>The server sketch\<close>

definition readTemperatureC :: "'f float_ops \<Rightarrow> u32 \<Rightarrow> 'f" where
  "readTemperatureC F ms =
     fl_add F (fl_lit F 215 1) (fl_div F (fl_lit F (uint (ms mod 1000)) 0) (fl_lit F 1000 0))"

text \<open>\<^verbatim>\<open>dtostrf\<close> with one digit after the point, as \<^verbatim>\<open>%.1f\<close>.\<close>

definition handleGetTemp :: "'f float_ops \<Rightarrow> u32 \<Rightarrow> response \<Rightarrow> 'w server_scheme \<Rightarrow> response \<times> 'w server_scheme" where
  "handleGetTemp F ms res s =
     (res\<lparr>res_code := Code_Content, res_contentFormat := CF_TextPlain,
          res_payload := Some (fl_show F 1 (readTemperatureC F ms))\<rparr>, s)"

definition basic_env :: "'f float_ops \<Rightarrow> u32 \<Rightarrow> console handler_env" where
  "basic_env F ms h ctx req res s = (if h = 0 then handleGetTemp F ms res s else (res, s))"

text \<open>\<open>None\<close>: the port could not be bound, and \<^verbatim>\<open>setup\<close> stays in its last loop.\<close>

definition basic_setup :: "config \<Rightarrow> console server_scheme \<Rightarrow> console server_scheme option" where
  "basic_setup cfg s =
     (let (ok, s1) = server_begin cfg 5683 s
      in if \<not> ok then None
         else
           let s2 = snd (addResource cfg (Some sensor_path) MethodGet (Some (AppHandler 0)) 0 False s1)
           in Some (upd_globals (serial_println (str ''PulseCoAP server ready: GET /sensors/temp'')) s2))"

definition basic_boot :: "config \<Rightarrow> console server_scheme \<Rightarrow> bool" where
  "basic_boot cfg s \<longleftrightarrow>
     (\<exists>t banner. basic_setup cfg (deploy \<lparr>con_serial = banner\<rparr> (new_server cfg t)) = Some s)"

text \<open>The input of a loop run: the clock as \<^verbatim>\<open>loop\<close> and as the sensor read it.\<close>

definition basic_loop :: "config \<Rightarrow> 'f float_ops \<Rightarrow> u32 \<times> u32 \<Rightarrow> console server_scheme \<Rightarrow> console server_scheme option" where
  "basic_loop cfg F = (\<lambda>(now, sensorMs) s. server_poll cfg (basic_env F sensorMs) now s)"

definition basic_registered :: "(bytes \<times> u8 \<times> resource_handler \<times> nat \<times> bool \<times> bool) list" where
  "basic_registered = [core_registration, (sensor_path, MethodGet, AppHandler 0, 0, False, False)]"

definition basic_good :: "(bytes \<times> u8 \<times> resource_handler \<times> nat \<times> bool \<times> bool) list \<times> console \<Rightarrow> bool" where
  "basic_good v \<longleftrightarrow> fst v = basic_registered"

lemma sensor_path_wf: "wf_path cfg sensor_path" "\<not> has_param sensor_path"
  by (simp_all add: sensor_path_def wf_path_def str_def colon_def slash_def)

lemma server_begin_ok: "fst (server_begin cfg port s) = transport_begin port (sv_transport s)"
  by (simp add: server_begin_def Let_def)

lemma basic_handlers_ok: "handlers_ok cfg (basic_env F ms)"
  by (simp add: handlers_ok_def basic_env_def handleGetTemp_def)

lemma basic_setup_view:
  assumes "2 \<le> max_resources cfg" "fst (app_view s) = []" "basic_setup cfg s = Some s'"
  shows "fst (app_view s') = basic_registered"
proof -
  have "transport_begin 5683 (sv_transport s)"
    using assms(3) server_begin_ok [of cfg 5683 s] by (auto simp: basic_setup_def Let_def split: prod.splits if_splits)
  then have "fst (app_view (snd (server_begin cfg 5683 s))) = [core_registration]"
    using assms(1,2) by (simp add: view_begin)
  then show ?thesis
    using assms(1,3)
    by (auto simp: basic_setup_def Let_def split_def view_simps view_add sensor_path_wf basic_registered_def
        split: if_splits)
qed

lemma basic_setup_inv:
  assumes "valid_config cfg" "server_inv cfg s" "basic_setup cfg s = Some s'"
  shows "server_inv cfg s'"
proof -
  have "s' = upd_globals (serial_println (str ''PulseCoAP server ready: GET /sensors/temp''))
      (snd (addResource cfg (Some sensor_path) MethodGet (Some (AppHandler 0)) 0 False (snd (server_begin cfg 5683 s))))"
    using assms(3) by (simp add: basic_setup_def Let_def split_def split: if_splits)
  moreover have "server_inv cfg
      (snd (addResource cfg (Some sensor_path) MethodGet (Some (AppHandler 0)) 0 False (snd (server_begin cfg 5683 s))))"
    using assms(1,2) by (simp add: addResource_inv server_begin_inv sensor_path_wf)
  ultimately show ?thesis by (simp add: server_inv_def)
qed

interpretation basic: server_sketch cfg "\<lambda>(now, sensorMs). basic_env F sensorMs" "\<lambda>(now, sensorMs). now"
    "\<lambda>i s. s" "basic_loop cfg F" "2 \<le> max_resources cfg" "basic_boot cfg" basic_good
    for cfg F
proof (unfold_locales, goal_cases)
  case (1 i s)
  then show ?case by (simp add: basic_loop_def split_def option.map_ident)
next
  case (2 i)
  then show ?case by (simp add: split_def basic_handlers_ok)
next
  case (3 s i)
  then show ?case by simp
next
  case (4 s)
  then obtain t banner where s: "basic_setup cfg (deploy \<lparr>con_serial = banner\<rparr> (new_server cfg t)) = Some s"
    by (auto simp: basic_boot_def)
  have "server_inv cfg (deploy \<lparr>con_serial = banner\<rparr> (new_server cfg t))" using 4(1) by (simp add: new_server_inv)
  from basic_setup_inv [OF 4(1) this s] show ?case .
next
  case (5 s)
  then obtain t banner where s: "2 \<le> max_resources cfg"
    "basic_setup cfg (deploy \<lparr>con_serial = banner\<rparr> (new_server cfg t)) = Some s"
    by (auto simp: basic_boot_def)
  show ?case unfolding basic_good_def by (rule basic_setup_view [OF s(1) _ s(2)]) (simp add: view_simps)
next
  case (6 s i h u req res)
  then show ?case by (simp add: split_def basic_env_def handleGetTemp_def)
next
  case (7 s i)
  then show ?case by simp
qed

section \<open>The client sketch\<close>

record basic_client = console +
  bc_lastRequestAt :: u32

definition hex_digit :: "nat \<Rightarrow> u8" where
  "hex_digit n = of_nat (if n < 10 then 0x30 + n else 0x37 + n)"

text \<open>\<^verbatim>\<open>Serial.print(byte, HEX)\<close> prints no leading zero.\<close>

definition hex_text :: "u8 \<Rightarrow> bytes" where
  "hex_text b = (if b < 16 then [] else [hex_digit (unat b div 16)]) @ [hex_digit (unat b mod 16)]"

definition onTempResponse :: "client_response \<Rightarrow> basic_client client_scheme \<Rightarrow> basic_client client_scheme" where
  "onTempResponse res =
     upd_cl_globals (serial_println [] \<circ> serial_print (response_body res) \<circ> serial_print (str ''): '') \<circ>
       serial_print (hex_text (cr_code res)) \<circ> serial_print (str ''Temp response (code 0x''))"

definition onRequestTimeout :: "basic_client client_scheme \<Rightarrow> basic_client client_scheme" where
  "onRequestTimeout = upd_cl_globals (serial_println (str ''Request timed out (no response after all retries)''))"

definition basic_callbacks :: "basic_client client_env" where
  "basic_callbacks = \<lparr>
     ce_response = (\<lambda>h res ctx. if h = 0 then onTempResponse res else (\<lambda>c. c)),
     ce_timeout = (\<lambda>h ctx. if h = 0 then onRequestTimeout else (\<lambda>c. c)),
     ce_discover = (\<lambda>h ep p ctx c. c)\<rparr>"

definition basic_client_setup :: "'c client_scheme \<Rightarrow> 'c client_scheme" where
  "basic_client_setup c = setTimeoutHandler (Some 0) c"

text \<open>The rest of \<^verbatim>\<open>loop\<close>, which reads the clock twice more.\<close>

definition basic_client_after :: "config \<Rightarrow> endpoint \<Rightarrow> u32 \<Rightarrow> u32 \<Rightarrow> basic_client client_scheme \<Rightarrow>
    basic_client client_scheme" where
  "basic_client_after cfg kServer checkMs setMs c =
     (if 5000 < checkMs - bc_lastRequestAt (cl_globals c) then
        let c1 = upd_cl_globals (bc_lastRequestAt_update (\<lambda>_. setMs)) c
        in snd (client_get cfg kServer sensor_path (Some 0) None True c1)
      else c)"

definition basic_client_loop :: "config \<Rightarrow> endpoint \<Rightarrow> u32 \<times> u32 \<times> u32 \<Rightarrow> basic_client client_scheme \<Rightarrow>
    basic_client client_scheme option" where
  "basic_client_loop cfg kServer = (\<lambda>(now, checkMs, setMs) c.
     (case client_poll cfg basic_callbacks now c of
        None \<Rightarrow> None
      | Some c1 \<Rightarrow> Some (basic_client_after cfg kServer checkMs setMs c1)))"

definition basic_client_boot :: "config \<Rightarrow> basic_client client_scheme \<Rightarrow> bool" where
  "basic_client_boot cfg c \<longleftrightarrow>
     (\<exists>t banner. c = basic_client_setup (install \<lparr>con_serial = banner, bc_lastRequestAt = 0\<rparr>
        (new_client cfg t (reset_pool cfg))))"

lemma basic_callbacks_ok: "callbacks_ok cfg basic_callbacks"
  by (auto simp: callbacks_ok_def basic_callbacks_def onTempResponse_def onRequestTimeout_def intro: c_globals)

lemma view_timeout [cview_simps]: "client_view (setTimeoutHandler h c) = (h, snd (client_view c))"
  by (simp add: setTimeoutHandler_def client_view_def)

lemma setTimeoutHandler_inv: "client_inv cfg c \<Longrightarrow> client_inv cfg (setTimeoutHandler h c)"
  by (simp add: setTimeoutHandler_def client_inv_def)

interpretation basic_client: client_sketch cfg basic_callbacks "\<lambda>(now, checkMs, setMs). now"
    "\<lambda>(now, checkMs, setMs). basic_client_after cfg ep checkMs setMs" "basic_client_loop cfg ep"
    "basic_client_boot cfg" "\<lambda>v. fst v = Some 0" for cfg ep
proof (unfold_locales, goal_cases)
  case (1 i c)
  then show ?case by (simp add: basic_client_loop_def split_def option.case_eq_if map_option_case)
next
  case 2
  then show ?case by (rule basic_callbacks_ok)
next
  case (3 c i)
  then show ?case by (simp add: split_def basic_client_after_def Let_def creach_then)
next
  case (4 c)
  then show ?case
    by (auto simp: basic_client_boot_def basic_client_setup_def
        intro!: setTimeoutHandler_inv new_client_inv wf_pool_reset)
next
  case (5 c)
  then show ?case by (auto simp: basic_client_boot_def basic_client_setup_def cview_simps)
next
  case 6
  then show ?case
    by (auto simp: callbacks_keep_def basic_callbacks_def onTempResponse_def onRequestTimeout_def cview_simps)
next
  case (7 c i)
  then show ?case by (simp add: split_def basic_client_after_def Let_def cview_simps)
qed

section \<open>The observing sketch\<close>

definition onTempUpdate :: "client_response \<Rightarrow> console client_scheme \<Rightarrow> console client_scheme" where
  "onTempUpdate res =
     upd_cl_globals (serial_println [] \<circ> serial_print (response_body res) \<circ> serial_print (str ''Temp update: ''))"

definition observe_callbacks :: "console client_env" where
  "observe_callbacks = \<lparr>ce_response = (\<lambda>h res ctx. if h = 0 then onTempUpdate res else (\<lambda>c. c)),
     ce_timeout = (\<lambda>h ctx c. c), ce_discover = (\<lambda>h ep p ctx c. c)\<rparr>"

definition observe_setup :: "config \<Rightarrow> endpoint \<Rightarrow> console client_scheme \<Rightarrow> console client_scheme" where
  "observe_setup cfg kServer c =
     (let (ok, c1) = client_observe cfg kServer sensor_path (Some 0) None c
      in if ok then upd_cl_globals (serial_println (str ''Observe registration sent for /sensors/temp'')) c1 else c1)"

definition observe_loop :: "config \<Rightarrow> u32 \<Rightarrow> console client_scheme \<Rightarrow> console client_scheme option" where
  "observe_loop cfg now c = client_poll cfg observe_callbacks now c"

definition observe_boot :: "config \<Rightarrow> endpoint \<Rightarrow> console client_scheme \<Rightarrow> bool" where
  "observe_boot cfg kServer c \<longleftrightarrow>
     (\<exists>t banner. c = observe_setup cfg kServer (install \<lparr>con_serial = banner\<rparr> (new_client cfg t (reset_pool cfg))))"

lemma observe_callbacks_ok: "callbacks_ok cfg observe_callbacks"
  by (auto simp: callbacks_ok_def observe_callbacks_def onTempUpdate_def intro: c_globals)

lemma observe_setup_reach: "(client_api cfg)\<^sup>*\<^sup>* c (observe_setup cfg ep c)"
  by (simp add: observe_setup_def Let_def split_def creach_then)

interpretation observe: client_sketch cfg observe_callbacks "\<lambda>now. now" "\<lambda>now c. c" "observe_loop cfg"
    "observe_boot cfg ep" "\<lambda>v. fst v = None" for cfg ep
proof (unfold_locales, goal_cases)
  case (1 i c)
  then show ?case by (simp add: observe_loop_def option.map_ident)
next
  case 2
  then show ?case by (rule observe_callbacks_ok)
next
  case (3 c i)
  then show ?case by simp
next
  case (4 c)
  then show ?case
    by (auto simp: observe_boot_def valid_config_def
        intro!: client_api_reach_inv [OF observe_setup_reach] new_client_inv wf_pool_reset)
next
  case (5 c)
  then show ?case
    by (auto simp: observe_boot_def observe_setup_def Let_def split_def cview_simps)
      (simp_all add: client_view_def new_client_def)
next
  case 6
  then show ?case by (auto simp: callbacks_keep_def observe_callbacks_def onTempUpdate_def cview_simps)
next
  case (7 c i)
  then show ?case by simp
qed

end
