(* ===== verification/App_Blocks.thy ===== *)
theory App_Blocks
  imports App_Node
begin

text \<open>
  The two block-wise sketches, \<^verbatim>\<open>examples/BlockwiseDownload\<close> (a node) and
  \<^verbatim>\<open>examples/BlockwiseUpload\<close> (a client). What they print before the first request is the
  parameter \<open>banner\<close>; the delays of ten seconds once they are done only show in the clock
  readings. The download names a content format that the library does not have: the parameter \<open>json\<close>.
\<close>

section \<open>The download\<close>

definition quoted :: "bytes \<Rightarrow> bytes" where
  "quoted t = 0x22 # t @ [0x22]"

definition member :: "char list \<Rightarrow> bytes \<Rightarrow> bytes" where
  "member name v = quoted (str name) @ str '':'' @ v"

definition kLargePayload :: bytes where
  "kLargePayload =
     str ''{'' @ member ''version'' (quoted (str ''1.2.3'')) @ str '','' @
     member ''build'' (quoted (str ''2026-09-12'')) @ str '','' @
     member ''board'' (quoted (str ''ESP32-WROOM-32'')) @ str '','' @
     member ''features'' (str ''['' @ quoted (str ''coap'') @ str '','' @ quoted (str ''observe'') @ str '','' @
       quoted (str ''blockwise'') @ str '','' @ quoted (str ''ipv6'') @ str '']'') @ str '','' @
     member ''limits'' (str ''{'' @ member ''maxMsgSize'' (str ''256'') @ str '','' @
       member ''maxResources'' (str ''8'') @ str '','' @ member ''maxObservers'' (str ''4'') @ str '','' @
       member ''maxTransactions'' (str ''4'') @ str ''}'') @ str '','' @
     member ''transport'' (quoted (str ''ArduinoUDP'')) @ str '','' @
     member ''uptime'' (str ''0'') @ str '','' @
     member ''status'' (quoted (str ''ok'')) @ str '','' @
     member ''description'' (quoted (str ''PulseCoAP BlockwiseDownload demo payload '' @ [0xE2, 0x80, 0x94] @
       str '' this string is intentionally long so the library must split '' @
       str ''the response into multiple Block2 fragments for reassembly.'')) @ str ''}''"

record download_globals = console +
  dg_fetchDone :: bool

definition handleFirmwareInfo :: "u16 \<Rightarrow> response \<Rightarrow> 'w server_scheme \<Rightarrow> response \<times> 'w server_scheme" where
  "handleFirmwareInfo json res s =
     (res\<lparr>res_code := Code_Content, res_contentFormat := json, res_payload := Some (cstr kLargePayload)\<rparr>, s)"

definition download_env :: "u16 \<Rightarrow> download_globals handler_env" where
  "download_env json h ctx req res s = (if h = 0 then handleFirmwareInfo json res s else (res, s))"

definition onFirmwareInfo :: "client_response \<Rightarrow> download_globals client_scheme \<Rightarrow> download_globals client_scheme" where
  "onFirmwareInfo res =
     (let body = response_body res; preview = take 128 body
      in upd_cl_globals (dg_fetchDone_update (\<lambda>_. True) \<circ>
           serial_println (if 128 < length body then str ''...'' else []) \<circ> serial_print preview \<circ>
           serial_print (str ''Preview: '') \<circ>
           serial_print (10 # str ''Client: received '' @ decimal (int (length body)) @
             str '' bytes (reassembled from blocks)'' @ [10])))"

definition download_callbacks :: "download_globals client_env" where
  "download_callbacks = \<lparr>ce_response = (\<lambda>h res ctx. if h = 0 then onFirmwareInfo res else (\<lambda>c. c)),
     ce_timeout = (\<lambda>h ctx c. c), ce_discover = (\<lambda>h ep p ctx c. c)\<rparr>"

definition firmware_path :: bytes where
  "firmware_path = str ''/firmware/info''"

definition download_server_setup :: "config \<Rightarrow> 'w server_scheme \<Rightarrow> 'w server_scheme" where
  "download_server_setup cfg s =
     (let s1 = snd (addResource cfg (Some firmware_path) MethodGet (Some (AppHandler 0)) 0 False s)
      in snd (server_begin cfg 5683 s1))"

definition download_client_setup :: "config \<Rightarrow> endpoint \<Rightarrow> 'c client_scheme \<Rightarrow> 'c client_scheme" where
  "download_client_setup cfg ep c = snd (client_get cfg ep firmware_path (Some 0) None True c)"

definition download_boot :: "config \<Rightarrow> bytes \<Rightarrow> download_globals node \<Rightarrow> bool" where
  "download_boot cfg ip n \<longleftrightarrow>
     (\<exists>ts tc banner. n = \<lparr>nd_server = download_server_setup cfg (new_server cfg ts),
        nd_client = download_client_setup cfg (loopback ip) (new_client cfg tc (reset_pool cfg)),
        nd_globals = \<lparr>con_serial = banner, dg_fetchDone = False\<rparr>\<rparr>)"

definition download_loop :: "config \<Rightarrow> u16 \<Rightarrow> u32 \<Rightarrow> download_globals node \<Rightarrow> download_globals node option" where
  "download_loop cfg json now n = node_polls cfg (download_env json) download_callbacks now n"

definition download_registered :: "(bytes \<times> u8 \<times> resource_handler \<times> nat \<times> bool \<times> bool) list" where
  "download_registered = [(firmware_path, MethodGet, AppHandler 0, 0, False, False)]"

definition download_good :: "download_globals node_view \<Rightarrow> bool" where
  "download_good v \<longleftrightarrow> fst v \<in> {download_registered, download_registered @ [core_registration]} \<and> fst (snd v) = None"

lemma firmware_path_wf: "wf_path cfg firmware_path" "\<not> has_param firmware_path"
  by (simp_all add: firmware_path_def wf_path_def str_def colon_def slash_def)

lemma download_handlers_ok: "handlers_ok cfg (download_env json)"
  by (simp add: handlers_ok_def download_env_def handleFirmwareInfo_def)

lemma download_callbacks_ok: "callbacks_ok cfg download_callbacks"
  by (auto simp: callbacks_ok_def download_callbacks_def onFirmwareInfo_def Let_def intro: c_globals)

lemma download_server_view:
  assumes "2 \<le> max_resources cfg" "fst (app_view s) = []"
  shows "fst (app_view (download_server_setup cfg s)) \<in> {download_registered, download_registered @ [core_registration]}"
  using assms by (simp add: download_server_setup_def Let_def view_begin view_add firmware_path_wf download_registered_def)

lemma download_setup_inv:
  assumes "valid_config cfg"
  shows "server_inv cfg s \<Longrightarrow> server_inv cfg (download_server_setup cfg s)"
    and "client_inv cfg c \<Longrightarrow> client_inv cfg (download_client_setup cfg ep c)"
  using assms
  by (simp_all add: download_server_setup_def Let_def server_begin_inv addResource_inv firmware_path_wf
      download_client_setup_def client_get_def sendRequest_inv valid_config_def)

interpretation download: node_sketch cfg "\<lambda>_. download_env json" download_callbacks "\<lambda>now. now" "\<lambda>_ n. n"
    "download_loop cfg json" "2 \<le> max_resources cfg" "download_boot cfg ip" download_good for cfg json ip
proof (unfold_locales, goal_cases)
  case (1 now n)
  then show ?case by (simp add: download_loop_def option.map_ident)
next
  case 2
  then show ?case by (rule download_handlers_ok)
next
  case 3
  then show ?case by (rule download_callbacks_ok)
next
  case (4 n)
  then show ?case by simp
next
  case (5 n)
  then show ?case
    by (auto simp: download_boot_def node_inv_def node_server_def node_client_def
        intro!: download_setup_inv new_server_inv new_client_inv wf_pool_reset)
next
  case (6 n)
  then obtain ts tc g where n: "2 \<le> max_resources cfg" "n = \<lparr>nd_server = download_server_setup cfg (new_server cfg ts),
      nd_client = download_client_setup cfg (loopback ip) (new_client cfg tc (reset_pool cfg)), nd_globals = g\<rparr>"
    by (auto simp: download_boot_def)
  have "fst (app_view (download_server_setup cfg (new_server cfg ts))) \<in>
      {download_registered, download_registered @ [core_registration]}"
    by (rule download_server_view [OF n(1)]) (simp add: app_view_def new_server_def)
  moreover have "cl_onTimeout (download_client_setup cfg (loopback ip) (new_client cfg tc (reset_pool cfg))) = None"
    using cview_calls(1) [of cfg "loopback ip" firmware_path "Some 0" None True "new_client cfg tc (reset_pool cfg)"]
    by (simp add: download_client_setup_def client_view_def new_client_def)
  ultimately show ?case
    by (simp add: n(2) download_good_def node_view_def app_view_def client_view_def node_server_def node_client_def)
next
  case (7 s t now h u req res)
  then show ?case by (simp add: download_env_def handleFirmwareInfo_def)
next
  case 8
  then show ?case
    by (auto simp: callbacks_keep_def download_callbacks_def onFirmwareInfo_def Let_def cview_simps download_good_def)
next
  case (9 n)
  then show ?case by simp
qed

section \<open>The upload\<close>

record upload_globals = console +
  ug_payload :: bytes
  ug_uploadDone :: bool

definition kPayloadLen :: nat where
  "kPayloadLen = 512"

definition buildPayload :: "bytes \<Rightarrow> bytes" where
  "buildPayload p = fold (\<lambda>i p. p[i := 0x41 + of_nat (i mod 26)]) [0..<kPayloadLen] p"

definition upload_onResponse :: "client_response \<Rightarrow> upload_globals client_scheme \<Rightarrow> upload_globals client_scheme" where
  "upload_onResponse res =
     upd_cl_globals (ug_uploadDone_update (\<lambda>_. True) \<circ>
       serial_println (if cr_code res = Code_Changed \<or> cr_code res = Code_Created
         then str ''Upload complete '' @ [0xE2, 0x80, 0x94] @ str '' server accepted all blocks.''
         else str ''Upload failed '' @ [0xE2, 0x80, 0x94] @ str '' unexpected response code.'') \<circ>
       serial_print (str ''[onResponse] Server replied: '' @ code_text (cr_code res) @ [10]))"

definition upload_callbacks :: "upload_globals client_env" where
  "upload_callbacks = \<lparr>ce_response = (\<lambda>h res ctx. if h = 0 then upload_onResponse res else (\<lambda>c. c)),
     ce_timeout = (\<lambda>h ctx c. c), ce_discover = (\<lambda>h ep p ctx c. c)\<rparr>"

definition upload_serverEp :: endpoint where
  "upload_serverEp = empty_endpoint\<lparr>ep_ip := [192, 168, 1, 8], ep_port := 5683\<rparr>"

definition upload_setup :: "config \<Rightarrow> upload_globals client_scheme \<Rightarrow> upload_globals client_scheme" where
  "upload_setup cfg c =
     (let c1 = upd_cl_globals (serial_print (str ''Uploading '' @ decimal (int kPayloadLen) @
                 str '' bytes to /config ...'' @ [10]) \<circ> ug_payload_update buildPayload) c
      in snd (client_put cfg upload_serverEp (str ''/config'') (ug_payload (cl_globals c1)) CF_TextPlain
               (Some 0) None True c1))"

definition upload_loop :: "config \<Rightarrow> u32 \<Rightarrow> upload_globals client_scheme \<Rightarrow> upload_globals client_scheme option" where
  "upload_loop cfg now c = client_poll cfg upload_callbacks now c"

definition upload_boot :: "config \<Rightarrow> upload_globals client_scheme \<Rightarrow> bool" where
  "upload_boot cfg c \<longleftrightarrow>
     (\<exists>t banner. c = upload_setup cfg (install \<lparr>con_serial = banner, ug_payload = replicate kPayloadLen 0,
        ug_uploadDone = False\<rparr> (new_client cfg t (reset_pool cfg))))"

lemma buildPayload_prefix:
  "n \<le> length p \<Longrightarrow> fold (\<lambda>i p. p[i := f i]) [0..<n] p = map f [0..<n] @ drop n p" for p :: bytes
proof (induction n)
  case (Suc n)
  then have "drop n p = p ! n # drop (Suc n) p" by (simp add: Cons_nth_drop_Suc)
  with Suc show ?case by (simp add: list_update_append)
qed simp

text \<open>The alphabet over and over.\<close>

lemma buildPayload_letters:
  assumes "length p = kPayloadLen"
  shows "length (buildPayload p) = kPayloadLen"
    and "i < kPayloadLen \<Longrightarrow> buildPayload p ! i = 0x41 + of_nat (i mod 26)"
  using assms by (simp_all add: buildPayload_def buildPayload_prefix)

lemma upload_callbacks_ok: "callbacks_ok cfg upload_callbacks"
  by (auto simp: callbacks_ok_def upload_callbacks_def upload_onResponse_def intro: c_globals)

lemma upload_setup_reach: "(client_api cfg)\<^sup>*\<^sup>* c (upload_setup cfg c)"
  by (simp add: upload_setup_def Let_def creach_then)

definition upload_good :: "nat option \<times> upload_globals \<Rightarrow> bool" where
  "upload_good v \<longleftrightarrow> fst v = None \<and> ug_payload (snd v) = map (\<lambda>i. 0x41 + of_nat (i mod 26)) [0..<kPayloadLen]"

interpretation upload: client_sketch cfg upload_callbacks "\<lambda>now. now" "\<lambda>now c. c" "upload_loop cfg"
    "upload_boot cfg" upload_good for cfg
proof (unfold_locales, goal_cases)
  case (1 i c)
  then show ?case by (simp add: upload_loop_def option.map_ident)
next
  case 2
  then show ?case by (rule upload_callbacks_ok)
next
  case (3 c i)
  then show ?case by simp
next
  case (4 c)
  then show ?case
    by (auto simp: upload_boot_def valid_config_def
        intro!: client_api_reach_inv [OF upload_setup_reach] new_client_inv wf_pool_reset)
next
  case (5 c)
  then show ?case
    by (auto simp: upload_boot_def upload_setup_def Let_def cview_simps)
      (simp add: client_view_def new_client_def upload_good_def serial_print_def buildPayload_def buildPayload_prefix)
next
  case 6
  then show ?case
    by (auto simp: callbacks_keep_def upload_callbacks_def upload_onResponse_def cview_simps upload_good_def
        serial_print_def serial_println_def)
next
  case (7 c i)
  then show ?case by simp
qed

end
