(* ===== verification/App_Blocks_Props.thy ===== *)
theory App_Blocks_Props
  imports App_Blocks Props_Limits
begin

section \<open>The download does not start\<close>

lemma payload_size: "length (cstr kLargePayload) = 427" "cstr kLargePayload \<noteq> []"
  by code_simp+

lemma piggyback_oversized:
  assumes "p \<noteq> []" "max_msg_size cfg < 5 + length p"
  shows "sv_transport (sendPiggybackedResponse cfg m to code (Some p) fmt obs s) = sv_transport s"
  using assms oversized_payload [OF assms]
  by (simp add: sendPiggybackedResponse_def reply_message_def Let_def split_def send_encoded_def)

lemma reply_oversized:
  assumes "res_payload res = Some p" "p \<noteq> []" "max_msg_size cfg < 5 + length p" "block_szx cfg \<le> 6"
    and "enable_blockwise cfg \<longrightarrow> findOption Opt_Block2 m = None \<and> max_msg_size cfg < unat (shift_size (block_szx cfg)) + 5"
  shows "sv_transport (reply_plain cfg m from obs res s) = sv_transport s"
proof -
  note whole = piggyback_oversized [OF assms(2,3)]
  show ?thesis
    using assms whole block_size_pos [OF assms(4)] sendBlock2Response_oversized [of "block_szx cfg" p cfg]
    by (auto simp: reply_plain_def Let_def)
qed

lemma isMethodCode_get: "isMethodCode Code_Get"
  by code_simp

text \<open>
  C20: the block-wise download of the sketch never gets an answer, in a build with room for its
  resource. Its payload does not fit a
  message; when block-wise transfer is off, as it is for the library however the sketch defines the
  switch, or a block does not fit a message either, then in every state of the sketch a GET for
  the payload is taken by the server, and nothing is sent.
\<close>

theorem download_unanswered:
  assumes "valid_config cfg" "sketch_runs (download_boot cfg ip) (download_loop cfg json) node_traffic n"
    and "max_msg_size cfg < 5 + length (cstr kLargePayload)"
    and "enable_blockwise cfg \<longrightarrow> findOption Opt_Block2 m = None \<and> max_msg_size cfg < unat (shift_size (block_szx cfg)) + 5"
    and "decode cfg data = Decoded m" "msg_type m = Confirmable \<or> msg_type m = NonConfirmable" "msg_code m = Code_Get"
    and "joinUriPath m (max_uri_path_len cfg) = Some p" "cstr p = firmware_path" "data \<noteq> []"
    and room: "2 \<le> max_resources cfg"
  shows "\<exists>s'. handle_datagram cfg (download_env json) from data (node_server n) = Some s' \<and>
    tp_sent (sv_transport s') = tp_sent (sv_transport (node_server n))"
proof -
  let ?s = "node_server n"
  have s: "server_inv cfg ?s" "fst (app_view ?s) \<in> {download_registered, download_registered @ [core_registration]}"
    using download.runs_good [OF assms(1) room assms(2)] by (simp_all add: node_inv_def download_good_def node_view_def)
  have cfg: "list_all (wf_resource cfg) (sv_resources ?s)" "max_path_params cfg \<le> 255" "block_szx cfg \<le> 6"
    using s(1) assms(1) by (simp_all add: server_inv_def valid_config_def)
  have regs: "list_all (\<lambda>(p, ms, h, u, ob, t). \<not> t) (fst (app_view ?s))" "0 < length (fst (app_view ?s))"
    "fst (app_view ?s) ! 0 = (firmware_path, MethodGet, AppHandler 0, 0, False, False)"
    "first_slot (\<lambda>r. fst r = firmware_path) (fst (app_view ?s)) = Some 0"
    using s(2) by (auto simp: download_registered_def core_registration_def)
  have found: "findResource cfg (sv_resources ?s) firmware_path True = Found 0 []"
    using findResource_route [OF cfg(1,2)] route_registered [OF refl regs(1)] regs(4) by simp
  have zero: "rs_methods (sv_resources ?s ! 0) = MethodGet"
    using registered_nth(2) [OF refl regs(2)] regs(3) by (simp add: registration_def)
  obtain obs s1 where obs: "handle_observe 0 m from ?s = (obs, s1)" by fastforce
  then have s1: "app_view s1 = app_view ?s" "sv_transport s1 = sv_transport ?s"
    using view_request(7) [of 0 m "from" ?s] by (auto simp: handle_observe_def Let_def split: option.splits if_splits)
  obtain d s2 where d: "reserve_deferred from m s1 = (d, s2)" by fastforce
  then have s2: "app_view s2 = app_view ?s" "sv_transport s2 = sv_transport ?s"
    using s1 view_request(6) [of "from" m s1] by (auto simp: reserve_deferred_def split: option.splits)
  have "rs_handler (sv_resources s2 ! 0) = AppHandler 0"
    using registered_nth(2) [OF s2(1) [THEN arg_cong, where f = fst] regs(2)] regs(3) by (simp add: registration_def)
  then have run: "run_handler cfg (download_env json) (sv_resources s2 ! 0) (make_request m from d None []) s2 =
      handleFirmwareInfo json default_response s2"
    by (simp add: run_handler_def download_env_def)
  have "sv_transport (handle_plain cfg (download_env json) 0 [] m from obs s1) = sv_transport ?s"
    using reply_oversized [OF _ payload_size(2) assms(3) cfg(3) assms(4),
        of "default_response\<lparr>res_code := Code_Content, res_contentFormat := json, res_payload := Some (cstr kLargePayload)\<rparr>"
          "from" obs "unreserve_deferred d s2"] s2(2)
    by (simp add: handle_plain_def d run handleFirmwareInfo_def Let_def frame_simps)
      (simp add: default_response_def unreserve_deferred_def split: option.split)
  moreover have "handle_datagram cfg (download_env json) from data ?s =
      Some (handle_plain cfg (download_env json) 0 [] m from obs s1)"
    using assms(5-10) found zero obs isMethodCode_get
    by (auto simp: handle_datagram_def handleRequest_def requested_mask_def code_defs MethodGet_def)
  ultimately show ?thesis by simp
qed

definition firmware_get :: bytes where
  "firmware_get = [0x40, 0x01, 0x12, 0x34, 0xB8] @ str ''firmware'' @ [0x04] @ str ''info''"

definition download_node :: "download_globals node" where
  "download_node = \<lparr>nd_server = download_server_setup default_config (new_server default_config idle_network),
     nd_client = download_client_setup default_config (loopback [10, 0, 0, 7])
       (new_client default_config quiet_network (reset_pool default_config)),
     nd_globals = \<lparr>con_serial = [], dg_fetchDone = False\<rparr>\<rparr>"

theorem download_unanswered_witness:
  "\<exists>s'. handle_datagram default_config (download_env 50) client_a firmware_get (node_server download_node) = Some s' \<and>
     tp_sent (sv_transport s') = []"
proof -
  have run: "sketch_runs (download_boot default_config [10, 0, 0, 7]) (download_loop default_config 50)
      node_traffic download_node"
    by (rule run_setup) (auto simp: download_boot_def download_node_def)
  have "case decode default_config firmware_get of
      Decoded m \<Rightarrow> msg_type m = Confirmable \<and> msg_code m = Code_Get \<and>
        (case joinUriPath m (max_uri_path_len default_config) of Some p \<Rightarrow> cstr p = firmware_path | None \<Rightarrow> False)
    | _ \<Rightarrow> False"
    by code_simp
  then obtain m p where m: "decode default_config firmware_get = Decoded m" "msg_type m = Confirmable"
    "msg_code m = Code_Get" "joinUriPath m (max_uri_path_len default_config) = Some p" "cstr p = firmware_path"
    by (auto split: decode_result.splits option.splits)
  have cfg: "max_msg_size default_config < 5 + length (cstr kLargePayload)" "\<not> enable_blockwise default_config"
    by (simp_all add: payload_size(1) default_config_def)
  have ne: "firmware_get \<noteq> []" by (simp add: firmware_get_def)
  have sent: "tp_sent (sv_transport (node_server download_node)) = []" by code_simp
  from download_unanswered [OF default_config_valid run cfg(1) _ m(1) disjI1 [OF m(2)] m(3-5) ne default_room(1), of client_a] cfg(2) sent
  show ?thesis by simp
qed

end
