(* ===== verification/App_Posix.thy ===== *)
theory App_Posix
  imports App_Client
begin

text \<open>
  The program of \<^verbatim>\<open>examples/PosixClient\<close>: one GET, then polls until the answer or until fifteen
  seconds have passed. \<^verbatim>\<open>getaddrinfo\<close> is the parameter \<open>resolve\<close>, which gives the address as the
  word in which it lies in \<^verbatim>\<open>sin_addr\<close>; the readings of the clock and the datagrams that arrive
  before each poll are the input of the loop.
\<close>

section \<open>The program\<close>

record posix_globals = console +
  px_done :: bool

definition posix_onResponse :: "client_response \<Rightarrow> posix_globals client_scheme \<Rightarrow> posix_globals client_scheme" where
  "posix_onResponse res =
     upd_cl_globals (px_done_update (\<lambda>_. True) \<circ>
       serial_print (if response_body res \<noteq> []
         then str ''  payload: '' @ cstr (response_body res) @ [10] else []) \<circ>
       serial_print (str ''  code:    '' @ code_text (cr_code res) @ [10]))"

definition posix_onTimeout :: "posix_globals client_scheme \<Rightarrow> posix_globals client_scheme" where
  "posix_onTimeout =
     upd_cl_globals (px_done_update (\<lambda>_. True) \<circ>
       serial_print (str ''  timeout '' @ [0xE2, 0x80, 0x94] @ str '' no response within 15 s'' @ [10]))"

definition posix_callbacks :: "posix_globals client_env" where
  "posix_callbacks = \<lparr>
     ce_response = (\<lambda>h res ctx. if h = 0 then posix_onResponse res else (\<lambda>c. c)),
     ce_timeout = (\<lambda>h ctx. if h = 0 then posix_onTimeout else (\<lambda>c. c)),
     ce_discover = (\<lambda>h ep p ctx c. c)\<rparr>"

definition arrive :: "(endpoint \<times> bytes) list \<Rightarrow> 'c client_scheme \<Rightarrow> 'c client_scheme" where
  "arrive ds c = c\<lparr>cl_transport := (cl_transport c)\<lparr>tp_inbox := tp_inbox (cl_transport c) @ ds\<rparr>\<rparr>"

text \<open>
  One entry per test of the loop: the clock read by the test, the clock read for the poll, and
  what has arrived by then. The result says whether the loop has ended. The clock is read by
  the test only if \<^verbatim>\<open>done\<close> is not set.
\<close>

fun posix_spin :: "config \<Rightarrow> u32 \<Rightarrow> (u32 \<times> u32 \<times> (endpoint \<times> bytes) list) list \<Rightarrow> posix_globals client_scheme \<Rightarrow>
    (bool \<times> posix_globals client_scheme) option" where
  "posix_spin cfg start [] c = Some (False, c)"
| "posix_spin cfg start ((testMs, pollMs, ds) # inputs) c =
     (if px_done (cl_globals c) \<or> \<not> (testMs - start < 15000) then Some (True, c)
      else case client_poll cfg posix_callbacks pollMs (arrive ds c) of
             None \<Rightarrow> None
           | Some c1 \<Rightarrow> posix_spin cfg start inputs c1)"

definition address_of :: "u32 \<Rightarrow> endpoint" where
  "address_of raw = empty_endpoint\<lparr>ep_ip := [ucast raw, ucast (drop_bit 8 raw), ucast (drop_bit 16 raw),
     ucast (drop_bit 24 raw)], ep_port := 5683\<rparr>"

text \<open>The client between the request and the loop.\<close>

definition posix_request :: "config \<Rightarrow> bytes \<Rightarrow> bytes \<Rightarrow> u32 \<Rightarrow> transport \<Rightarrow> posix_globals client_scheme" where
  "posix_request cfg host path raw t =
     (let g = \<lparr>con_serial = str ''GET coap://'' @ host @ str '':5683'' @ path @ [10], px_done = False\<rparr>;
          c = setTimeoutHandler (Some 0) (install g (new_client cfg t (reset_pool cfg)))
      in snd (client_get cfg (address_of raw) path (Some 0) None True c))"

text \<open>
  The exit code with what was printed on the two streams, or that the program is still in its
  loop at the end of the input.
\<close>

datatype posix_result = Exited (exit_code: int) (stdout: bytes) (stderr: bytes) | Spinning

definition posix_host :: "bytes list \<Rightarrow> bytes" where
  "posix_host args = (if 0 < length args then args ! 0 else str ''coap.me'')"

definition posix_path :: "bytes list \<Rightarrow> bytes" where
  "posix_path args = (if 1 < length args then args ! 1 else str ''/hello'')"

definition posix_main :: "config \<Rightarrow> (bytes \<Rightarrow> u32 option) \<Rightarrow> bytes list \<Rightarrow> transport \<Rightarrow> u32 \<Rightarrow>
    (u32 \<times> u32 \<times> (endpoint \<times> bytes) list) list \<Rightarrow> posix_result option" where
  "posix_main cfg resolve args t start inputs =
     (let host = posix_host args; path = posix_path args
      in case resolve host of
           None \<Rightarrow> Some (Exited 1 [] (str ''error: DNS lookup failed for '' @ [0x27] @ host @ [0x27, 10]))
         | Some raw \<Rightarrow>
             if \<not> transport_begin 0 t then
               Some (Exited 1 (str ''GET coap://'' @ host @ str '':5683'' @ path @ [10])
                 (str ''error: failed to open UDP socket'' @ [10]))
             else
               (case posix_spin cfg start inputs (posix_request cfg host path raw t) of
                  None \<Rightarrow> None
                | Some (ended, c) \<Rightarrow> Some (if ended then Exited 0 (con_serial (cl_globals c)) [] else Spinning)))"

section \<open>The loop is safe\<close>

lemma posix_callbacks_ok: "callbacks_ok cfg posix_callbacks"
  by (auto simp: callbacks_ok_def posix_callbacks_def posix_onResponse_def posix_onTimeout_def intro: c_globals)

lemma arrive_inv [simp]: "client_inv cfg (arrive ds c) = client_inv cfg c"
  by (simp add: arrive_def client_inv_def)

lemma posix_request_inv: "valid_config cfg \<Longrightarrow> client_inv cfg (posix_request cfg host path raw t)"
  by (rule client_api_reach_inv [where c = "install _ (new_client cfg t (reset_pool cfg))"])
    (auto simp: posix_request_def Let_def valid_config_def intro!: new_client_inv wf_pool_reset creach_then)

lemma posix_spin_returns:
  "valid_config cfg \<Longrightarrow> client_inv cfg c \<Longrightarrow> \<exists>ended c'. posix_spin cfg start inputs c = Some (ended, c')"
proof (induction inputs arbitrary: c)
  case (Cons i inputs)
  obtain testMs pollMs ds where i: "i = (testMs, pollMs, ds)" by (cases i)
  have "client_inv cfg (arrive ds c)" using Cons.prems(2) by simp
  then obtain c1 where c1: "client_poll cfg posix_callbacks pollMs (arrive ds c) = Some c1" "client_inv cfg c1"
    using client_poll_inv [OF posix_callbacks_ok _ Cons.prems(1)] by blast
  with Cons.IH [OF Cons.prems(1) c1(2)] show ?case by (simp add: i) blast
qed auto

section \<open>The loop ends\<close>

text \<open>
  The inputs of a loop whose clock is right: true times in milliseconds, of which the program
  sees the low 32 bits. The loop sleeps at least five milliseconds after each poll.
\<close>

fun clocked :: "nat \<Rightarrow> (nat \<times> nat \<times> (endpoint \<times> bytes) list) list \<Rightarrow> bool" where
  "clocked e [] \<longleftrightarrow> True"
| "clocked e ((t, p, ds) # xs) \<longleftrightarrow> e \<le> t \<and> t \<le> p \<and> clocked (p + 5) xs"

definition reading :: "nat \<times> nat \<times> (endpoint \<times> bytes) list \<Rightarrow> u32 \<times> u32 \<times> (endpoint \<times> bytes) list" where
  "reading = (\<lambda>(t, p, ds). (of_nat t, of_nat p, ds))"

lemma elapsed:
  assumes "start \<le> t" "t < start + 2 ^ 32"
  shows "unat ((of_nat t :: u32) - of_nat start) = t - start"
proof -
  have "(of_nat t :: u32) - of_nat start = of_nat (t - start)" using assms(1) by (simp add: of_nat_diff)
  moreover have "t - start < 2 ^ 32" using assms by linarith
  then have "unat (of_nat (t - start) :: u32) = t - start" by (simp add: unat_of_nat take_bit_nat_eq_self)
  ultimately show ?thesis by metis
qed

lemma in_time:
  assumes "start \<le> t" "t < start + 2 ^ 32"
  shows "(of_nat t :: u32) - of_nat start < 15000 \<longleftrightarrow> t < start + 15000"
  using elapsed [OF assms] assms(1) by (auto simp: word_less_nat_alt)

lemma posix_spin_ends:
  assumes "posix_spin cfg (of_nat start) (map reading xs) c = Some (ended, c')"
    and "clocked (start + 5 * k) xs" "\<forall>(t, p, ds) \<in> set xs. t < start + 2 ^ 32"
    and "3000 < k + length xs" "k \<le> 3000"
  shows ended
  using assms
proof (induction xs arbitrary: c k)
  case (Cons x xs)
  obtain t p ds where x: "x = (t, p, ds)" by (cases x)
  have t: "start + 5 * k \<le> t" "t < start + 2 ^ 32" "t \<le> p" and rest: "clocked (p + 5) xs"
    using Cons.prems(2,3) by (simp_all add: x)
  note r = in_time [of start t]
  show ?case
  proof (cases "px_done (cl_globals c) \<or> start + 15000 \<le> t")
    case True
    then show ?thesis using Cons.prems(1) r t by (auto simp: x reading_def split: if_splits)
  next
    case False
    then have "k < 3000" using t(1) by simp
    obtain c1 where "posix_spin cfg (of_nat start) (map reading xs) c1 = Some (ended, c')"
      using Cons.prems(1) False r t by (auto simp: x reading_def split: option.splits if_splits)
    moreover have "clocked (start + 5 * Suc k) xs"
      using rest t by (cases xs) auto
    ultimately show ?thesis
      using Cons.IH [of c1 "Suc k"] Cons.prems \<open>k < 3000\<close> by (simp add: x)
  qed
qed simp

section \<open>Silence\<close>

text \<open>
  A transaction that the loop cannot give up by the time \<open>e\<close>: one that has been resent as often
  as allowed waits for longer than the loop runs.
\<close>

definition patient :: "config \<Rightarrow> nat \<Rightarrow> nat \<Rightarrow> transaction \<Rightarrow> bool" where
  "patient cfg start e t \<longleftrightarrow> wf_tx cfg t \<and>
     (in_flight t \<and> tx_retriesSent t \<noteq> 0 \<longrightarrow>
        (\<exists>w. start \<le> w \<and> w \<le> e \<and> tx_nextRetryAtMs t = of_nat w + tx_currentTimeoutMs t))"

definition outlasts :: "config \<Rightarrow> bool" where
  "outlasts cfg \<longleftrightarrow> backoff_fits cfg \<and> 0 < max_retransmit cfg \<and>
     16000 \<le> unat (ack_timeout_ms cfg) * 2 ^ max_retransmit cfg"

lemma default_outlasts: "outlasts default_config"
  by (simp add: outlasts_def default_backoff_fits) (simp add: default_config_def)

lemma patient_later: "patient cfg start e t \<Longrightarrow> e \<le> e' \<Longrightarrow> patient cfg start e' t"
  unfolding patient_def by (meson order_trans)

lemma patient_tick:
  assumes cfg: "outlasts cfg" and t: "patient cfg start e t"
    and now: "e \<le> n" "start \<le> n" "n < start + 16000"
  shows "patient cfg start n (fst (tick_tx cfg (of_nat n) t))" "snd (tick_tx cfg (of_nat n) t) \<noteq> GaveUp"
proof -
  let ?t = "tick_tx cfg (of_nat n) t"
  have m: "max_retransmit cfg \<le> 255" using cfg by (simp add: outlasts_def backoff_fits_def)
  have wf: "wf_tx cfg (fst ?t)" using t wf_tx_tick [OF _ m] by (simp add: patient_def)
  show keep: "snd ?t \<noteq> GaveUp"
  proof
    assume gave: "snd ?t = GaveUp"
    then have fl: "in_flight t" "retry_due (of_nat n) t" "\<not> unat (tx_retriesSent t) < max_retransmit cfg"
      by (auto simp: tick_tx_def split: if_splits)
    then have r: "unat (tx_retriesSent t) = max_retransmit cfg"
      and tmo: "tx_currentTimeoutMs t =
        computeInitialTimeoutMs cfg (ucast (tx_messageId t)) * 2 ^ unat (tx_retriesSent t)"
      using t by (auto simp: patient_def wf_tx_def)
    have "tx_retriesSent t \<noteq> 0" using r cfg by (auto simp: outlasts_def)
    then obtain w where w: "start \<le> w" "w \<le> e" "tx_nextRetryAtMs t = of_nat w + tx_currentTimeoutMs t"
      using t fl by (auto simp: patient_def)
    define b where "b = first_timeout cfg (tx_messageId t)"
    define B where "B = b * 2 ^ max_retransmit cfg"
    have b: "B < 2 ^ 31" "unat (ack_timeout_ms cfg) \<le> b"
      using first_timeout_bounds [of cfg] cfg computeInitialTimeoutMs_range [of cfg "ucast (tx_messageId t)"]
      by (simp_all add: B_def b_def outlasts_def first_timeout_def word_le_nat_alt)
    have "tx_currentTimeoutMs t = of_nat B" by (simp add: tmo r B_def b_def first_timeout_def)
    then have D: "tx_nextRetryAtMs t = of_nat (w + B)" by (simp add: w(3))
    have big: "16000 \<le> B"
      using cfg b(2) unfolding B_def by (meson le_trans mult_le_mono1 outlasts_def)
    have "w + B < n + 2 ^ 31" "n < w + B + 2 ^ 31" using w b(1) now big by linarith+
    from retry_due_time [OF D this] fl(2) have "w + B \<le> n" by simp
    with w(1) big now(3) show False by linarith
  qed
  show "patient cfg start n (fst ?t)"
  proof (cases "snd ?t")
    case Quiet
    then have "fst ?t = t" by (auto simp: tick_tx_def split: if_splits)
    with patient_later [OF t now(1)] show ?thesis by simp
  next
    case Resent
    then have "fst ?t = t\<lparr>tx_retriesSent := tx_retriesSent t + 1,
        tx_currentTimeoutMs := tx_currentTimeoutMs t * 2,
        tx_nextRetryAtMs := of_nat n + tx_currentTimeoutMs t * 2\<rparr>"
      by (auto simp: tick_tx_def split: if_splits)
    with wf now(2) show ?thesis by (auto simp: patient_def)
  qed (use keep in simp)
qed

definition silent :: "config \<Rightarrow> nat \<Rightarrow> nat \<Rightarrow> 'c client_scheme \<Rightarrow> bool" where
  "silent cfg start e c \<longleftrightarrow> tp_inbox (cl_transport c) = [] \<and> list_all (patient cfg start e) (cl_pool c)"

lemma patient_poll:
  assumes cfg: "outlasts cfg" and c: "silent cfg start e c"
    and now: "e \<le> n" "start \<le> n" "n < start + 16000"
    and env: "callbacks_ok cfg env" and poll: "client_poll cfg env (of_nat n) c = Some c'"
  shows "silent cfg start n c'" "client_view c' = client_view c"
proof -
  let ?c1 = "expire_discovers cfg (of_nat n) (c\<lparr>cl_lastNowMs := of_nat n\<rparr>)"
  define I where "I d \<longleftrightarrow> silent cfg start n d \<and> client_view d = client_view c" for d :: "'a client_scheme"
  have "transport_receive (max_msg_size cfg) (cl_transport c) = ((empty_endpoint, []), cl_transport c)"
    using c by (simp add: silent_def transport_receive_def)
  then have c': "c' = tx_tick cfg cl_pool put_cl_pool clientResend (clientTimeout env) (of_nat n) ?c1"
    using poll by (simp add: client_poll_def poll_timers_def)
  have "list_all (patient cfg start n) (cl_pool c)"
    using c patient_later [OF _ now(1)] by (auto simp: silent_def list_all_iff)
  then have start: "I ?c1" using c by (simp add: I_def silent_def expire_discovers_def cview_simps)
  have step: "snd (tick_tx cfg (of_nat n) (cl_pool d ! i)) \<noteq> GaveUp"
    "patient cfg start n (fst (tick_tx cfg (of_nat n) (cl_pool d ! i)))"
    if "I d" "i < length (cl_pool d)" for i and d :: "'a client_scheme"
    using patient_tick [OF cfg _ le_refl now(2,3), of "cl_pool d ! i"] that
    by (auto simp: I_def silent_def list_all_length)
  have "I c'"
    unfolding c'
  proof (rule pool_owner.tick_inv [OF client_pool_owner [OF env], where I = I], goal_cases)
    case 1
    show ?case by (rule start)
  next
    case (2 i d t)
    with step [OF 2(1,2)] show ?case
      by (auto simp: I_def silent_def clientResend_def put_cl_pool_def cl_send_def Let_def split_def cview_simps
          intro!: list_all_update)
  next
    case (3 i d t)
    with step(1) [OF 3(1,2)] show ?case by simp
  qed
  then show "silent cfg start n c'" "client_view c' = client_view c" by (simp_all add: I_def)
qed

lemma posix_spin_silent:
  assumes cfg: "valid_config cfg" "outlasts cfg"
  shows "silent cfg start e c \<Longrightarrow> client_inv cfg c \<Longrightarrow> clocked e xs \<Longrightarrow> start \<le> e \<Longrightarrow>
    \<forall>(t, p, ds) \<in> set xs. ds = [] \<and> t < start + 2 ^ 32 \<and> p \<le> t + 1000 \<Longrightarrow>
    posix_spin cfg (of_nat start) (map reading xs) c = Some (ended, c') \<Longrightarrow> cl_globals c' = cl_globals c"
proof (induction xs arbitrary: c e)
  case (Cons x xs)
  obtain t p where x: "x = (t, p, [])" using Cons.prems(5) by (cases x) auto
  have t: "e \<le> t" "t \<le> p" "p \<le> t + 1000" "start \<le> t" "t < start + 2 ^ 32" and rest: "clocked (p + 5) xs"
    using Cons.prems by (simp_all add: x)
  show ?case
  proof (cases "px_done (cl_globals c) \<or> start + 15000 \<le> t")
    case True
    then show ?thesis using Cons.prems(6) in_time [OF t(4,5)] by (auto simp: x reading_def split: if_splits)
  next
    case False
    have "arrive [] c = c" by (simp add: arrive_def)
    then obtain c1 where c1: "client_poll cfg posix_callbacks (of_nat p) c = Some c1"
      "posix_spin cfg (of_nat start) (map reading xs) c1 = Some (ended, c')"
      using Cons.prems(6) False in_time [OF t(4,5)] by (auto simp: x reading_def split: option.splits if_splits)
    have p: "e \<le> p" "start \<le> p" "p < start + 16000" using t False by auto
    note s = patient_poll [OF cfg(2) Cons.prems(1) p posix_callbacks_ok c1(1)]
    have "client_inv cfg c1"
      using client_poll_inv [OF posix_callbacks_ok Cons.prems(2) cfg(1), of "of_nat p"] c1(1) by simp
    moreover have "clocked p xs" using rest by (cases xs) auto
    ultimately have "cl_globals c' = cl_globals c1"
      using Cons.IH [OF s(1)] p(2) Cons.prems(5) c1(2) by (simp add: x)
    with s(2) show ?thesis by (simp add: client_view_def)
  qed
qed simp

text \<open>The request of the program has not been resent when the loop starts.\<close>

lemma request_unsent:
  assumes "list_all (\<lambda>t. tx_retriesSent t = 0) (cl_pool c)"
  shows "list_all (\<lambda>t. tx_retriesSent t = 0) (cl_pool (snd (client_get cfg srv path h ctx con c)))"
    "tp_inbox (cl_transport (snd (client_get cfg srv path h ctx con c))) = tp_inbox (cl_transport c)"
proof -
  have "list_all (\<lambda>t. tx_retriesSent t = 0) (snd (tx_start cfg r mid tok msg now (cl_pool c)))" for r mid tok msg now
    using assms by (auto simp: tx_start_def claim_slot_def fill_transaction_def Let_def intro!: list_all_update
        split: option.splits)
  then show "list_all (\<lambda>t. tx_retriesSent t = 0) (cl_pool (snd (client_get cfg srv path h ctx con c)))"
    "tp_inbox (cl_transport (snd (client_get cfg srv path h ctx con c))) = tp_inbox (cl_transport c)"
    using assms
    by (auto simp: client_get_def sendRequest_def allocatePending_def nextToken_def cl_track_def cl_send_def
        Let_def split_def frame_simps split: option.splits)
qed

lemma posix_request_silent:
  assumes "valid_config cfg" "tp_inbox t = []"
  shows "silent cfg start start (posix_request cfg host path raw t)"
proof -
  let ?c = "posix_request cfg host path raw t"
  define c0 where "c0 = setTimeoutHandler (Some 0) (install \<lparr>con_serial = str ''GET coap://'' @ host @ str '':5683'' @
    path @ [10], px_done = False\<rparr> (new_client cfg t (reset_pool cfg)))"
  have c: "?c = snd (client_get cfg (address_of raw) path (Some 0) None True c0)"
    by (simp add: posix_request_def c0_def Let_def)
  have c0: "list_all (\<lambda>t. tx_retriesSent t = 0) (cl_pool c0)" "tp_inbox (cl_transport c0) = []"
    using assms(2) by (simp_all add: c0_def setTimeoutHandler_def new_client_def reset_pool_def empty_transaction_def
        list_all_iff)
  have "list_all (\<lambda>t. tx_retriesSent t = 0) (cl_pool ?c)" "tp_inbox (cl_transport ?c) = []"
    unfolding c using c0 by (simp_all add: request_unsent)
  moreover have "list_all (wf_tx cfg) (cl_pool ?c)"
    using posix_request_inv [OF assms(1)] by (simp add: client_inv_def wf_pool_def)
  ultimately show ?thesis by (simp add: silent_def patient_def list_all_iff)
qed

lemma posix_request_globals:
  "cl_globals (posix_request cfg host path raw t) =
     \<lparr>con_serial = str ''GET coap://'' @ host @ str '':5683'' @ path @ [10], px_done = False\<rparr>"
proof -
  have "client_view (posix_request cfg host path raw t) =
      (Some 0, \<lparr>con_serial = str ''GET coap://'' @ host @ str '':5683'' @ path @ [10], px_done = False\<rparr>)"
    by (simp add: posix_request_def Let_def cview_simps) (simp add: client_view_def setTimeoutHandler_def)
  then show ?thesis by (simp add: client_view_def)
qed

text \<open>A loop that never falls behind: tests every five milliseconds.\<close>

lemma clocked_steps: "clocked e (map (\<lambda>i. (5 * i, 5 * i, ds i)) [a..<b])" if "e \<le> 5 * a"
  using that
proof (induction "b - a" arbitrary: a e)
  case (Suc k)
  then have "[a..<b] = a # [Suc a..<b]" by (simp add: upt_conv_Cons)
  with Suc show ?case by simp
qed simp

section \<open>What the program does\<close>

text \<open>
  C17: the program ends. Whatever the network delivers and however the host name resolves, when
  the clock does not go back and does not come round during the run, the loop ends within 3001
  tests, and the program with an exit code.
\<close>

theorem posix_client_ends:
  assumes "valid_config cfg" "clocked start xs" "\<forall>(t, p, ds) \<in> set xs. t < start + 2 ^ 32" "3000 < length xs"
  shows "\<exists>code out err. posix_main cfg resolve args tr (of_nat start) (map reading xs) = Some (Exited code out err)"
proof -
  have ends: "\<exists>c'. posix_spin cfg (of_nat start) (map reading xs) (posix_request cfg host path raw tr) = Some (True, c')"
    for host path raw
  proof -
    obtain ended c' where c': "posix_spin cfg (of_nat start) (map reading xs)
        (posix_request cfg host path raw tr) = Some (ended, c')"
      using posix_spin_returns [OF assms(1) posix_request_inv [OF assms(1)]] by blast
    have ended by (rule posix_spin_ends [OF c', where k = 0]) (use assms(2-4) in auto)
    with c' show ?thesis by simp
  qed
  show ?thesis
  proof (cases "resolve (posix_host args)")
    case (Some raw)
    then show ?thesis using ends [of "posix_host args" "posix_path args" raw] by (auto simp: posix_main_def Let_def)
  qed (simp add: posix_main_def Let_def)
qed

text \<open>
  C18: a server that does not answer is met with silence. When nothing arrives and each poll
  follows its test within a second, the program exits with code 0 and has printed nothing but its
  first line: its timeout handler, which is to report that there was no response within 15
  seconds, is never called, since the last retransmission waits for longer than that.
\<close>

theorem posix_silence:
  assumes "valid_config cfg" "outlasts cfg" "tp_inbox tr = []" "transport_begin 0 tr"
    and "resolve (posix_host args) = Some raw"
    and "clocked start xs" "3000 < length xs"
    and "\<forall>(t, p, ds) \<in> set xs. ds = [] \<and> t < start + 2 ^ 32 \<and> p \<le> t + 1000"
  shows "posix_main cfg resolve args tr (of_nat start) (map reading xs) =
    Some (Exited 0 (str ''GET coap://'' @ posix_host args @ str '':5683'' @ posix_path args @ [10]) [])"
proof -
  let ?c = "posix_request cfg (posix_host args) (posix_path args) raw tr"
  note inv = posix_request_inv [OF assms(1), of "posix_host args" "posix_path args" raw tr]
  obtain ended c' where c': "posix_spin cfg (of_nat start) (map reading xs) ?c = Some (ended, c')"
    using posix_spin_returns [OF assms(1) inv] by blast
  have ended by (rule posix_spin_ends [OF c', where k = 0]) (use assms(6-8) in auto)
  moreover have "cl_globals c' = cl_globals ?c"
    by (rule posix_spin_silent [OF assms(1,2) posix_request_silent [OF assms(1,3)] inv assms(6) le_refl assms(8) c'])
  ultimately show ?thesis
    using assms(4,5) c' by (simp add: posix_main_def Let_def posix_request_globals)
qed

definition posix_wire :: transport where
  "posix_wire = \<lparr>tp_begin_ok = True, tp_send_results = [], tp_sent = [], tp_inbox = []\<rparr>"

text \<open>Tests every five milliseconds from the start of the clock, and nothing arrives.\<close>

definition idle_ticks :: "(nat \<times> nat \<times> (endpoint \<times> bytes) list) list" where
  "idle_ticks = map (\<lambda>i. (5 * i, 5 * i, [])) [0..<3001]"

lemma idle_ticks: "clocked 0 idle_ticks" "length idle_ticks = 3001"
  "\<forall>(t, p, ds) \<in> set idle_ticks. ds = [] \<and> t < 0 + 2 ^ 32 \<and> p \<le> t + 1000"
  by (auto simp: idle_ticks_def clocked_steps)

theorem posix_client_ends_witness:
  "\<exists>code out err. posix_main default_config (\<lambda>host. Some 0x0801A8C0) [str ''board'', str ''/temp''] posix_wire (of_nat 0)
     (map reading idle_ticks) = Some (Exited code out err)"
  using posix_client_ends [OF default_config_valid idle_ticks(1)] idle_ticks(2,3) by fastforce

theorem posix_silence_witness:
  "posix_main default_config (\<lambda>host. Some 0x0801A8C0) [str ''board'', str ''/temp''] posix_wire (of_nat 0)
     (map reading idle_ticks) = Some (Exited 0 (str ''GET coap://board:5683/temp'' @ [10]) [])"
proof -
  have "tp_inbox posix_wire = []" "transport_begin 0 posix_wire"
    by (simp_all add: posix_wire_def transport_begin_def)
  from posix_silence [OF default_config_valid default_outlasts this, where args = "[str ''board'', str ''/temp'']"
      and resolve = "\<lambda>host. Some 0x0801A8C0" and start = 0 and xs = idle_ticks, OF _ idle_ticks(1) _ idle_ticks(3)]
  show ?thesis using idle_ticks(2) by (simp add: posix_host_def posix_path_def str_def)
qed

end
