(* ===== verification/Spec2Isabelle.thy ===== *)
theory Spec2Isabelle
  imports Props_Codec Props_Reliability Props_Lifecycle Props_Client Props_Transport Coap_End_To_End Coap_Recovery Coap_Dtls_Client
    Props_Network Props_Limits App_Peer_Props App_Deferred_Props App_Sensors_Props App_Multi_Props App_Discovery
    App_Basic App_Blocks_Props App_Posix
begin

text \<open>
  PulseCoAP is a CoAP (RFC 7252) library for microcontrollers without a heap: every table is a
  fixed array of slots. This development models the library under \<^verbatim>\<open>src/src/\<close> and the programs
  under \<^verbatim>\<open>src/examples/\<close> that use it, and proves their properties. The names of library files
  below are relative to \<^verbatim>\<open>src/src/\<close> and less their common start \<^verbatim>\<open>PulseCoAP\<close>.

  The parts and how they interact. A \<^verbatim>\<open>Message\<close> is encoded into and decoded from a datagram.
  \<^verbatim>\<open>Server\<close> and \<^verbatim>\<open>Client\<close> each own a \<^verbatim>\<open>Transport\<close>, a \<^verbatim>\<open>TransactionPool\<close> that retransmits
  Confirmable messages, and their own slot tables. The application calls \<^verbatim>\<open>poll\<close> in a loop: it
  takes one datagram from the transport, decodes it, acts on it, runs resource handlers or
  response callbacks, and ticks the pool, whose own callbacks resend or report a timeout. Block-wise
  transfers (RFC 7959) and observations (RFC 7641) are state of the two roles.

  Theories and code.
  \<^item> \<open>Coap_Prelude\<close>: machine types, C strings, slot tables. \<open>Coap_Config\<close>: \<^verbatim>\<open>Config.h\<close>, the
    compile-time knobs as a record. \<open>Coap_Types\<close>: \<^verbatim>\<open>Types.h\<close>.
  \<^item> \<open>Coap_Transport\<close>: \<^verbatim>\<open>Transport.h\<close>, endpoints and the transport as the protocol code sees it.
    The network chooses its inbox and the results of its sends.
  \<^item> \<open>Coap_Message\<close>, \<open>Coap_Codec\<close>, \<open>Props_Codec\<close>: \<^verbatim>\<open>Message.h/.cpp\<close>. The decoder reads through
    checked accesses, so that an access outside the datagram is a result of its own.
  \<^item> \<open>Coap_Uri\<close>: \<^verbatim>\<open>Uri.h\<close>. \<open>Coap_Blockwise\<close>: \<^verbatim>\<open>Blockwise.h\<close>.
  \<^item> \<open>Coap_Transaction\<close>, \<open>Coap_Reliability\<close>, \<open>Props_Reliability\<close>: \<^verbatim>\<open>Transaction.h/.cpp\<close>. The tick
    is generic in the owner of the pool, as its callbacks act on the owner.
  \<^item> \<open>Coap_Server\<close> is \<^verbatim>\<open>Server.h/.cpp\<close>; \<open>Coap_Server_Inv\<close> and \<open>Coap_Server_Safety\<close> prove its
    invariant, \<open>Coap_Routing\<close> lookup and discovery, \<open>Coap_Exchange\<close> what it puts on the wire,
    \<open>Coap_Observe\<close> the observer table, \<open>Coap_Transfer\<close> bodies in several exchanges;
    \<open>Props_Server\<close> and \<open>Props_Lifecycle\<close> hold its properties.
  \<^item> \<open>Coap_Client\<close> is \<^verbatim>\<open>Client.h/.cpp\<close>; \<open>Coap_Client_Inv\<close> proves its invariant,
    \<open>Coap_Client_Request\<close> what goes out, \<open>Coap_Client_Response\<close> what it makes of answers,
    \<open>Coap_Client_Upload\<close> that uploads end; \<open>Props_Client\<close> holds its properties.
  \<^item> \<open>Coap_Adapter\<close> is the contract of a transport adapter; \<open>Coap_Lwip\<close>
    (\<^verbatim>\<open>TransportLwIP.h\<close>), \<open>Coap_Posix\<close> (\<^verbatim>\<open>TransportPosix.h\<close>) and \<open>Coap_Arduino\<close>
    (\<^verbatim>\<open>TransportArduinoUDP.h\<close>) meet it; \<open>Coap_Dtls\<close>, \<open>Coap_Dtls_Inv\<close> and \<open>Coap_Dtls_Session\<close>
    are the DTLS adapter (\<^verbatim>\<open>TransportDTLS.h\<close>); \<open>Props_Transport\<close> holds their properties.
  \<^item> \<open>Coap_End_To_End\<close> and this theory put a client and a server together, \<open>Coap_Dtls_Client\<close> a
    client and the DTLS adapter; \<open>Coap_Recovery\<close> and \<open>Props_Network\<close> put losses, copies and pauses
    between them, \<open>Props_Limits\<close> has what fixed sizes and narrow counters do to them.
  \<^item> The programs: \<open>App_Console\<close> is what they use of the C library and of \<^verbatim>\<open>Serial\<close>;
    \<open>App_Common\<close>, \<open>App_Client\<close> and \<open>App_Node\<close> prove once what holds of every program that runs
    a server, a client, or both. \<open>App_Peer\<close> is \<^verbatim>\<open>TwoDevicePeerToPeer_Server\<close> and
    \<^verbatim>\<open>TwoDevicePeerToPeer_Client\<close>, \<open>App_Deferred\<close> \<^verbatim>\<open>DeferredResponse\<close>, \<open>App_Sensors\<close>
    \<^verbatim>\<open>URITemplates\<close>, \<open>App_Multi\<close> \<^verbatim>\<open>MultiObserve\<close>, \<open>App_Discovery\<close> \<^verbatim>\<open>ResourceDiscovery\<close>,
    \<open>App_Basic\<close> \<^verbatim>\<open>BasicServer\<close>, \<^verbatim>\<open>BasicClient\<close> and \<^verbatim>\<open>ObserveClient\<close>, \<open>App_Blocks\<close>
    \<^verbatim>\<open>BlockwiseDownload\<close> and \<^verbatim>\<open>BlockwiseUpload\<close>, \<open>App_Posix\<close> \<^verbatim>\<open>PosixClient\<close>; the theories
    \<open>App_..._Props\<close> hold their properties.

  How state and operations correspond. A class is a record with the fields of the class, a slot
  array a list of the length the knob sets, an index or handle a number; an operation keeps its
  name (with a prefix where two classes share one) and takes and returns the state. A wrapped
  counter or clock is a word of the source's width. A fixed buffer with a length field is the
  list of its used bytes. A null pointer is \<open>None\<close>. An operation that the source may end in an
  access out of bounds returns an option or a value of its own for it, and the safety
  properties say when it does not. \<^verbatim>\<open>millis()\<close> is the argument \<open>nowMs\<close> or \<open>now\<close>, read once
  per call.

  Interfaces. \<open>slot_table\<close> is the contract of every claimed and released table, interpreted on
  the transactions, observers, deferred requests, block-wise sessions and pending requests;
  \<open>pool_owner\<close> is what the tick needs of the server or client that owns the pool;
  \<open>transport_adapter\<close> and its extension \<open>datagram_buffer\<close> are what the protocol code needs of
  an adapter and what a buffering adapter adds. \<open>server_sketch\<close>, \<open>client_sketch\<close> and
  \<open>node_sketch\<close> are what a program gives of its \<^verbatim>\<open>setup\<close>, \<^verbatim>\<open>loop\<close>, handlers and callbacks so that
  its loop returns from every state that it reaches over any network and an invariant of its
  globals holds there; each program is an interpretation of one of them.

  Programs. The globals of a program are the extension of the record of its server or client,
  which the library never touches; in a program with both, the record \<open>node\<close> has them, and
  whichever of the two runs has them as its extension. The input of one run of \<^verbatim>\<open>loop\<close> is the
  readings of the clock in it, one for each call of \<^verbatim>\<open>millis()\<close> that may give another value.
  Between two runs the network puts any datagrams in front of the program. What is printed is
  part of the globals, what \<^verbatim>\<open>setup\<close> prints before anything else is a parameter. Floating-point
  arithmetic and its text are the parameter \<open>float_ops\<close>, of which the proofs use nothing.

  Parameters. Application handlers and callbacks are functions of the state (\<open>handler_env\<close>,
  \<open>client_env\<close>); the properties assume that they act through the public calls only and do not
  re-enter \<^verbatim>\<open>poll\<close>. Path arguments are C strings; null ones are modelled where the source
  tests for them. The kernel's, lwIP's and the Arduino core's results are arguments or fields.
  mbedTLS is a record of functions whose runs are trees over the adapter's own callbacks, with
  finitely many callbacks on every branch, so a property proved for every such record holds
  whatever the library computes.

  What the lemmas show. Codec: the encoder implements the wire format and never overruns, the
  decoder never reads outside, both are inverse to each other. Transactions: the pool invariant
  and the retransmission schedule in true time across the wrap of the clock. Server: every
  reachable state keeps its tables in bounds and its observers distinct, lookup implements
  routing on segments, each request has one reply of a known shape, uploads are reassembled,
  downloads sliced, notifications reach exactly the observers. Client: the same for its tables,
  requests on the wire, responses delivered once, uploads end. Adapters: they receive as the
  seam, the ring is a queue, replies find the sender, DTLS sessions are distinct and deliver only
  what was decrypted. Together: an exchange, an upload and a download from one end to the other.
  Programs: their loops run on, what they register stays registered, the LED and the sensors answer
  as the requests say, the POSIX client ends.
  The properties that state a defect of the code say so.

  Bounds and fuel. No definition uses fuel: the loops recurse on what is left of their input,
  and those that do not shrink it structurally (the decoder's option loop, the template
  matcher, the path segments, the bytes of an unsigned option) have a measure. The knobs are arguments; \<open>valid_config\<close> says what the code needs of
  them and the defaults of the header satisfy it. A sketch needs room in the resource table for what
  its \<^verbatim>\<open>setup\<close> registers: \<open>room\<close> in the interfaces, a premise of its properties.

  Not modelled, and why. \<^verbatim>\<open>DtlsServer\<close> and \<^verbatim>\<open>DtlsClient\<close> are written against another interface
  (\<^verbatim>\<open>server.loop\<close>, \<^verbatim>\<open>res.setCode\<close>, a transport made of a UDP object and a role) than the one in the
  repository, so there is no code that their calls could mean. Of the other programs, joining the
  network and the pauses of \<^verbatim>\<open>setup\<close> are left out, and where a program does not compile for a
  detail (a shift of a scoped enumeration, a content format that does not exist) the evident
  meaning or a parameter stands in its place. The tests and documentation have no logic of
  their own; the umbrella header only includes. Of the adapters, the calls into the kernel, lwIP and mbedTLS
  that only set an option (\<^verbatim>\<open>SO_REUSEADDR\<close>, \<^verbatim>\<open>IPV6_V6ONLY\<close>, the random generator, the receive
  hook) have no counterpart, and concurrent execution of lwIP's callback with \<^verbatim>\<open>receive\<close> is not
  considered: the source forbids it. The trace switch adds no code.

  Not proved: downloads and uploads through \<^verbatim>\<open>poll\<close> with losses and duplicates, and a server
  over the DTLS adapter.
\<close>

section \<open>Properties that span client and server\<close>

text \<open>
  C4: a whole exchange. A client's GET of a path that the server routes to a resource with
  GET allowed is one datagram; the server runs that resource's handler on it once and
  answers with one datagram; and when the client polls that datagram, it completes the
  transaction and calls the callback of this very call, with its context and with the code,
  payload and content format the handler chose, and then frees the slot unless it observes.
\<close>

theorem exchange_end_to_end:
  assumes "valid_config cfg" "client_inv cfg c" "server_inv cfg s"
    and "short_path path" "0 \<notin> set path" "length (canonical_path path) < max_uri_path_len cfg"
    and "client_get cfg srv path (Some h) ctx True c = (True, c1)"
    and "m = sent_request cfg path Code_Get None CF_TextPlain True False False c"
    and "list_all (\<lambda>p. \<not> pending_matches (msg_token m) p) (cl_pending c)"
    and "list_all (\<lambda>d. \<not> discover_matches (msg_token m) d) (cl_discovers c)"
    and "route cfg (sv_resources s) (canonical_path path) = Some (i, ps)"
    and "rs_methods (sv_resources s ! i) AND MethodGet \<noteq> 0"
    and "reserve_deferred me m s = (d, s2)"
    and "run_handler cfg senv (sv_resources s2 ! i) (make_request m me d None ps) s2 = (res, s3)"
    and "\<not> res_deferred res \<or> d = None" "fits_one_block cfg m (res_payload res)"
    and "reply = response_to m (sv_nextMessageId s3) (res_code res) (res_payload res)
           (res_contentFormat res) (- 1)"
    and "encode reply (max_msg_size cfg) \<noteq> []"
    and "res_code res \<noteq> Code_Empty" "\<not> isMethodCode (res_code res)"
    and "c2 = c1\<lparr>cl_transport := (cl_transport c1)\<lparr>tp_inbox := [(srv, encode reply (max_msg_size cfg))]\<rparr>\<rparr>"
  shows "tp_sent (cl_transport c1) = tp_sent (cl_transport c) @ [(srv, encode m (max_msg_size cfg))] \<and>
    (\<exists>s4. handle_datagram cfg senv me (encode m (max_msg_size cfg)) s = Some s4 \<and>
       tp_sent (sv_transport s4) = tp_sent (sv_transport s3) @ [(me, encode reply (max_msg_size cfg))]) \<and>
    (\<exists>slot < length (cl_pending c). client_poll cfg cenv now c2 =
       Some (poll_timers cfg cenv now (finish_slot slot
         (ce_response cenv h \<lparr>cr_code = res_code res, cr_payload = reply_payload (res_payload res),
             cr_contentFormat = (if res_payload res = None \<or> res_payload res = Some [] then CF_TextPlain
                                 else res_contentFormat res)\<rparr>
            ctx (at_callback now srv (cl_nextMessageId c) c2)))))"
proof -
  have get: "sendRequest cfg srv path Code_Get None CF_TextPlain True False False (Some h) ctx False c = (True, c1)"
    using assms(7) by (simp add: client_get_def)
  from sendRequest_success [OF get assms(1,4,8)] obtain
    sent: "cl_transport c1 = snd (transport_send srv (encode m (max_msg_size cfg)) (cl_transport c))"
      "cl_discovers c1 = cl_discovers c" by metis
  then have "same_wait srv (msg_token m) (encode reply (max_msg_size cfg)) c1 c2"
    using assms(10) by (simp add: same_wait_def assms(21))
  moreover have "requested_mask Code_Get = Some MethodGet" by (simp add: requested_mask_def)
  ultimately show ?thesis
    using exchange_core [OF assms(1-6) get assms(8,9,11-20), of c2 cenv now] sent(1) by auto
qed

text \<open>One exchange on concrete data: the sample server's reply to the sample GET.\<close>

lemma temp_exchange:
  obtains d s2 res s3 reply where
    "reserve_deferred client_a (get_message True) (temp_server default_config) = (d, s2)"
    "run_handler default_config temp_env (sv_resources s2 ! 0) (make_request (get_message True) client_a d None []) s2 =
       (res, s3)"
    "\<not> res_deferred res \<or> d = None" "fits_one_block default_config (get_message True) (res_payload res)"
    "reply = response_to (get_message True) (sv_nextMessageId s3) (res_code res) (res_payload res)
       (res_contentFormat res) (- 1)"
    "encode reply (max_msg_size default_config) = [0x61, 0x45, 0x00, 0x01, 0x01, 0xC0, 0xFF, 0x32, 0x31]"
    "res_code res \<noteq> Code_Empty" "\<not> isMethodCode (res_code res)" "tp_sent (sv_transport s3) = []"
proof -
  let ?s = "temp_server default_config" and ?m = "get_message True"
  let ?d = "fst (reserve_deferred client_a ?m ?s)" and ?s2 = "snd (reserve_deferred client_a ?m ?s)"
  let ?run = "run_handler default_config temp_env (sv_resources ?s2 ! 0) (make_request ?m client_a ?d None []) ?s2"
  let ?res = "fst ?run" and ?s3 = "snd ?run"
  let ?reply = "response_to ?m (sv_nextMessageId ?s3) (res_code ?res) (res_payload ?res) (res_contentFormat ?res) (- 1)"
  have "\<not> res_deferred ?res \<or> ?d = None" "fits_one_block default_config ?m (res_payload ?res)"
    "res_code ?res \<noteq> Code_Empty" "\<not> isMethodCode (res_code ?res)" "tp_sent (sv_transport ?s3) = []" by code_simp+
  moreover have "encode ?reply 256 = [0x61, 0x45, 0x00, 0x01, 0x01, 0xC0, 0xFF, 0x32, 0x31]" by code_simp
  then have "encode ?reply (max_msg_size default_config) = [0x61, 0x45, 0x00, 0x01, 0x01, 0xC0, 0xFF, 0x32, 0x31]"
    by (simp add: default_config_def)
  ultimately show thesis by (intro that [of ?d ?s2 ?res ?s3 ?reply]) simp_all
qed

lemma temp_request:
  shows "table_config 4 = default_config"
    and "0 \<notin> set temp_uri" "length (canonical_path temp_uri) < max_uri_path_len default_config"
    and "list_all (\<lambda>p. \<not> pending_matches (msg_token (get_message True)) p) (cl_pending (fresh_client 4))"
    and "list_all (\<lambda>d. \<not> discover_matches (msg_token (get_message True)) d) (cl_discovers (fresh_client 4))"
    and "route default_config (sv_resources (temp_server default_config)) (canonical_path temp_uri) = Some (0, [])"
    and "rs_methods (sv_resources (temp_server default_config) ! 0) AND MethodGet \<noteq> 0"
proof -
  have canon: "canonical_path temp_uri = temp_uri" by code_simp
  show "table_config 4 = default_config" by (simp add: table_config_def default_config_def)
  show "0 \<notin> set temp_uri" "length (canonical_path temp_uri) < max_uri_path_len default_config"
    unfolding canon by (simp_all add: temp_uri_def str_def default_config_def)
  show "list_all (\<lambda>p. \<not> pending_matches (msg_token (get_message True)) p) (cl_pending (fresh_client 4))"
    "list_all (\<lambda>d. \<not> discover_matches (msg_token (get_message True)) d) (cl_discovers (fresh_client 4))"
    by (simp_all add: fresh_client_def new_client_def empty_pending_def empty_discover_def
        pending_matches_def discover_matches_def list_all_iff)
  show "route default_config (sv_resources (temp_server default_config)) (canonical_path temp_uri) = Some (0, [])"
    "rs_methods (sv_resources (temp_server default_config) ! 0) AND MethodGet \<noteq> 0" by code_simp+
qed

theorem exchange_end_to_end_witness:
  "\<exists>s4. handle_datagram default_config temp_env client_a
      [0x41, 0x01, 0x00, 0x01, 0x01, 0xB4, 0x74, 0x65, 0x6D, 0x70] (temp_server default_config) = Some s4 \<and>
    tp_sent (sv_transport s4) = [(client_a, [0x61, 0x45, 0x00, 0x01, 0x01, 0xC0, 0xFF, 0x32, 0x31])]"
proof -
  have n: "(0 :: nat) < 4" "(4 :: nat) \<le> 255" by simp_all
  obtain d s2 res s3 reply where x:
    "reserve_deferred client_a (get_message True) (temp_server default_config) = (d, s2)"
    "run_handler default_config temp_env (sv_resources s2 ! 0) (make_request (get_message True) client_a d None []) s2 =
       (res, s3)"
    "\<not> res_deferred res \<or> d = None" "fits_one_block default_config (get_message True) (res_payload res)"
    "reply = response_to (get_message True) (sv_nextMessageId s3) (res_code res) (res_payload res)
       (res_contentFormat res) (- 1)"
    "encode reply (max_msg_size default_config) = [0x61, 0x45, 0x00, 0x01, 0x01, 0xC0, 0xFF, 0x32, 0x31]"
    "res_code res \<noteq> Code_Empty" "\<not> isMethodCode (res_code res)" "tp_sent (sv_transport s3) = []"
    by (rule temp_exchange)
  then have ne: "encode reply (max_msg_size default_config) \<noteq> []" by simp
  have e: "max_msg_size default_config = 256" by (simp add: default_config_def)
  note q = temp_request
  from exchange_end_to_end [OF default_config_valid fresh_client_inv [of 4, unfolded q(1)] temp_server_inv
      temp_uri_short q(2,3) fresh_get [OF n, of True, unfolded q(1)] fresh_message [of 4 True, symmetric, unfolded q(1)]
      q(4-7) x(1-5) ne x(7,8) refl, THEN conjunct2, THEN conjunct1]
  show ?thesis unfolding x(6,9) by (simp only: e get_message_bytes append_Nil)
qed

text \<open>
  C5: a Confirmable request survives the loss of datagrams. When nothing else is in flight and the
  network delivers nothing, polls at increasing times at most \<open>G\<close> apart, before the request is
  given up, resend its datagram unchanged, at most MAX_RETRANSMIT times, and at least one more
  time after each deadline; the call still waits then. So whichever copy reaches the
  server in whatever state, the handler runs and answers, and the response ends the call.
\<close>

theorem request_survives_losses:
  assumes "valid_config cfg" "client_inv cfg c" "server_inv cfg s" "backoff_fits cfg"
    and "short_path path" "0 \<notin> set path" "length (canonical_path path) < max_uri_path_len cfg"
    and "client_get cfg srv path (Some h) ctx True c = (True, c1)"
    and "m = sent_request cfg path Code_Get None CF_TextPlain True False False c"
    and "list_all (\<lambda>p. \<not> pending_matches (msg_token m) p) (cl_pending c)"
    and "list_all (\<lambda>d. \<not> discover_matches (msg_token m) d) (cl_discovers c)"
    and "no_traffic c" "cl_lastNowMs c = of_nat T" "polled G T ns" "G < 2 ^ 31"
    and "b = first_timeout cfg (msg_messageId m)" "last (T # ns) < T + give_up_time cfg b"
    and "route cfg (sv_resources s) (canonical_path path) = Some (i, ps)"
    and "rs_methods (sv_resources s ! i) AND MethodGet \<noteq> 0"
    and "reserve_deferred me m s = (d, s2)"
    and "run_handler cfg senv (sv_resources s2 ! i) (make_request m me d None ps) s2 = (res, s3)"
    and "\<not> res_deferred res \<or> d = None" "fits_one_block cfg m (res_payload res)"
    and "reply = response_to m (sv_nextMessageId s3) (res_code res) (res_payload res)
           (res_contentFormat res) (- 1)"
    and "encode reply (max_msg_size cfg) \<noteq> []"
    and "res_code res \<noteq> Code_Empty" "\<not> isMethodCode (res_code res)"
  shows "\<exists>c2 r. polls cfg cenv (map of_nat ns) c1 = Some c2 \<and>
    tp_sent (cl_transport c2) = tp_sent (cl_transport c) @ replicate (Suc r) (srv, encode m (max_msg_size cfg)) \<and>
    r \<le> max_retransmit cfg \<and>
    (\<forall>j. T + b * (2 ^ Suc j - 1) + j * G \<le> last (T # ns) \<longrightarrow> j < r) \<and>
    (\<exists>s4. handle_datagram cfg senv me (encode m (max_msg_size cfg)) s = Some s4 \<and>
       tp_sent (sv_transport s4) = tp_sent (sv_transport s3) @ [(me, encode reply (max_msg_size cfg))]) \<and>
    (\<exists>slot < length (cl_pending c).
       client_poll cfg cenv now (arriving srv (encode reply (max_msg_size cfg)) c2) =
       Some (poll_timers cfg cenv now (finish_slot slot
         (ce_response cenv h \<lparr>cr_code = res_code res, cr_payload = reply_payload (res_payload res),
             cr_contentFormat = (if res_payload res = None \<or> res_payload res = Some [] then CF_TextPlain
                                 else res_contentFormat res)\<rparr>
            ctx (at_callback now srv (cl_nextMessageId c)
              (arriving srv (encode reply (max_msg_size cfg)) c2))))))"
proof -
  have get: "sendRequest cfg srv path Code_Get None CF_TextPlain True False False (Some h) ctx False c = (True, c1)"
    using assms(8) by (simp add: client_get_def)
  from sendRequest_success [OF get assms(1,5,9)] obtain
    sent: "cl_transport c1 = snd (transport_send srv (encode m (max_msg_size cfg)) (cl_transport c))"
      "cl_discovers c1 = cl_discovers c" by metis
  have b: "b = first_timeout cfg (cl_nextMessageId c)"
    by (simp add: assms(9,16) sent_request_def request_of_def)
  obtain k D where start: "silent_since cfg c1 k srv (encode m (max_msg_size cfg)) b T G T D 0 c1"
    using silent_start [OF get assms(1,5,2,4,9,12,13), of G] unfolding b by blast
  have fits: "0 < b" "b * 2 ^ max_retransmit cfg < 2 ^ 31" "max_retransmit cfg \<le> 255"
    using first_timeout_bounds [OF assms(4)] assms(4) by (simp_all add: b backoff_fits_def)
  obtain c2 r D' where c2: "polls cfg cenv (map of_nat ns) c1 = Some c2"
    "silent_since cfg c1 k srv (encode m (max_msg_size cfg)) b T G (last (T # ns)) D' r c2"
    using silent_polls [OF start fits assms(14,15,17)] by blast
  have out: "tp_sent (cl_transport c2) =
      tp_sent (cl_transport c) @ replicate (Suc r) (srv, encode m (max_msg_size cfg))"
    using c2(2) sent(1) by (simp add: silent_since_def)
  have "same_wait srv (msg_token m) (encode reply (max_msg_size cfg)) c1
      (arriving srv (encode reply (max_msg_size cfg)) c2)"
    using c2(2) assms(11) sent(2) by (simp add: same_wait_def silent_since_def arriving_def)
  moreover have "requested_mask Code_Get = Some MethodGet" by (simp add: requested_mask_def)
  ultimately have core: "(\<exists>s4. handle_datagram cfg senv me (encode m (max_msg_size cfg)) s = Some s4 \<and>
       tp_sent (sv_transport s4) = tp_sent (sv_transport s3) @ [(me, encode reply (max_msg_size cfg))])"
    "\<exists>slot < length (cl_pending c). client_poll cfg cenv now (arriving srv (encode reply (max_msg_size cfg)) c2) =
       Some (poll_timers cfg cenv now (finish_slot slot
         (ce_response cenv h \<lparr>cr_code = res_code res, cr_payload = reply_payload (res_payload res),
             cr_contentFormat = (if res_payload res = None \<or> res_payload res = Some [] then CF_TextPlain
                                 else res_contentFormat res)\<rparr>
            ctx (at_callback now srv (cl_nextMessageId c)
              (arriving srv (encode reply (max_msg_size cfg)) c2)))))"
    using exchange_core [OF assms(1-3,5-7) get assms(9,10,18-27), of _ cenv now] by blast+
  show ?thesis
    using c2(1) out silent_copies [OF c2(2)] core by blast
qed

theorem request_survives_losses_witness:
  "\<exists>c2 r. polls default_config (silent_env default_config) [2000, 4000, 6000]
      (snd (client_get default_config some_server temp_uri (Some 7) (Some 3) True (fresh_client 4))) = Some c2 \<and>
    0 < r \<and> tp_sent (cl_transport c2) = replicate (Suc r)
      (some_server, [0x41, 0x01, 0x00, 0x01, 0x01, 0xB4, 0x74, 0x65, 0x6D, 0x70])"
proof -
  have n: "(0 :: nat) < 4" "(4 :: nat) \<le> 255" by simp_all
  obtain d s2 res s3 reply where x:
    "reserve_deferred client_a (get_message True) (temp_server default_config) = (d, s2)"
    "run_handler default_config temp_env (sv_resources s2 ! 0) (make_request (get_message True) client_a d None []) s2 =
       (res, s3)"
    "\<not> res_deferred res \<or> d = None" "fits_one_block default_config (get_message True) (res_payload res)"
    "reply = response_to (get_message True) (sv_nextMessageId s3) (res_code res) (res_payload res)
       (res_contentFormat res) (- 1)"
    "encode reply (max_msg_size default_config) = [0x61, 0x45, 0x00, 0x01, 0x01, 0xC0, 0xFF, 0x32, 0x31]"
    "res_code res \<noteq> Code_Empty" "\<not> isMethodCode (res_code res)" "tp_sent (sv_transport s3) = []"
    by (rule temp_exchange)
  then have ne: "encode reply (max_msg_size default_config) \<noteq> []" by simp
  let ?b = "first_timeout default_config 1"
  have b: "2000 \<le> ?b" "?b < 3000" by code_simp+
  then have t: "last (0 # [2000, 4000, 6000 :: nat]) < 0 + give_up_time default_config ?b"
    by (simp add: give_up_time_def default_config_def)
  have c: "no_traffic (fresh_client 4)" "cl_lastNowMs (fresh_client 4) = of_nat 0"
    "tp_sent (cl_transport (fresh_client 4)) = []" "polled 2000 0 [2000, 4000, 6000]" "(2000 :: nat) < 2 ^ 31"
    "msg_messageId (get_message True) = 1"
    by (simp_all add: no_traffic_def fresh_client_def new_client_def quiet_network_def reset_pool_def
        empty_transaction_def in_flight_def get_message_def request_of_def list_all_iff)
  have e: "max_msg_size default_config = 256" by (simp add: default_config_def)
  note q = temp_request
  from request_survives_losses [OF default_config_valid fresh_client_inv [of 4, unfolded q(1)] temp_server_inv
      default_backoff_fits temp_uri_short q(2,3) fresh_get [OF n, of True, unfolded q(1)]
      fresh_message [of 4 True, symmetric, unfolded q(1)] q(4,5) c(1,2,4,5) refl t [folded c(6)] q(6,7) x(1-5) ne x(7,8),
      of "silent_env default_config" 0]
  obtain c2 r where "polls default_config (silent_env default_config) (map of_nat [2000, 4000, 6000])
      (snd (client_get default_config some_server temp_uri (Some 7) (Some 3) True (fresh_client 4))) = Some c2"
    "tp_sent (cl_transport c2) = replicate (Suc r) (some_server, encode (get_message True) 256)"
    "\<forall>j. 0 + ?b * (2 ^ Suc j - 1) + j * 2000 \<le> last (0 # [2000, 4000, 6000]) \<longrightarrow> j < r"
    unfolding c(3,6) e append_Nil by blast
  moreover from this(3) have "0 < r" using b by (auto dest: spec [of _ 0])
  ultimately show ?thesis unfolding get_message_bytes by auto
qed



definition downloading_client :: client where
  "downloading_client = (fresh_client 1)\<lparr>cl_pending :=
     [pending_entry some_server 1 (Some 7) (Some 3) False temp_uri]\<rparr>"

definition observing_client :: client where
  "observing_client = (fresh_client 4)\<lparr>cl_pending :=
     [pending_entry some_server 0 (Some 7) (Some 3) True temp_uri]\<rparr>"

definition observed_entry :: observer where
  "observed_entry = empty_observer\<lparr>ob_active := True, ob_remote := client_a, ob_token := [0]\<rparr>"



text \<open>
  C24: cancelling an observation does not reach the server's table. The deregistration that
  \<^verbatim>\<open>cancelObserve\<close> sends is a GET with Observe 1 under a fresh token, while the server
  removes the entry of the requester with the token of the request; so an entry under the
  token of the observation, when the two tokens differ, is still there after the server has
  taken the Observe step of the deregistration.
\<close>

theorem cancel_observe_misses:
  assumes "cancelObserve cfg srv path c = (True, c')" "valid_config cfg" "short_path path"
    and "m = sent_request cfg path Code_Get None CF_TextPlain True False True c"
    and "tok \<noteq> [cl_nextTokenByte c]"
    and "ob \<in> set (sv_observers s)" "observes me tok ob"
  shows "tp_sent (cl_transport c') = tp_sent (cl_transport c) @ [(srv, encode m (max_msg_size cfg))] \<and>
    decode cfg (encode m (max_msg_size cfg)) = Decoded m \<and> msg_token m = [cl_nextTokenByte c] \<and>
    findOption Opt_Observe m = Some (uint_option Opt_Observe kObserveDeregister) \<and>
    ob \<in> set (sv_observers (snd (handle_observe i m me s)))"
proof -
  note sent = cancelObserve_success [OF assms(1-4)]
  have "\<not> observes me (msg_token m) ob" using assms(5,7) sent(3) by (simp add: observes_def)
  then have "ob \<in> set (removeObserver me (msg_token m) (sv_observers s))"
    using assms(6) by (force simp: removeObserver_def)
  then have "ob \<in> set (sv_observers (snd (handle_observe i m me s)))"
    using assms(6) sent(5)
    by (simp add: handle_observe_def Let_def optionAsUint_uint_option kObserveDeregister_def kObserveRegister_def)
  with sent show ?thesis by blast
qed

theorem cancel_observe_misses_witness:
  "observed_entry \<in> set (sv_observers (snd (handle_observe 0
     (sent_request (table_config 4) temp_uri Code_Get None CF_TextPlain True False True observing_client)
     client_a ((temp_server default_config)\<lparr>sv_observers := [observed_entry]\<rparr>))))"
proof -
  have ok: "cancelObserve (table_config 4) some_server temp_uri observing_client =
      (True, snd (cancelObserve (table_config 4) some_server temp_uri observing_client))"
    by (simp add: prod_eq_iff) code_simp
  have v: "valid_config (table_config 4)" by (rule table_config_valid) simp
  have tok: "[0] \<noteq> [cl_nextTokenByte observing_client]"
    by (simp add: observing_client_def fresh_client_def new_client_def)
  let ?s = "(temp_server default_config)\<lparr>sv_observers := [observed_entry]\<rparr>"
  have ob: "observed_entry \<in> set (sv_observers ?s)" "observes client_a [0] observed_entry"
    by (simp_all add: observes_def observed_entry_def ep_eq_refl)
  from cancel_observe_misses [OF ok v temp_uri_short refl tok ob] show ?thesis by blast
qed

section \<open>A client over DTLS\<close>


definition secure_client :: client where
  "secure_client = (fresh_client 1)\<lparr>cl_transport := quiet_network\<lparr>tp_send_results := [False]\<rparr>\<rparr>"


end
